(* ===== verification/Prelude.thy ===== *)
theory Prelude
  imports Complex_Main
begin

text \<open>
  Shared vocabulary of the development: the Python exceptions the modelled scripts can
  raise or catch, a bind on the result type \<open>py_error + 'a\<close> through which every
  fallible step of the scripts is threaded, and the generic list facts the component
  proofs share. The collection \<open>model_simps\<close> gathers the evaluation equations of the
  small helper definitions, so that witnesses at concrete inputs are one \<open>simp\<close> call.
\<close>

named_theorems model_simps "evaluation equations of helper definitions of the model"

section \<open>Python exceptions as values\<close>

text \<open>
  The exceptions the scripts can raise. \<open>OSError\<close> carries the failing path (a
  \<open>FileExistsError\<close> or \<open>NotADirectoryError\<close> of \<open>os.makedirs\<close>, an unwritable
  destination); \<open>ReadError\<close> stands for whatever \<open>gpd.read_file\<close> raises on a
  corrupt archive (\<open>DriverError\<close> and its kin); \<open>CRSError\<close> for a failed
  \<open>to_crs\<close>; \<open>TypeError\<close> for an ordering comparison between unorderable values.
\<close>

datatype py_error =
    IndexError
  | ValueError
  | KeyError string
  | AttributeError
  | OSError string
  | ReadError string
  | CRSError
  | TypeError

type_synonym 'a result = "py_error + 'a"

definition sbind :: "'e + 'a \<Rightarrow> ('a \<Rightarrow> 'e + 'b) \<Rightarrow> 'e + 'b" where
  "sbind r f = (case r of Inl e \<Rightarrow> Inl e | Inr a \<Rightarrow> f a)"

lemma sbind_Inl [simp]: "sbind (Inl e) f = Inl e"
  by (simp add: sbind_def)

lemma sbind_Inr [simp]: "sbind (Inr a) f = f a"
  by (simp add: sbind_def)

lemma sbind_eq_Inr_conv:
  "sbind r f = Inr b \<longleftrightarrow> (\<exists>a. r = Inr a \<and> f a = Inr b)"
  by (cases r) (auto simp: sbind_def)

lemma sbind_eq_Inl_conv:
  "sbind r f = Inl e \<longleftrightarrow> r = Inl e \<or> (\<exists>a. r = Inr a \<and> f a = Inl e)"
  by (cases r) (auto simp: sbind_def)

definition is_Inr :: "'e + 'a \<Rightarrow> bool" where
  "is_Inr r \<longleftrightarrow> (case r of Inl _ \<Rightarrow> False | Inr _ \<Rightarrow> True)"

lemma is_Inr_simps [simp]: "is_Inr (Inr a)" "\<not> is_Inr (Inl e)"
  by (simp_all add: is_Inr_def)

section \<open>Lists\<close>

text \<open>Python's \<open>xs[i]\<close> for a non-negative index: \<open>IndexError\<close> out of range.\<close>

definition py_index :: "'a list \<Rightarrow> nat \<Rightarrow> 'a result" where
  "py_index xs i = (if i < length xs then Inr (xs ! i) else Inl IndexError)"

lemma py_index_Cons [simp, model_simps]:
  "py_index (x # xs) 0 = Inr x"
  "py_index (x # xs) (Suc i) = py_index xs i"
  "py_index [] i = Inl IndexError"
  by (simp_all add: py_index_def)

lemma py_index_numeral [simp, model_simps]:
  "py_index (x # xs) (numeral n) = py_index xs (pred_numeral n)"
  by (simp add: numeral_eq_Suc)

lemma py_index_Inr_iff: "py_index xs i = Inr x \<longleftrightarrow> i < length xs \<and> xs ! i = x"
  by (auto simp: py_index_def)

lemma concat_map_filter_map:
  "concat (map (\<lambda>x. filter P (map f (g x))) xs) = filter P (map f (concat (map g xs)))"
  by (induction xs) simp_all

lemma map_filter_through:
  "map (\<lambda>x. h (k x)) (filter (\<lambda>x. P (k x)) xs) = map h (filter P (map k xs))"
  by (induction xs) auto

lemma set_concat_map_iff: "y \<in> set (concat (map f xs)) \<longleftrightarrow> (\<exists>x \<in> set xs. y \<in> set (f x))"
  by auto

end
