(* ===== verification/Py_Str.thy ===== *)
theory Py_Str
  imports Prelude
begin

text \<open>
  The Python built-ins on strings and paths that the scripts call, translated from the
  semantics of CPython 3 and \<open>posixpath\<close> (they are not code of the repository, so they
  carry no map entry): \<open>str.split\<close> with an explicit separator, \<open>int(str)\<close>,
  \<open>str(int)\<close>, \<open>str.lower\<close>, the substring test \<open>in\<close>, \<open>os.path.basename\<close>,
  \<open>os.path.join\<close> for two arguments and the \<open>*.zip\<close> pattern of \<open>glob\<close>.
  Characters are bytes: file names and layer names are taken to be ASCII.
\<close>

section \<open>Characters\<close>

definition is_digit :: "char \<Rightarrow> bool" where
  "is_digit c \<longleftrightarrow> (48::nat) \<le> of_char c \<and> of_char c \<le> (57::nat)"

definition digit_val :: "char \<Rightarrow> nat" where
  "digit_val c = of_char c - 48"

definition digit_char :: "nat \<Rightarrow> char" where
  "digit_char d = char_of (48 + d)"

text \<open>
  \<open>str.isspace\<close> restricted to ASCII: \<open>\t \n \v \f \r\<close>, the separators
  \<open>\x1c\<close>..\<open>\x1f\<close> and the blank. \<open>int()\<close> strips exactly these.
\<close>

definition py_isspace :: "char \<Rightarrow> bool" where
  "py_isspace c \<longleftrightarrow> (let n = (of_char c :: nat) in (9 \<le> n \<and> n \<le> 13) \<or> (28 \<le> n \<and> n \<le> 32))"

lemma digit_char_is_digit: "d < 10 \<Longrightarrow> is_digit (digit_char d)"
  by (simp add: is_digit_def digit_char_def)

lemma digit_val_digit_char [simp]: "d < 10 \<Longrightarrow> digit_val (digit_char d) = d"
  by (simp add: digit_val_def digit_char_def)

lemma digit_char_not_space: "d < 10 \<Longrightarrow> \<not> py_isspace (digit_char d)"
  by (simp add: py_isspace_def digit_char_def)

lemma digit_not_space: "is_digit c \<Longrightarrow> \<not> py_isspace c"
  by (simp add: py_isspace_def is_digit_def Let_def)

section \<open>\<open>str.split(sep)\<close>\<close>

text \<open>
  \<open>s.split(c)\<close> with a one-character separator splits at every occurrence and keeps
  empty fields: \<open>''.split('_') == ['']\<close>, \<open>'a__b'.split('_') == ['a', '', 'b']\<close>.
\<close>

fun split_on :: "char \<Rightarrow> string \<Rightarrow> string list" where
  "split_on c [] = [[]]"
| "split_on c (x # xs) =
     (if x = c then [] # split_on c xs
      else (case split_on c xs of [] \<Rightarrow> [[x]] | w # ws \<Rightarrow> (x # w) # ws))"

lemma split_on_not_Nil [simp]: "split_on c s \<noteq> []"
  by (induction s) (auto split: list.split)

lemma length_split_on: "length (split_on c s) = Suc (count_list s c)"
  by (induction s) (auto split: list.split)

lemma split_on_Cons_other:
  "x \<noteq> c \<Longrightarrow> split_on c (x # xs) = (x # hd (split_on c xs)) # tl (split_on c xs)"
  by (cases "split_on c xs") simp_all

lemma split_on_fields: "w \<in> set (split_on c s) \<Longrightarrow> c \<notin> set w"
proof (induction s arbitrary: w)
  case Nil
  then show ?case by simp
next
  case (Cons x xs)
  then show ?case
    by (cases "split_on c xs") (auto split: if_splits)
qed

text \<open>\<open>sep.join(ws)\<close>.\<close>

fun py_join :: "string \<Rightarrow> string list \<Rightarrow> string" where
  "py_join sep [] = []"
| "py_join sep [w] = w"
| "py_join sep (w # v # ws) = w @ sep @ py_join sep (v # ws)"

text \<open>Joining the fields back with the separator gives the string: \<open>'_'.join(s.split('_')) == s\<close>.\<close>

lemma py_join_Cons_nonempty:
  "ws \<noteq> [] \<Longrightarrow> py_join sep (w # ws) = w @ sep @ py_join sep ws"
  by (cases ws) simp_all

lemma py_join_Cons_Cons: "py_join sep ((x # w) # ws) = x # py_join sep (w # ws)"
  by (cases ws) simp_all

lemma join_split_on: "py_join [c] (split_on c s) = s"
proof (induction s)
  case Nil
  then show ?case by simp
next
  case (Cons x xs)
  then show ?case
    by (cases "split_on c xs")
      (auto simp: py_join_Cons_nonempty py_join_Cons_Cons split_on_Cons_other)
qed

lemma split_on_append_sep:
  "c \<notin> set w \<Longrightarrow> split_on c (w @ c # s) = w # split_on c s"
proof (induction w)
  case Nil
  then show ?case by simp
next
  case (Cons x w)
  then show ?case by (auto simp: split_on_Cons_other)
qed

lemma split_on_append_nosep:
  "c \<notin> set w \<Longrightarrow> split_on c (w @ s) = (w @ hd (split_on c s)) # tl (split_on c s)"
  by (induction w) (auto simp: split_on_Cons_other)

lemma split_on_no_sep: "c \<notin> set w \<Longrightarrow> split_on c w = [w]"
  by (induction w) (auto simp: split_on_Cons_other)

section \<open>\<open>int(str)\<close> and \<open>str(int)\<close>\<close>

text \<open>
  A decimal literal as \<open>int()\<close> accepts it after the sign: digits, with single
  underscores allowed between two digits (\<open>int('2_0') == 20\<close>, \<open>int('_2')\<close>,
  \<open>int('2_')\<close> and \<open>int('2__0')\<close> raise \<open>ValueError\<close>). Leading zeros are allowed.
\<close>

fun us_digits :: "string \<Rightarrow> bool" where
  "us_digits [] = False"
| "us_digits [c] = is_digit c"
| "us_digits (c # d # r) =
     (is_digit c \<and> (if d = CHR ''_'' then us_digits r else us_digits (d # r)))"

definition digits_value :: "string \<Rightarrow> nat" where
  "digits_value s = foldl (\<lambda>n c. 10 * n + digit_val c) 0 (filter is_digit s)"

definition py_strip :: "string \<Rightarrow> string" where
  "py_strip s = rev (dropWhile py_isspace (rev (dropWhile py_isspace s)))"

text \<open>
  \<open>int(s)\<close> for a string: strip white space, an optional sign, then the digits; anything
  else, and the empty string, raises \<open>ValueError\<close>. White space between the sign and
  the digits is refused, as CPython does.
\<close>

definition py_int :: "string \<Rightarrow> int result" where
  "py_int s =
     (case py_strip s of
        [] \<Rightarrow> Inl ValueError
      | c # r \<Rightarrow>
          (if c = CHR ''-'' then
             (if us_digits r then Inr (- int (digits_value r)) else Inl ValueError)
           else if c = CHR ''+'' then
             (if us_digits r then Inr (int (digits_value r)) else Inl ValueError)
           else if us_digits (c # r) then Inr (int (digits_value (c # r)))
           else Inl ValueError))"

text \<open>\<open>str(n)\<close> for \<open>n \<ge> 0\<close>: the shortest decimal numeral.\<close>

fun show_nat :: "nat \<Rightarrow> string" where
  "show_nat n = (if n < 10 then [digit_char n] else show_nat (n div 10) @ [digit_char (n mod 10)])"

declare show_nat.simps [simp del]

definition py_str_int :: "int \<Rightarrow> string" where
  "py_str_int i = (if i < 0 then CHR ''-'' # show_nat (nat (- i)) else show_nat (nat i))"

lemma show_nat_eq: "show_nat n = (if n < 10 then [digit_char n] else show_nat (n div 10) @ [digit_char (n mod 10)])"
  by (rule show_nat.simps)

lemma show_nat_digits: "c \<in> set (show_nat n) \<Longrightarrow> is_digit c"
proof (induction n rule: show_nat.induct)
  case (1 n)
  then show ?case
    by (subst (asm) show_nat_eq) (auto simp: digit_char_is_digit split: if_splits)
qed

lemma show_nat_no_sep: "\<not> is_digit c \<Longrightarrow> c \<notin> set (show_nat n)"
  using show_nat_digits by blast

lemma show_nat_not_Nil [simp]: "show_nat n \<noteq> []"
  by (subst show_nat_eq) simp

lemma us_digits_all_digits: "s \<noteq> [] \<Longrightarrow> \<forall>c \<in> set s. is_digit c \<Longrightarrow> us_digits s"
proof (induction s rule: us_digits.induct)
  case (3 c d r)
  moreover have "d \<noteq> CHR ''_''" using "3.prems" by (auto simp: is_digit_def)
  ultimately show ?case by simp
qed simp_all

lemma digits_value_snoc:
  "is_digit c \<Longrightarrow> digits_value (s @ [c]) = 10 * digits_value s + digit_val c"
  by (simp add: digits_value_def)

lemma digits_value_show_nat [simp]: "digits_value (show_nat n) = n"
proof (induction n rule: show_nat.induct)
  case (1 n)
  show ?case
  proof (cases "n < 10")
    case True
    then show ?thesis
      by (subst show_nat_eq) (simp add: digits_value_def digit_char_is_digit)
  next
    case False
    then have "digits_value (show_nat n) = 10 * (n div 10) + n mod 10"
      using "1.IH" by (subst show_nat_eq) (simp add: digits_value_snoc digit_char_is_digit)
    then show ?thesis by simp
  qed
qed

lemma py_strip_digits: "\<forall>c \<in> set s. is_digit c \<Longrightarrow> py_strip s = s"
proof -
  assume d: "\<forall>c \<in> set s. is_digit c"
  then have "dropWhile py_isspace s = s"
    by (cases s) (auto simp: digit_not_space)
  moreover from d have "dropWhile py_isspace (rev s) = rev s"
    by (cases "rev s") (auto simp: digit_not_space dest: arg_cong [where f = set])
  ultimately show ?thesis by (simp add: py_strip_def)
qed

text \<open>A non-empty run of ASCII digits parses as its decimal value.\<close>

lemma py_int_digits:
  assumes "s \<noteq> []" and "\<forall>c \<in> set s. is_digit c"
  shows "py_int s = Inr (int (digits_value s))"
proof (cases s)
  case (Cons c r)
  from assms Cons have "c \<noteq> CHR ''-''" and "c \<noteq> CHR ''+''"
    by (auto simp: is_digit_def)
  with assms Cons show ?thesis
    by (simp add: py_int_def py_strip_digits us_digits_all_digits)
qed (use assms in simp)

text \<open>\<open>int(str(n)) == n\<close> for \<open>n \<ge> 0\<close>.\<close>

lemma py_int_show_nat [simp]: "py_int (show_nat n) = Inr (int n)"
  using py_int_digits [of "show_nat n"] show_nat_digits by auto

lemma py_strip_id:
  assumes "s \<noteq> []" and "\<not> py_isspace (hd s)" and "\<not> py_isspace (last s)"
  shows "py_strip s = s"
proof -
  from assms(1,2) have "dropWhile py_isspace s = s" by (cases s) simp_all
  moreover from assms(1,3) have "dropWhile py_isspace (rev s) = rev s"
    by (cases s rule: rev_cases) simp_all
  ultimately show ?thesis by (simp add: py_strip_def)
qed

lemma py_int_minus_digits:
  assumes "s \<noteq> []" and "\<forall>c \<in> set s. is_digit c"
  shows "py_int (CHR ''-'' # s) = Inr (- int (digits_value s))"
proof -
  from assms have "\<not> py_isspace (last s)" by (simp add: digit_not_space)
  then have "py_strip (CHR ''-'' # s) = CHR ''-'' # s"
    using assms by (intro py_strip_id) (simp_all add: py_isspace_def Let_def)
  with assms show ?thesis by (simp add: py_int_def us_digits_all_digits)
qed

lemma py_int_py_str_int [simp]: "py_int (py_str_int i) = Inr i"
proof (cases "i < 0")
  case True
  then have "py_int (py_str_int i) = Inr (- int (nat (- i)))"
    using py_int_minus_digits [of "show_nat (nat (- i))"] show_nat_digits
    by (auto simp: py_str_int_def)
  with True show ?thesis by simp
qed (simp add: py_str_int_def)

lemma length_show_nat:
  "10 ^ k \<le> n \<Longrightarrow> n < 10 ^ Suc k \<Longrightarrow> length (show_nat n) = Suc k"
proof (induction k arbitrary: n)
  case 0
  then show ?case by (subst show_nat_eq) simp
next
  case (Suc k)
  then have "10 ^ k \<le> n div 10" and "n div 10 < 10 ^ Suc k"
    by (auto simp: less_eq_div_iff_mult_less_eq div_less_iff_less_mult)
  with Suc.IH have "length (show_nat (n div 10)) = Suc k" by blast
  moreover from Suc.prems have "\<not> n < 10"
    proof -
    have "(1::nat) \<le> 10 ^ k" by simp
    then have "10 \<le> (10::nat) ^ Suc k" by simp
    with Suc.prems show ?thesis by linarith
  qed
  ultimately show ?case by (subst show_nat_eq) simp
qed

section \<open>Paths\<close>

text \<open>\<open>posixpath.basename(p)\<close>: what follows the last slash.\<close>

definition basename :: "string \<Rightarrow> string" where
  "basename p = rev (takeWhile (\<lambda>c. c \<noteq> CHR ''/'') (rev p))"

text \<open>
  \<open>posixpath.join(a, b)\<close>: an absolute \<open>b\<close> replaces \<open>a\<close>; otherwise a slash is
  put between them unless \<open>a\<close> is empty or already ends with one.
\<close>

definition path_join :: "string \<Rightarrow> string \<Rightarrow> string" where
  "path_join a b =
     (if take 1 b = ''/'' then b
      else if a = [] \<or> last a = CHR ''/'' then a @ b
      else a @ ''/'' @ b)"

text \<open>
  \<open>posixpath.dirname(p)\<close>: everything up to the last slash, with trailing slashes
  removed unless the head consists of slashes only.
\<close>

definition dirname :: "string \<Rightarrow> string" where
  "dirname p =
     (let head = rev (dropWhile (\<lambda>c. c \<noteq> CHR ''/'') (rev p)) in
      if head \<noteq> [] \<and> (\<exists>c \<in> set head. c \<noteq> CHR ''/'')
      then rev (dropWhile (\<lambda>c. c = CHR ''/'') (rev head)) else head)"

lemma dirname_no_sep: "CHR ''/'' \<notin> set p \<Longrightarrow> dirname p = []"
  by (auto simp: dirname_def dropWhile_eq_Nil_conv)

lemma takeWhile_not_sep: "c \<notin> set xs \<Longrightarrow> takeWhile (\<lambda>x. x \<noteq> c) xs = xs"
  by (induction xs) auto

lemma takeWhile_not_sep_append:
  "c \<notin> set xs \<Longrightarrow> takeWhile (\<lambda>x. x \<noteq> c) (xs @ c # ys) = xs"
  by (induction xs) auto

lemma basename_append_slash: "CHR ''/'' \<notin> set n \<Longrightarrow> basename (a @ CHR ''/'' # n) = n"
  by (simp add: basename_def takeWhile_not_sep_append)

lemma basename_path_join:
  assumes "CHR ''/'' \<notin> set n" and "n \<noteq> []"
  shows "basename (path_join d n) = n"
proof -
  from assms have "take 1 n \<noteq> ''/''" by (cases n) auto
  moreover have "basename (d @ n) = n" if "d = [] \<or> last d = CHR ''/''"
  proof (cases "d = []")
    case True
    with assms show ?thesis by (simp add: basename_def takeWhile_not_sep)
  next
    case False
    with that obtain d' where "d = d' @ ''/''" by (metis append_butlast_last_id)
    with assms show ?thesis by (simp add: basename_append_slash)
  qed
  ultimately show ?thesis using assms by (simp add: path_join_def basename_append_slash)
qed

text \<open>
  \<open>glob.glob(os.path.join(d, '*.zip'))\<close> over a directory listed as \<open>names\<close>, in
  the order the file system lists them: \<open>*\<close> does not match a leading dot, and the
  match is case-sensitive. Each match is returned joined to \<open>d\<close>.
\<close>

definition zip_match :: "string \<Rightarrow> bool" where
  "zip_match n \<longleftrightarrow> take 1 n \<noteq> ''.'' \<and> 4 \<le> length n \<and> drop (length n - 4) n = ''.zip''"

definition glob_zip :: "string \<Rightarrow> string list \<Rightarrow> string list" where
  "glob_zip d names = map (path_join d) (filter zip_match names)"

declare is_digit_def [model_simps] digit_val_def [model_simps] digit_char_def [model_simps]
  py_isspace_def [model_simps] digits_value_def [model_simps] py_strip_def [model_simps]
  py_int_def [model_simps] py_str_int_def [model_simps] basename_def [model_simps]
  path_join_def [model_simps] dirname_def [model_simps] zip_match_def [model_simps]
  glob_zip_def [model_simps]
end
