(* ===== verification/Descriptor.thy ===== *)
theory Descriptor
  imports Py_Str
begin

text \<open>
  The Descriptor Extractor and the season rule of \<open>src/scripts/process_sea_ice.py\<close>:
  lines 27--31 derive year and month from an archive's file name, line 60 labels the
  month with a season. \<open>parse_descriptor\<close> returns the exception the Python code raises
  (\<open>IndexError\<close> from \<open>parts[2]\<close>, \<open>ValueError\<close> from \<open>int()\<close>) as a value;
  \<open>process_files\<close> (theory \<open>Pipeline\<close>) catches it and skips the archive.
\<close>

record descriptor =
  year :: int
  month :: int
  source_path :: string

text \<open>
  \<^verbatim>\<open>filename = os.path.basename(zip_path); parts = filename.split('_')
date_str = parts[2]; year = int(date_str[:4]); month = int(date_str[4:6])\<close>
  The slices are \<open>take\<close> and \<open>drop\<close>: Python slices never raise, a short
  \<open>date_str\<close> gives a short or empty slice, and \<open>int('')\<close> raises.
\<close>

definition parse_descriptor :: "string \<Rightarrow> descriptor result" where
  "parse_descriptor zip_path =
     (let filename = basename zip_path;
          parts = split_on CHR ''_'' filename
      in sbind (py_index parts 2) (\<lambda>date_str.
         sbind (py_int (take 4 date_str)) (\<lambda>y.
         sbind (py_int (take 2 (drop 4 date_str))) (\<lambda>m.
         Inr \<lparr>year = y, month = m, source_path = zip_path\<rparr>))))"

datatype season = Winter | Summer

text \<open>\<^verbatim>\<open>gdf["season"] = "winter" if month == 3 else "summer"\<close>\<close>

definition season_of :: "int \<Rightarrow> season" where
  "season_of m = (if m = 3 then Winter else Summer)"

primrec season_name :: "season \<Rightarrow> string" where
  "season_name Winter = ''winter''"
| "season_name Summer = ''summer''"

section \<open>Behaviour of the extractor\<close>

lemma parse_descriptor_source [simp]:
  "parse_descriptor p = Inr d \<Longrightarrow> source_path d = p"
  by (auto simp: parse_descriptor_def Let_def sbind_eq_Inr_conv)

lemma py_int_not_IndexError: "py_int s \<noteq> Inl IndexError"
  by (simp add: py_int_def split: list.split)

lemma parse_descriptor_fields:
  "split_on CHR ''_'' (basename p) = a # b # t # rest \<Longrightarrow>
   parse_descriptor p =
     sbind (py_int (take 4 t)) (\<lambda>y. sbind (py_int (take 2 (drop 4 t))) (\<lambda>m.
       Inr \<lparr>year = y, month = m, source_path = p\<rparr>))"
  by (simp add: parse_descriptor_def Let_def)

text \<open>
  C10. The extractor raises \<open>IndexError\<close> exactly when the archive's file name has fewer
  than two underscores (no third field); any other failure is a \<open>ValueError\<close> of
  \<open>int()\<close>.
\<close>

theorem parse_descriptor_errors:
  "(parse_descriptor p = Inl IndexError \<longleftrightarrow> count_list (basename p) CHR ''_'' < 2) \<and>
   (parse_descriptor p = Inl e \<longrightarrow> e = IndexError \<or> e = ValueError)"
proof (cases "count_list (basename p) CHR ''_'' < 2")
  case True
  then have "length (split_on CHR ''_'' (basename p)) \<le> 2" by (simp add: length_split_on)
  then have "py_index (split_on CHR ''_'' (basename p)) 2 = Inl IndexError"
    by (simp add: py_index_def)
  with True show ?thesis by (simp add: parse_descriptor_def Let_def)
next
  case False
  then have "3 \<le> length (split_on CHR ''_'' (basename p))" by (simp add: length_split_on)
  then obtain a b t rest where fields: "split_on CHR ''_'' (basename p) = a # b # t # rest"
    by (metis Suc_le_length_iff numeral_3_eq_3)
  have "py_int s = Inl e \<Longrightarrow> e = ValueError" for s e
    by (simp add: py_int_def split: list.splits if_splits)
  with False show ?thesis
    by (auto simp: parse_descriptor_fields [OF fields] sbind_eq_Inl_conv py_int_not_IndexError)
qed

text \<open>
  C11. On a name whose third field is a \<open>YYYYMM\<close> token of six ASCII digits, the
  extractor returns the year of the first four digits and the month of the last two.
\<close>

theorem parse_descriptor_yyyymm:
  assumes "split_on CHR ''_'' (basename p) = a # b # t # rest"
    and "length t = 6" and "\<forall>c \<in> set t. is_digit c"
  shows "parse_descriptor p =
           Inr \<lparr>year = int (digits_value (take 4 t)), month = int (digits_value (drop 4 t)),
                source_path = p\<rparr>"
proof -
  have "take 4 t \<noteq> []" and "drop 4 t \<noteq> []" and "take 2 (drop 4 t) = drop 4 t"
    using assms(2) by auto
  moreover have "\<forall>c \<in> set (take 4 t). is_digit c" and "\<forall>c \<in> set (drop 4 t). is_digit c"
    using assms(3) by (auto dest: in_set_takeD in_set_dropD)
  ultimately show ?thesis
    by (simp add: parse_descriptor_fields [OF assms(1)] py_int_digits)
qed


declare parse_descriptor_def [model_simps] season_of_def [model_simps]

end
