(* ===== verification/Geo_Frame.thy ===== *)
theory Geo_Frame
  imports Prelude
begin

text \<open>
  The GeoDataFrame operations that \<open>process_sea_ice.py\<close> applies, with the geometry
  library behind them as an interface. A frame is its CRS, its column names (the active
  geometry column \<open>''geometry''\<close> among them) and its rows; a row is its index (the
  levels of a pandas index, a list), its geometry and its attribute values. The geometry
  type is a type variable \<open>'g\<close>: what the script asks of shapely and pyproj (parts of
  a multi-geometry, planar area, simplification, reprojection, \<open>CRS.is_geographic\<close>,
  reading an archive) is a record of functions, \<open>geo_backend\<close>. The pipeline's
  theorems hold for every backend; concrete backends in \<open>Pipeline\<close> evaluate them.
\<close>

datatype crs = EPSG nat

datatype cell = VInt int | VStr string

record 'g row =
  ridx :: "nat list"
  geom :: 'g
  attrs :: "string \<Rightarrow> cell option"

record 'g frame =
  fcrs :: "crs option"
  columns :: "string list"
  rows :: "'g row list"

record 'g geo_backend =
  read_file :: "string \<Rightarrow> 'g frame result"
  crs_is_geographic :: "crs \<Rightarrow> bool"
  transform :: "crs \<Rightarrow> crs \<Rightarrow> 'g \<Rightarrow> 'g"
  geom_parts :: "'g \<Rightarrow> 'g list"
  geom_area :: "'g \<Rightarrow> real"
  geom_simplify :: "real \<Rightarrow> 'g \<Rightarrow> 'g"

section \<open>Frame operations\<close>

text \<open>
  \<open>gdf.to_crs(dst)\<close>: a frame without a CRS cannot be transformed (geopandas raises
  \<open>ValueError\<close>); otherwise every geometry is reprojected from the frame's CRS.
\<close>

definition to_crs :: "'g geo_backend \<Rightarrow> crs \<Rightarrow> 'g frame \<Rightarrow> 'g frame result" where
  "to_crs be dst f =
     (case fcrs f of
        None \<Rightarrow> Inl ValueError
      | Some src \<Rightarrow>
          Inr (f\<lparr>fcrs := Some dst,
                 rows := map (\<lambda>r. r\<lparr>geom := transform be src dst (geom r)\<rparr>) (rows f)\<rparr>))"

text \<open>
  \<open>gdf.explode(index_parts=True)\<close>: one row per part of each geometry, in order, the
  row's attributes copied, the part number appended to the index.
\<close>

definition explode_row :: "'g geo_backend \<Rightarrow> 'g row \<Rightarrow> 'g row list" where
  "explode_row be r =
     map (\<lambda>(k, g). r\<lparr>ridx := ridx r @ [k], geom := g\<rparr>) (enumerate 0 (geom_parts be (geom r)))"

definition explode :: "'g geo_backend \<Rightarrow> 'g frame \<Rightarrow> 'g frame" where
  "explode be f = f\<lparr>rows := concat (map (explode_row be) (rows f))\<rparr>"

text \<open>\<open>gdf[mask]\<close> with a boolean mask computed from the geometries: order and index kept.\<close>

definition filter_geoms :: "('g \<Rightarrow> bool) \<Rightarrow> 'g frame \<Rightarrow> 'g frame" where
  "filter_geoms P f = f\<lparr>rows := filter (\<lambda>r. P (geom r)) (rows f)\<rparr>"

text \<open>\<open>gdf.geometry = gdf.geometry.simplify(tol, preserve_topology=True)\<close>.\<close>

definition simplify :: "'g geo_backend \<Rightarrow> real \<Rightarrow> 'g frame \<Rightarrow> 'g frame" where
  "simplify be tol f = f\<lparr>rows := map (\<lambda>r. r\<lparr>geom := geom_simplify be tol (geom r)\<rparr>) (rows f)\<rparr>"

text \<open>
  \<open>gdf[name] = v\<close> with a scalar: every row gets the value; a new column is appended
  after the existing ones, an existing one keeps its place.
\<close>

definition set_column :: "string \<Rightarrow> cell \<Rightarrow> 'g frame \<Rightarrow> 'g frame" where
  "set_column name v f =
     f\<lparr>columns := (if name \<in> set (columns f) then columns f else columns f @ [name]),
       rows := map (\<lambda>r. r\<lparr>attrs := (attrs r)(name \<mapsto> v)\<rparr>) (rows f)\<rparr>"

text \<open>
  \<open>gdf[cols]\<close>: the listed columns in the listed order; a name that is not a column
  raises \<open>KeyError\<close>.
\<close>

definition select_columns :: "string list \<Rightarrow> 'g frame \<Rightarrow> 'g frame result" where
  "select_columns cols f =
     (case filter (\<lambda>c. c \<notin> set (columns f)) cols of
        c # _ \<Rightarrow> Inl (KeyError c)
      | [] \<Rightarrow> Inr (f\<lparr>columns := cols,
                     rows := map (\<lambda>r. r\<lparr>attrs := attrs r |` set cols\<rparr>) (rows f)\<rparr>))"

text \<open>
  \<open>pd.concat(frames, ignore_index=True)\<close> of GeoDataFrames: the rows in order, the
  index renumbered \<open>0, 1, ...\<close>, the columns in order of first appearance; geopandas
  refuses frames whose CRSs differ (\<open>ValueError\<close>), and pandas refuses an empty list.
\<close>

definition union_columns :: "'g frame list \<Rightarrow> string list" where
  "union_columns fs = foldl (\<lambda>cs f. cs @ filter (\<lambda>c. c \<notin> set cs) (columns f)) [] fs"

definition renumber :: "'g row list \<Rightarrow> 'g row list" where
  "renumber rs = map (\<lambda>(i, r). r\<lparr>ridx := [i]\<rparr>) (enumerate 0 rs)"

definition concat_frames :: "'g frame list \<Rightarrow> 'g frame result" where
  "concat_frames fs =
     (case fs of
        [] \<Rightarrow> Inl ValueError
      | f # _ \<Rightarrow>
          (if \<forall>g \<in> set fs. fcrs g = fcrs f
           then Inr \<lparr>fcrs = fcrs f, columns = union_columns fs,
                     rows = renumber (concat (map rows fs))\<rparr>
           else Inl ValueError))"

section \<open>Lemmas on the frame operations\<close>

named_theorems frame_simps "geometry-level behaviour of the frame operations"

lemma map_geom_explode [frame_simps]:
  "map geom (rows (explode be f)) = concat (map (geom_parts be \<circ> geom) (rows f))"
proof -
  have "map geom (explode_row be r) = geom_parts be (geom r)" for r
    by (simp add: explode_row_def comp_def case_prod_beta)
  then show ?thesis by (simp add: explode_def map_concat comp_def)
qed

lemma length_explode:
  "length (rows (explode be f)) = sum_list (map (length \<circ> geom_parts be \<circ> geom) (rows f))"
  by (simp add: explode_def explode_row_def length_concat comp_def)

lemma fcrs_explode [simp]: "fcrs (explode be f) = fcrs f"
  and columns_explode [simp]: "columns (explode be f) = columns f"
  by (simp_all add: explode_def)

lemma map_geom_filter_geoms [frame_simps]:
  "map geom (rows (filter_geoms P f)) = filter P (map geom (rows f))"
  by (simp add: filter_geoms_def filter_map comp_def)

lemma fcrs_filter_geoms [simp]: "fcrs (filter_geoms P f) = fcrs f"
  and columns_filter_geoms [simp]: "columns (filter_geoms P f) = columns f"
  by (simp_all add: filter_geoms_def)

lemma map_geom_simplify [frame_simps]:
  "map geom (rows (simplify be tol f)) = map (geom_simplify be tol) (map geom (rows f))"
  by (simp add: simplify_def)

lemma fcrs_simplify [simp]: "fcrs (simplify be tol f) = fcrs f"
  and columns_simplify [simp]: "columns (simplify be tol f) = columns f"
  by (simp_all add: simplify_def)

lemma to_crs_Some [frame_simps]:
  "fcrs f = Some src \<Longrightarrow>
   to_crs be dst f = Inr (f\<lparr>fcrs := Some dst,
     rows := map (\<lambda>r. r\<lparr>geom := transform be src dst (geom r)\<rparr>) (rows f)\<rparr>)"
  by (simp add: to_crs_def)

lemma union_columns_step_id:
  "\<forall>f \<in> set fs. set (columns f) \<subseteq> set cs \<Longrightarrow>
   foldl (\<lambda>cs f. cs @ filter (\<lambda>c. c \<notin> set cs) (columns f)) cs fs = cs"
proof (induction fs arbitrary: cs)
  case Nil
  then show ?case by simp
next
  case (Cons f fs)
  then have "filter (\<lambda>c. c \<notin> set cs) (columns f) = []"
    by (auto simp: filter_empty_conv)
  with Cons show ?case by simp
qed

lemma union_columns_same:
  assumes "fs \<noteq> []" and "\<forall>f \<in> set fs. columns f = C" and "distinct C"
  shows "union_columns fs = C"
proof (cases fs)
  case (Cons f fs')
  with assms have "columns f = C" and "\<forall>g \<in> set fs'. set (columns g) \<subseteq> set C"
    by auto
  then show ?thesis
    using union_columns_step_id [of fs' C] Cons by (simp add: union_columns_def)
qed (use assms in simp)

lemma map_enumerate_snd: "map (\<lambda>(i, r). h r) (enumerate n rs) = map h rs"
  by (induction rs arbitrary: n) simp_all

lemma map_enumerate_fst: "map (\<lambda>(i, r). g i) (enumerate n rs) = map g [n..<n + length rs]"
  by (induction rs arbitrary: n) (simp_all add: upt_rec)

lemma renumber_ignores_index:
  assumes "\<And>r i. h (r\<lparr>ridx := i\<rparr>) = h r"
  shows "map h (renumber rs) = map h rs"
proof -
  have "map h (renumber rs) = map (\<lambda>(i, r). h r) (enumerate 0 rs)"
    by (simp add: renumber_def assms case_prod_beta)
  then show ?thesis by (simp add: map_enumerate_snd)
qed

lemma renumber_ridx: "map ridx (renumber rs) = map (\<lambda>i. [i]) [0..<length rs]"
proof -
  have "map ridx (renumber rs) = map (\<lambda>(i, r). [i]) (enumerate 0 rs)"
    by (simp add: renumber_def case_prod_beta)
  then show ?thesis using map_enumerate_fst [of "\<lambda>i. [i]" 0 rs] by simp
qed

lemma concat_frames_Inr:
  assumes "fs \<noteq> []" and "\<forall>g \<in> set fs. fcrs g = c"
  shows "concat_frames fs =
           Inr \<lparr>fcrs = c, columns = union_columns fs, rows = renumber (concat (map rows fs))\<rparr>"
  using assms by (cases fs) (auto simp: concat_frames_def)

declare to_crs_def [model_simps] explode_def [model_simps] explode_row_def [model_simps]
  filter_geoms_def [model_simps] simplify_def [model_simps] set_column_def [model_simps]
  select_columns_def [model_simps] union_columns_def [model_simps] renumber_def [model_simps]
  concat_frames_def [model_simps]
end
