(* ===== verification/File_System.thy ===== *)
theory File_System
  imports Py_Str Geo_Frame
begin

text \<open>
  The file system the scripts touch, as explicit state: the set of directories and the
  content of each file (\<open>'g fs\<close>). A file holds either bytes (an archive the
  downloader fetched) or the GeoJSON features the pipeline wrote. \<open>os.path.exists\<close>,
  \<open>os.makedirs\<close> with and without \<open>exist_ok\<close>, and the parent-directory check of
  \<open>open(path, 'w')\<close> are defined here and shared by the Serializer
  (\<open>process_sea_ice.py\<close>, line 75) and the downloader (\<open>download_sea_ice.py\<close>,
  lines 18--20 and 31).
\<close>

record 'g feature =
  properties :: "(string \<times> cell option) list"
  fgeom :: 'g

datatype 'g content = Blob string | GeoJSON "'g feature list"

record 'g fs =
  fs_dirs :: "string set"
  fs_files :: "string \<Rightarrow> 'g content option"

text \<open>
  \<open>os.makedirs(path, exist_ok=True)\<close> for a relative path without empty components:
  each prefix in turn is kept if it is a directory, created if it is free, and a file in
  the way raises an \<open>OSError\<close> (\<open>FileExistsError\<close>, \<open>NotADirectoryError\<close>); the
  directories made before the failure stay. \<open>os.makedirs('')\<close> raises as well.
\<close>

definition dir_prefixes :: "string \<Rightarrow> string list" where
  "dir_prefixes p =
     (let cs = split_on CHR ''/'' p in map (\<lambda>k. py_join ''/'' (take k cs)) [1..<Suc (length cs)])"

fun mkdir_all :: "string list \<Rightarrow> 'g fs \<Rightarrow> 'g fs \<times> unit result" where
  "mkdir_all [] fs = (fs, Inr ())"
| "mkdir_all (p # ps) fs =
     (if p \<in> fs_dirs fs then mkdir_all ps fs
      else if fs_files fs p \<noteq> None then (fs, Inl (OSError p))
      else mkdir_all ps (fs\<lparr>fs_dirs := insert p (fs_dirs fs)\<rparr>))"

definition makedirs :: "string \<Rightarrow> 'g fs \<Rightarrow> 'g fs \<times> unit result" where
  "makedirs p fs = (if p = [] then (fs, Inl (OSError p)) else mkdir_all (dir_prefixes p) fs)"

definition path_exists :: "'g fs \<Rightarrow> string \<Rightarrow> bool" where
  "path_exists fs p \<longleftrightarrow> p \<in> fs_dirs fs \<or> fs_files fs p \<noteq> None"

definition parent_ok :: "'g fs \<Rightarrow> string \<Rightarrow> bool" where
  "parent_ok fs p \<longleftrightarrow> dirname p = [] \<or> dirname p \<in> fs_dirs fs"

section \<open>Lemmas\<close>

text \<open>\<open>makedirs\<close> never touches a file, and on success every prefix is a directory.\<close>

lemma mkdir_all_files: "fs_files (fst (mkdir_all ps fs)) = fs_files fs"
  by (induction ps fs rule: mkdir_all.induct) auto

lemma mkdir_all_dirs_mono: "fs_dirs fs \<subseteq> fs_dirs (fst (mkdir_all ps fs))"
  by (induction ps fs rule: mkdir_all.induct) auto

lemma mkdir_all_Inr:
  "snd (mkdir_all ps fs) = Inr u \<Longrightarrow> set ps \<subseteq> fs_dirs (fst (mkdir_all ps fs))"
proof (induction ps fs rule: mkdir_all.induct)
  case (2 p ps fs)
  then show ?case
    using mkdir_all_dirs_mono [of fs ps] mkdir_all_dirs_mono [of "fs\<lparr>fs_dirs := insert p (fs_dirs fs)\<rparr>" ps]
    by (auto split: if_splits)
qed simp

lemma mkdir_all_succeeds:
  "\<forall>p \<in> set ps. p \<in> fs_dirs fs \<or> fs_files fs p = None \<Longrightarrow> snd (mkdir_all ps fs) = Inr ()"
  by (induction ps fs rule: mkdir_all.induct) auto

lemma mkdir_all_fails:
  "snd (mkdir_all ps fs) = Inl e \<Longrightarrow> \<exists>p \<in> set ps. p \<notin> fs_dirs fs \<and> fs_files fs p \<noteq> None"
  by (induction ps fs rule: mkdir_all.induct) (auto split: if_splits)

lemma mkdir_all_dirs_new: "fs_dirs (fst (mkdir_all ps fs)) \<subseteq> fs_dirs fs \<union> set ps"
  by (induction ps fs rule: mkdir_all.induct) auto

lemma mkdir_all_present: "set ps \<subseteq> fs_dirs fs \<Longrightarrow> mkdir_all ps fs = (fs, Inr ())"
  by (induction ps fs rule: mkdir_all.induct) auto

text \<open>Running \<open>os.makedirs\<close> a second time changes nothing and fails or succeeds as the first.\<close>

lemma mkdir_all_twice: "mkdir_all ps (fst (mkdir_all ps fs)) = mkdir_all ps fs"
proof (induction ps fs rule: mkdir_all.induct)
  case (1 fs)
  then show ?case by simp
next
  case (2 p ps fs)
  show ?case
  proof (cases "p \<in> fs_dirs fs")
    case True
    with "2.IH"(1) mkdir_all_dirs_mono [of fs ps] show ?thesis by auto
  next
    case False
    note nd = False
    show ?thesis
    proof (cases "fs_files fs p \<noteq> None")
      case True
      with nd show ?thesis by simp
    next
      case False
      let ?fs1 = "fs\<lparr>fs_dirs := insert p (fs_dirs fs)\<rparr>"
      have "p \<in> fs_dirs (fst (mkdir_all ps ?fs1))"
        using mkdir_all_dirs_mono [of ?fs1 ps] by auto
      with nd False "2.IH"(2) show ?thesis by simp
    qed
  qed
qed

lemma makedirs_twice: "makedirs d (fst (makedirs d fs)) = makedirs d fs"
  by (simp add: makedirs_def mkdir_all_twice)

lemma makedirs_files: "fs_files (fst (makedirs d fs)) = fs_files fs"
  by (simp add: makedirs_def mkdir_all_files)

declare dir_prefixes_def [model_simps] makedirs_def [model_simps] path_exists_def [model_simps]
  parent_ok_def [model_simps]

end
