(* ===== verification/Serializer.thy ===== *)
theory Serializer
  imports File_System
begin

text \<open>
  The Serializer of \<open>src/scripts/process_sea_ice.py\<close>, line 78:
  \<open>GeoDataFrame.to_file(path, driver="GeoJSON")\<close> as \<open>to_file\<close> on the file system
  state of \<open>File_System\<close>, returning the exception as a value; the caller does not
  catch it.
\<close>

text \<open>
  \<open>gdf.to_file(path, driver="GeoJSON")\<close>: one feature per row with the non-geometry
  columns as properties, in column order; geopandas adds the index as a property only
  when it is named, which an index of several levels (as \<open>explode\<close> makes) is. Writing
  fails on a path that is a directory or whose directory is missing, and replaces an
  existing file.
\<close>

definition index_written :: "'g frame \<Rightarrow> bool" where
  "index_written f \<longleftrightarrow> (\<exists>r \<in> set (rows f). length (ridx r) \<noteq> 1)"

definition feature_of :: "'g frame \<Rightarrow> 'g row \<Rightarrow> 'g feature" where
  "feature_of f r =
     \<lparr>properties =
        (if index_written f then [(''index'', Some (VStr (concat (map show_nat (ridx r)))))] else [])
        @ map (\<lambda>c. (c, attrs r c)) (filter (\<lambda>c. c \<noteq> ''geometry'') (columns f)),
      fgeom = geom r\<rparr>"

definition to_file :: "string \<Rightarrow> 'g frame \<Rightarrow> 'g fs \<Rightarrow> 'g fs result" where
  "to_file path f fs =
     (if path \<in> fs_dirs fs \<or> \<not> parent_ok fs path
      then Inl (OSError path)
      else Inr (fs\<lparr>fs_files := (fs_files fs)(path \<mapsto> GeoJSON (map (feature_of f) (rows f)))\<rparr>))"

section \<open>Lemmas\<close>

lemma index_written_renumber: "\<not> index_written (f\<lparr>rows := renumber rs\<rparr>)"
proof -
  have "\<forall>x \<in> set (map ridx (renumber rs)). length x = 1"
    by (simp add: renumber_ridx)
  then show ?thesis by (auto simp: index_written_def)
qed

lemma to_file_Inr:
  "to_file path f fs = Inr fs' \<Longrightarrow>
   fs_files fs' = (fs_files fs)(path \<mapsto> GeoJSON (map (feature_of f) (rows f))) \<and>
   fs_dirs fs' = fs_dirs fs"
  by (auto simp: to_file_def split: if_splits)

lemma to_file_twice:
  "to_file path f fs = Inr fs' \<Longrightarrow> to_file path f fs' = Inr fs'"
  by (auto simp: to_file_def parent_ok_def split: if_splits)

lemma to_file_Inl: "to_file path f fs = Inl e \<Longrightarrow> e = OSError path"
  by (simp add: to_file_def split: if_splits)

declare to_file_def [model_simps]
  index_written_def [model_simps] feature_of_def [model_simps]
end
