(* ===== verification/Pipeline.thy ===== *)
theory Pipeline
  imports Descriptor Serializer
begin

text \<open>
  \<open>src/scripts/process_sea_ice.py\<close>, function \<open>process_files\<close> (lines 14--81) with its
  configuration (lines 8--12). Each archive runs through the chain of lines 26--65
  (\<open>process_archive\<close>); an exception anywhere in it is caught by the \<open>except\<close> of
  line 67, printed, and the archive is skipped (\<open>batch_step\<close>). The loop over the
  archives (\<open>process_loop\<close>) is the only place with state across archives: the
  printed log and the list \<open>all_features\<close>. Merging and saving (lines 70--81) act on a
  file system state (\<open>'g fs\<close>); their exceptions are not caught, so they end the run
  (\<open>Fatal\<close>).
\<close>

section \<open>Configuration\<close>

definition INPUT_DIR :: string where
  "INPUT_DIR = path_join (path_join ''data'' ''sea_ice'') ''raw''"

definition OUTPUT_FILE :: string where
  "OUTPUT_FILE = path_join (path_join ''public'' ''data'') ''sea_ice_history.json''"

definition TARGET_CRS :: crs where
  "TARGET_CRS = EPSG 4326"

definition METRIC_CRS :: crs where
  "METRIC_CRS = EPSG 3413"

definition SIMPLIFY_TOLERANCE :: real where
  "SIMPLIFY_TOLERANCE = 50000"

definition MIN_AREA_KM2 :: int where
  "MIN_AREA_KM2 = 2500"

definition min_area_m2 :: int where
  "min_area_m2 = MIN_AREA_KM2 * 1000000"

definition OUTPUT_COLUMNS :: "string list" where
  "OUTPUT_COLUMNS = [''year'', ''month'', ''season'', ''geometry'']"

lemmas config_defs = INPUT_DIR_def OUTPUT_FILE_def TARGET_CRS_def METRIC_CRS_def
  SIMPLIFY_TOLERANCE_def MIN_AREA_KM2_def min_area_m2_def OUTPUT_COLUMNS_def

section \<open>One archive\<close>

text \<open>
  Lines 39--40: \<open>gdf.crs.is_geographic\<close> on a frame without CRS is an attribute access
  on \<open>None\<close> (\<open>AttributeError\<close>); a geographic frame is reprojected to EPSG:3413, a
  projected one is left as it is.
\<close>

definition to_metric :: "'g geo_backend \<Rightarrow> 'g frame \<Rightarrow> 'g frame result" where
  "to_metric be gdf =
     (case fcrs gdf of
        None \<Rightarrow> Inl AttributeError
      | Some c \<Rightarrow> (if crs_is_geographic be c then to_crs be METRIC_CRS gdf else Inr gdf))"

text \<open>Lines 48--49: keep the parts whose area exceeds \<open>MIN_AREA_KM2 * 1_000_000\<close>.\<close>

definition noise_filter :: "'g geo_backend \<Rightarrow> 'g frame \<Rightarrow> 'g frame" where
  "noise_filter be gdf = filter_geoms (\<lambda>g. real_of_int min_area_m2 < geom_area be g) gdf"

text \<open>Lines 58--63: the three metadata columns, then the four output columns.\<close>

definition tag_metadata :: "descriptor \<Rightarrow> 'g frame \<Rightarrow> 'g frame result" where
  "tag_metadata d gdf =
     select_columns OUTPUT_COLUMNS
       (set_column ''season'' (VStr (season_name (season_of (month d))))
         (set_column ''month'' (VInt (month d))
           (set_column ''year'' (VInt (year d)) gdf)))"

text \<open>Lines 36--63 after the descriptor: read, to metric, explode, filter, simplify, to
  EPSG:4326, tag.\<close>

definition process_archive_frame :: "'g geo_backend \<Rightarrow> descriptor \<Rightarrow> 'g frame result" where
  "process_archive_frame be d =
     sbind (read_file be (source_path d)) (\<lambda>gdf.
     sbind (to_metric be gdf) (\<lambda>gdf.
     sbind (to_crs be TARGET_CRS
              (simplify be SIMPLIFY_TOLERANCE (noise_filter be (explode be gdf)))) (\<lambda>gdf.
     tag_metadata d gdf)))"

datatype msg =
    Msg_Processing
  | Msg_No_Zip_Files
  | Msg_Parsed int int
  | Msg_Error string py_error
  | Msg_Merging
  | Msg_Saving string
  | Msg_Done
  | Msg_No_Features

text \<open>
  One iteration of the loop of lines 25--68: the lines printed and the frame or the
  exception. The \<open>print\<close> of line 33 comes before the archive is read, so an archive
  that fails later still prints its date.
\<close>

definition process_archive :: "'g geo_backend \<Rightarrow> string \<Rightarrow> msg list \<times> 'g frame result" where
  "process_archive be zip_path =
     (case parse_descriptor zip_path of
        Inl e \<Rightarrow> ([Msg_Error zip_path e], Inl e)
      | Inr d \<Rightarrow>
          (case process_archive_frame be d of
             Inl e \<Rightarrow> ([Msg_Parsed (year d) (month d), Msg_Error zip_path e], Inl e)
           | Inr f \<Rightarrow> ([Msg_Parsed (year d) (month d)], Inr f)))"

section \<open>The batch\<close>

record 'g batch =
  log :: "msg list"
  all_features :: "'g frame list"

definition batch_step :: "'g geo_backend \<Rightarrow> string \<Rightarrow> 'g batch \<Rightarrow> 'g batch" where
  "batch_step be p st =
     (case process_archive be p of
        (ms, Inl _) \<Rightarrow> st\<lparr>log := log st @ ms\<rparr>
      | (ms, Inr f) \<Rightarrow> st\<lparr>log := log st @ ms, all_features := all_features st @ [f]\<rparr>)"

fun process_loop :: "'g geo_backend \<Rightarrow> string list \<Rightarrow> 'g batch \<Rightarrow> 'g batch" where
  "process_loop be [] st = st"
| "process_loop be (p # ps) st = process_loop be ps (batch_step be p st)"

section \<open>The run\<close>

datatype outcome = No_Zip_Files | No_Features | Written | Fatal py_error

text \<open>
  \<open>process_files()\<close>: \<open>listing\<close> is the content of \<open>INPUT_DIR\<close> in the order the
  file system lists it; the result is the printed lines, how the run ended and the file
  system after it.
\<close>

definition save_output :: "'g frame list \<Rightarrow> 'g fs \<Rightarrow> msg list \<times> outcome \<times> 'g fs" where
  "save_output feats fs =
     (case concat_frames feats of
        Inl e \<Rightarrow> ([Msg_Merging], Fatal e, fs)
      | Inr final \<Rightarrow>
          (case makedirs (dirname OUTPUT_FILE) fs of
             (fs1, Inl e) \<Rightarrow> ([Msg_Merging], Fatal e, fs1)
           | (fs1, Inr _) \<Rightarrow>
               (case to_file OUTPUT_FILE final fs1 of
                  Inl e \<Rightarrow> ([Msg_Merging, Msg_Saving OUTPUT_FILE], Fatal e, fs1)
                | Inr fs2 \<Rightarrow> ([Msg_Merging, Msg_Saving OUTPUT_FILE, Msg_Done], Written, fs2))))"

definition process_files ::
  "'g geo_backend \<Rightarrow> string list \<Rightarrow> 'g fs \<Rightarrow> msg list \<times> outcome \<times> 'g fs" where
  "process_files be listing fs =
     (let zip_files = glob_zip INPUT_DIR listing in
      if zip_files = [] then ([Msg_Processing, Msg_No_Zip_Files], No_Zip_Files, fs)
      else
        (let st = process_loop be zip_files \<lparr>log = [Msg_Processing], all_features = []\<rparr> in
         if all_features st = [] then (log st @ [Msg_No_Features], No_Features, fs)
         else (case save_output (all_features st) fs of
                 (ms, oc, fs') \<Rightarrow> (log st @ ms, oc, fs'))))"

section \<open>Abstract specification of the chain\<close>

text \<open>
  What one archive contributes, stated on geometries only (spec sections 4.3--4.7):
  read it; reproject to the metric CRS if it is geographic; take the parts of every
  geometry; keep the parts larger than the threshold; simplify them; reproject them to
  EPSG:4326; tag them with year, month and season.
\<close>

type_synonym 'g out_record = "int \<times> int \<times> season \<times> 'g"

definition metric_crs_of :: "'g geo_backend \<Rightarrow> crs \<Rightarrow> crs" where
  "metric_crs_of be c = (if crs_is_geographic be c then METRIC_CRS else c)"

definition to_metric_geom :: "'g geo_backend \<Rightarrow> crs \<Rightarrow> 'g \<Rightarrow> 'g" where
  "to_metric_geom be c g = (if crs_is_geographic be c then transform be c METRIC_CRS g else g)"

definition archive_spec :: "'g geo_backend \<Rightarrow> descriptor \<Rightarrow> 'g out_record list result" where
  "archive_spec be d =
     sbind (read_file be (source_path d)) (\<lambda>gdf.
       case fcrs gdf of
         None \<Rightarrow> Inl AttributeError
       | Some c \<Rightarrow>
           Inr (map (\<lambda>g. (year d, month d, season_of (month d),
                        transform be (metric_crs_of be c) TARGET_CRS
                          (geom_simplify be SIMPLIFY_TOLERANCE g)))
                  (filter (\<lambda>g. real_of_int min_area_m2 < geom_area be g)
                    (concat (map (\<lambda>r. geom_parts be (to_metric_geom be c (geom r))) (rows gdf))))))"

text \<open>The view of an output row that the specification speaks about.\<close>

definition out_view :: "'g row \<Rightarrow> cell option \<times> cell option \<times> cell option \<times> 'g" where
  "out_view r = (attrs r ''year'', attrs r ''month'', attrs r ''season'', geom r)"

definition spec_view :: "'g out_record \<Rightarrow> cell option \<times> cell option \<times> cell option \<times> 'g" where
  "spec_view x = (case x of (y, m, s, g) \<Rightarrow>
     (Some (VInt y), Some (VInt m), Some (VStr (season_name s)), g))"

definition frame_wf :: "'g frame \<Rightarrow> bool" where
  "frame_wf f \<longleftrightarrow> ''geometry'' \<in> set (columns f)"

definition reads_wf :: "'g geo_backend \<Rightarrow> string \<Rightarrow> bool" where
  "reads_wf be p \<longleftrightarrow> (case read_file be p of Inl _ \<Rightarrow> True | Inr f \<Rightarrow> frame_wf f)"

lemma to_metric_Inr:
  "fcrs gdf = Some c \<Longrightarrow> to_metric be gdf =
     Inr (gdf\<lparr>fcrs := Some (metric_crs_of be c),
              rows := map (\<lambda>r. r\<lparr>geom := to_metric_geom be c (geom r)\<rparr>) (rows gdf)\<rparr>)"
  by (cases gdf) (simp add: to_metric_def to_crs_def metric_crs_of_def to_metric_geom_def)

lemma tag_metadata_Inr:
  assumes "''geometry'' \<in> set (columns f)"
  shows "tag_metadata d f = Inr (f\<lparr>columns := OUTPUT_COLUMNS,
     rows := map (\<lambda>r. r\<lparr>attrs := ((attrs r)(''year'' \<mapsto> VInt (year d), ''month'' \<mapsto> VInt (month d),
        ''season'' \<mapsto> VStr (season_name (season_of (month d))))) |` set OUTPUT_COLUMNS\<rparr>) (rows f)\<rparr>)"
  using assms by (simp add: tag_metadata_def select_columns_def set_column_def OUTPUT_COLUMNS_def)

lemma explode_to_metric_geoms:
  "concat (map (\<lambda>r. geom_parts be (to_metric_geom be c (geom r))) (rows gdf)) =
   map geom (rows (explode be (gdf\<lparr>fcrs := Some m,
      rows := map (\<lambda>r. r\<lparr>geom := to_metric_geom be c (geom r)\<rparr>) (rows gdf)\<rparr>)))"
  by (simp add: map_geom_explode comp_def)

lemma process_archive_frame_no_read:
  "read_file be (source_path d) = Inl e \<Longrightarrow>
   process_archive_frame be d = Inl e \<and> archive_spec be d = Inl e"
  by (simp add: process_archive_frame_def archive_spec_def)

lemma process_archive_frame_no_crs:
  "read_file be (source_path d) = Inr gdf \<Longrightarrow> fcrs gdf = None \<Longrightarrow>
   process_archive_frame be d = Inl AttributeError \<and> archive_spec be d = Inl AttributeError"
  by (simp add: process_archive_frame_def archive_spec_def to_metric_def)

text \<open>The computation of the chain on a readable archive with a CRS.\<close>

lemma process_archive_frame_crs:
  assumes rd: "read_file be (source_path d) = Inr gdf" and c: "fcrs gdf = Some c"
    and wf: "''geometry'' \<in> set (columns gdf)"
  shows "\<exists>f rs. process_archive_frame be d = Inr f \<and> archive_spec be d = Inr rs \<and>
           map out_view (rows f) = map spec_view rs \<and>
           columns f = OUTPUT_COLUMNS \<and> fcrs f = Some TARGET_CRS"
  using rd c wf
  by (simp add: process_archive_frame_def archive_spec_def to_metric_Inr to_crs_def
      tag_metadata_Inr explode_to_metric_geoms [where m = "metric_crs_of be c"]
      noise_filter_def filter_geoms_def simplify_def filter_map comp_def
      out_view_def spec_view_def OUTPUT_COLUMNS_def)

lemma process_archive_frame_Inr:
  assumes "reads_wf be (source_path d)" and "process_archive_frame be d = Inr f"
  shows "\<exists>rs. archive_spec be d = Inr rs \<and> map out_view (rows f) = map spec_view rs \<and>
           columns f = OUTPUT_COLUMNS \<and> fcrs f = Some TARGET_CRS"
proof (cases "read_file be (source_path d)")
  case (Inl e)
  with assms(2) show ?thesis using process_archive_frame_no_read by fastforce
next
  case (Inr gdf)
  with assms(1) have wf: "''geometry'' \<in> set (columns gdf)"
    by (simp add: reads_wf_def frame_wf_def)
  show ?thesis
  proof (cases "fcrs gdf")
    case None
    with Inr assms(2) show ?thesis using process_archive_frame_no_crs by fastforce
  next
    case (Some c)
    with Inr wf assms(2) show ?thesis using process_archive_frame_crs by fastforce
  qed
qed

lemma process_archive_frame_Inl:
  assumes "reads_wf be (source_path d)"
  shows "process_archive_frame be d = Inl e \<longleftrightarrow> archive_spec be d = Inl e"
proof (cases "read_file be (source_path d)")
  case (Inl e')
  then show ?thesis using process_archive_frame_no_read by fastforce
next
  case (Inr gdf)
  with assms have wf: "''geometry'' \<in> set (columns gdf)"
    by (simp add: reads_wf_def frame_wf_def)
  show ?thesis
  proof (cases "fcrs gdf")
    case None
    with Inr show ?thesis using process_archive_frame_no_crs by fastforce
  next
    case (Some c)
    with Inr wf show ?thesis using process_archive_frame_crs by fastforce
  qed
qed

text \<open>
  C2. The chain of one archive implements its specification: the same exception, or rows
  whose year, month, season and geometry are the specified records, under the four
  output columns and in EPSG:4326. The only assumption is that a frame read from the
  archive has its geometry column, as \<open>gpd.read_file\<close> guarantees.
\<close>

theorem process_archive_frame_refines:
  assumes "reads_wf be (source_path d)"
  shows "map_sum id (\<lambda>f. (map out_view (rows f), columns f, fcrs f)) (process_archive_frame be d) =
         map_sum id (\<lambda>rs. (map spec_view rs, OUTPUT_COLUMNS, Some TARGET_CRS)) (archive_spec be d)"
proof (cases "process_archive_frame be d")
  case (Inl e)
  then have "archive_spec be d = Inl e" using process_archive_frame_Inl [OF assms] by simp
  with Inl show ?thesis by simp
next
  case (Inr f)
  with process_archive_frame_Inr [OF assms Inr] show ?thesis by auto
qed

section \<open>The loop as a fold\<close>

definition archive_frames :: "'g geo_backend \<Rightarrow> string list \<Rightarrow> 'g frame list" where
  "archive_frames be ps =
     concat (map (\<lambda>p. case snd (process_archive be p) of Inl _ \<Rightarrow> [] | Inr f \<Rightarrow> [f]) ps)"

lemma process_loop_fold:
  "log (process_loop be ps st) = log st @ concat (map (\<lambda>p. fst (process_archive be p)) ps) \<and>
   all_features (process_loop be ps st) = all_features st @ archive_frames be ps"
proof (induction ps arbitrary: st)
  case Nil
  then show ?case by (simp add: archive_frames_def)
next
  case (Cons p ps)
  then show ?case
    by (cases "process_archive be p") (auto simp: batch_step_def archive_frames_def split: sum.split)
qed

text \<open>The records of the whole batch, as the specification describes them.\<close>

definition batch_spec :: "'g geo_backend \<Rightarrow> string list \<Rightarrow> 'g out_record list" where
  "batch_spec be ps =
     concat (map (\<lambda>p. case parse_descriptor p of
                         Inl _ \<Rightarrow> []
                       | Inr d \<Rightarrow> (case archive_spec be d of Inl _ \<Rightarrow> [] | Inr rs \<Rightarrow> rs)) ps)"

lemma archive_frames_simps [simp]:
  "archive_frames be [] = []"
  "archive_frames be (p # ps) =
     (case snd (process_archive be p) of Inl _ \<Rightarrow> [] | Inr f \<Rightarrow> [f]) @ archive_frames be ps"
  by (simp_all add: archive_frames_def)

lemma batch_spec_simps [simp]:
  "batch_spec be [] = []"
  "batch_spec be (p # ps) =
     (case parse_descriptor p of
        Inl _ \<Rightarrow> []
      | Inr d \<Rightarrow> (case archive_spec be d of Inl _ \<Rightarrow> [] | Inr rs \<Rightarrow> rs)) @ batch_spec be ps"
  by (simp_all add: batch_spec_def)

lemma archive_frames_views:
  assumes "\<forall>p \<in> set ps. reads_wf be p"
  shows "map out_view (concat (map rows (archive_frames be ps))) = map spec_view (batch_spec be ps)
    \<and> (\<forall>f \<in> set (archive_frames be ps). columns f = OUTPUT_COLUMNS \<and> fcrs f = Some TARGET_CRS)"
  using assms
proof (induction ps)
  case Nil
  then show ?case by simp
next
  case (Cons p ps)
  then have IH: "map out_view (concat (map rows (archive_frames be ps))) = map spec_view (batch_spec be ps)"
      "\<forall>f \<in> set (archive_frames be ps). columns f = OUTPUT_COLUMNS \<and> fcrs f = Some TARGET_CRS"
    by simp_all
  show ?case
  proof (cases "parse_descriptor p")
    case (Inl e)
    with IH show ?thesis by (simp add: process_archive_def)
  next
    case (Inr d)
    with Cons.prems have wf: "reads_wf be (source_path d)" by simp
    show ?thesis
    proof (cases "process_archive_frame be d")
      case (Inl e)
      moreover from Inl have "archive_spec be d = Inl e"
        using process_archive_frame_Inl [OF wf] by simp
      ultimately show ?thesis
        using \<open>parse_descriptor p = Inr d\<close> IH by (simp add: process_archive_def)
    next
      case (Inr f)
      with \<open>parse_descriptor p = Inr d\<close> IH wf show ?thesis
        using process_archive_frame_Inr [OF wf Inr]
        by (auto simp: process_archive_def)
    qed
  qed
qed

section \<open>The run\<close>

definition view_feature :: "cell option \<times> cell option \<times> cell option \<times> 'g \<Rightarrow> 'g feature" where
  "view_feature v = (case v of (a, b, c, g) \<Rightarrow>
     \<lparr>properties = [(''year'', a), (''month'', b), (''season'', c)], fgeom = g\<rparr>)"

definition spec_feature :: "'g out_record \<Rightarrow> 'g feature" where
  "spec_feature x = view_feature (spec_view x)"

lemma output_paths:
  "INPUT_DIR = ''data/sea_ice/raw''"
  "OUTPUT_FILE = ''public/data/sea_ice_history.json''"
  "dirname OUTPUT_FILE = ''public/data''"
  "dir_prefixes ''public/data'' = [''public'', ''public/data'']"
  by (simp_all add: INPUT_DIR_def OUTPUT_FILE_def path_join_def dirname_def dir_prefixes_def)

lemmas output_dir = output_paths(3,4)

lemma makedirs_output:
  "makedirs (dirname OUTPUT_FILE) fs = mkdir_all [''public'', ''public/data''] fs"
  by (simp add: makedirs_def output_dir del: mkdir_all.simps)

definition merged :: "'g frame list \<Rightarrow> 'g frame" where
  "merged feats = \<lparr>fcrs = Some TARGET_CRS, columns = OUTPUT_COLUMNS,
                    rows = renumber (concat (map rows feats))\<rparr>"

lemma concat_frames_merged:
  assumes "feats \<noteq> []" and "\<forall>f \<in> set feats. columns f = OUTPUT_COLUMNS \<and> fcrs f = Some TARGET_CRS"
  shows "concat_frames feats = Inr (merged feats)"
proof -
  have "union_columns feats = OUTPUT_COLUMNS"
    using assms by (intro union_columns_same) (auto simp: OUTPUT_COLUMNS_def)
  then show ?thesis
    using assms concat_frames_Inr [of feats "Some TARGET_CRS"] by (simp add: merged_def)
qed

lemma merged_features:
  "map (feature_of (merged feats)) (rows (merged feats)) =
   map (\<lambda>r. view_feature (out_view r)) (concat (map rows feats))"
proof -
  have "\<not> index_written (merged feats)"
    using index_written_renumber [where f = "merged feats" and rs = "concat (map rows feats)"]
    by (simp add: merged_def)
  then have "map (feature_of (merged feats)) (rows (merged feats)) =
             map (\<lambda>r. view_feature (out_view r)) (renumber (concat (map rows feats)))"
    by (simp add: feature_of_def merged_def view_feature_def out_view_def OUTPUT_COLUMNS_def)
  also have "\<dots> = map (\<lambda>r. view_feature (out_view r)) (concat (map rows feats))"
    by (rule renumber_ignores_index) (simp add: out_view_def)
  finally show ?thesis .
qed

lemma save_output_written:
  assumes "feats \<noteq> []" and "\<forall>f \<in> set feats. columns f = OUTPUT_COLUMNS \<and> fcrs f = Some TARGET_CRS"
    and "save_output feats fs = (ms, Written, fs')"
  shows "fs_files fs' OUTPUT_FILE =
           Some (GeoJSON (map (\<lambda>r. view_feature (out_view r)) (concat (map rows feats))))"
  using assms(3) concat_frames_merged [OF assms(1,2)] merged_features [of feats]
  by (auto simp: save_output_def to_file_def parent_ok_def split: prod.splits sum.splits if_splits)

lemma process_files_cases:
  "process_files be listing fs =
     (let zip_files = glob_zip INPUT_DIR listing;
          feats = archive_frames be zip_files;
          lg = Msg_Processing # concat (map (\<lambda>p. fst (process_archive be p)) zip_files)
      in if zip_files = [] then ([Msg_Processing, Msg_No_Zip_Files], No_Zip_Files, fs)
         else if feats = [] then (lg @ [Msg_No_Features], No_Features, fs)
         else (case save_output feats fs of (ms, oc, fs') \<Rightarrow> (lg @ ms, oc, fs')))"
  using process_loop_fold [of be "glob_zip INPUT_DIR listing" "\<lparr>log = [Msg_Processing], all_features = []\<rparr>"]
  by (simp add: process_files_def Let_def)

declare config_defs [model_simps] to_metric_def [model_simps] noise_filter_def [model_simps]
  tag_metadata_def [model_simps] process_archive_frame_def [model_simps]
  process_archive_def [model_simps] batch_step_def [model_simps] save_output_def [model_simps]
  process_files_def [model_simps] archive_spec_def [model_simps] batch_spec_def [model_simps]
  metric_crs_of_def [model_simps] to_metric_geom_def [model_simps] spec_feature_def [model_simps]
  spec_view_def [model_simps] view_feature_def [model_simps]

lemma save_output_idem:
  "snd (snd (save_output feats (snd (snd (save_output feats fs))))) = snd (snd (save_output feats fs))"
proof (cases "concat_frames feats")
  case (Inl e)
  then show ?thesis by (simp add: save_output_def)
next
  case (Inr final)
  obtain fs1 r where md: "makedirs (dirname OUTPUT_FILE) fs = (fs1, r)" by fastforce
  have md2: "makedirs (dirname OUTPUT_FILE) fs1 = (fs1, r)"
    using makedirs_twice [of "dirname OUTPUT_FILE" fs] md by simp
  show ?thesis
  proof (cases r)
    case (Inl e)
    with Inr md md2 show ?thesis by (simp add: save_output_def)
  next
    case (Inr u)
    note ok = Inr
    show ?thesis
    proof (cases "to_file OUTPUT_FILE final fs1")
      case (Inl e)
      with Inr ok md md2 \<open>concat_frames feats = Inr final\<close> show ?thesis
        by (simp add: save_output_def)
    next
      case (Inr fs2)
      have "set (dir_prefixes (dirname OUTPUT_FILE)) \<subseteq> fs_dirs fs1"
        using mkdir_all_Inr [of "dir_prefixes (dirname OUTPUT_FILE)" fs] md ok
        by (simp add: makedirs_def output_dir)
      moreover have "fs_dirs fs2 = fs_dirs fs1" using to_file_Inr [OF Inr] by simp
      ultimately have "makedirs (dirname OUTPUT_FILE) fs2 = (fs2, Inr ())"
        by (simp add: makedirs_def output_dir mkdir_all_present)
      with Inr ok md \<open>concat_frames feats = Inr final\<close> to_file_twice [OF Inr] show ?thesis
        by (simp add: save_output_def)
    qed
  qed
qed

lemma archive_frames_append [simp]:
  "archive_frames be (xs @ ys) = archive_frames be xs @ archive_frames be ys"
  by (simp add: archive_frames_def)

lemma glob_zip_append [simp]: "glob_zip d (xs @ ys) = glob_zip d xs @ glob_zip d ys"
  by (simp add: glob_zip_def)

lemma process_archive_error_logged:
  "snd (process_archive be p) = Inl e \<Longrightarrow> Msg_Error p e \<in> set (fst (process_archive be p))"
  by (auto simp: process_archive_def split: sum.splits)

lemma process_files_fs:
  "snd (snd (process_files be listing fs)) =
     (if glob_zip INPUT_DIR listing = [] \<or> archive_frames be (glob_zip INPUT_DIR listing) = [] then fs
      else snd (snd (save_output (archive_frames be (glob_zip INPUT_DIR listing)) fs)))"
  by (simp add: process_files_cases Let_def split: prod.split)

lemma archive_frames_Nil [simp]: "archive_frames be [] = []"
  by (simp add: archive_frames_def)

lemma save_output_written_iff:
  assumes "feats \<noteq> []" and "\<forall>f \<in> set feats. columns f = OUTPUT_COLUMNS \<and> fcrs f = Some TARGET_CRS"
    and "\<forall>q \<in> set [''public'', ''public/data'']. fs_files fs q = None"
    and "OUTPUT_FILE \<notin> fs_dirs fs"
  shows "fst (snd (save_output feats fs)) = Written"
proof -
  have md: "snd (makedirs (dirname OUTPUT_FILE) fs) = Inr ()"
    using assms(3) by (simp add: makedirs_def output_dir mkdir_all_succeeds)
  let ?fs1 = "fst (makedirs (dirname OUTPUT_FILE) fs)"
  have "''public/data'' \<in> fs_dirs ?fs1"
    using mkdir_all_Inr [of "[''public'', ''public/data'']" fs] md by (simp add: makedirs_def output_dir)
  moreover have "OUTPUT_FILE \<notin> fs_dirs ?fs1"
  proof -
    have "fs_dirs ?fs1 \<subseteq> fs_dirs fs \<union> {''public'', ''public/data''}"
      using mkdir_all_dirs_new [of "[''public'', ''public/data'']" fs] by (simp only: makedirs_output) simp
    moreover have "OUTPUT_FILE \<notin> {''public'', ''public/data''}" by (simp add: output_paths(2))
    ultimately show ?thesis using assms(4) by blast
  qed
  ultimately have "\<exists>fs2. to_file OUTPUT_FILE (merged feats) ?fs1 = Inr fs2"
    by (simp add: to_file_def parent_ok_def output_dir)
  then show ?thesis
    using concat_frames_merged [OF assms(1,2)] md
    by (auto simp: save_output_def split: prod.splits sum.splits)
qed

section \<open>Properties of the run\<close>

lemma written_output:
  assumes wf: "\<forall>p \<in> set (glob_zip INPUT_DIR listing). reads_wf be p"
    and run: "process_files be listing fs = (ms, Written, fs')"
  shows "fs_files fs' OUTPUT_FILE =
           Some (GeoJSON (map spec_feature (batch_spec be (glob_zip INPUT_DIR listing))))"
proof -
  let ?zs = "glob_zip INPUT_DIR listing"
  let ?feats = "archive_frames be ?zs"
  from run have ne: "?zs \<noteq> []" "?feats \<noteq> []"
    and saved: "\<exists>ms'. save_output ?feats fs = (ms', Written, fs')"
    by (auto simp: process_files_cases Let_def split: if_splits prod.splits)
  have views: "map out_view (concat (map rows ?feats)) = map spec_view (batch_spec be ?zs)"
    and inv: "\<forall>f \<in> set ?feats. columns f = OUTPUT_COLUMNS \<and> fcrs f = Some TARGET_CRS"
    using archive_frames_views [OF wf] by simp_all
  from saved obtain ms' where "save_output ?feats fs = (ms', Written, fs')" by blast
  with ne inv have "fs_files fs' OUTPUT_FILE =
      Some (GeoJSON (map view_feature (map out_view (concat (map rows ?feats)))))"
    by (simp add: save_output_written comp_def)
  with views show ?thesis by (simp add: spec_feature_def comp_def)
qed

text \<open>
  C1. When the run ends by writing its output, the GeoJSON file at \<open>OUTPUT_FILE\<close> holds
  exactly the features the specification describes: for every archive found by the
  glob, in discovery order, that parses and loads, one feature per polygon part that
  survives the area filter, with properties year, month and season and the simplified
  geometry in EPSG:4326.
\<close>

theorem process_files_output:
  assumes wf: "\<forall>p \<in> set (glob_zip INPUT_DIR listing). reads_wf be p"
    and run: "process_files be listing fs = (ms, Written, fs')"
  shows "fs_files fs' OUTPUT_FILE =
           Some (GeoJSON (map spec_feature (batch_spec be (glob_zip INPUT_DIR listing))))"
  using written_output [OF wf run] .

text \<open>
  C3. The area threshold is applied before simplification: every row an archive
  contributes is the simplified, reprojected image of a polygon part of that archive
  whose area in the metric CRS exceeds \<open>min_area_m2\<close>.
\<close>

theorem archive_rows_above_threshold:
  assumes wf: "reads_wf be (source_path d)"
    and ok: "process_archive_frame be d = Inr f"
    and r: "r \<in> set (rows f)"
  shows "\<exists>gdf c g0. read_file be (source_path d) = Inr gdf \<and> fcrs gdf = Some c \<and>
           g0 \<in> set (concat (map (\<lambda>r. geom_parts be (to_metric_geom be c (geom r))) (rows gdf))) \<and>
           real_of_int min_area_m2 < geom_area be g0 \<and>
           geom r = transform be (metric_crs_of be c) TARGET_CRS (geom_simplify be SIMPLIFY_TOLERANCE g0)"
proof -
  obtain rs where spec: "archive_spec be d = Inr rs" and views: "map out_view (rows f) = map spec_view rs"
    using process_archive_frame_Inr [OF wf ok] by blast
  from r have "out_view r \<in> set (map spec_view rs)"
    by (simp add: views [symmetric])
  then obtain x where x: "x \<in> set rs" and xv: "out_view r = spec_view x" by auto
  from xv have gx: "geom r = snd (snd (snd x))"
    by (cases x rule: prod_cases4) (simp add: out_view_def spec_view_def)
  from spec obtain gdf c where "read_file be (source_path d) = Inr gdf" and "fcrs gdf = Some c"
    and "rs = map (\<lambda>g. (year d, month d, season_of (month d),
                        transform be (metric_crs_of be c) TARGET_CRS (geom_simplify be SIMPLIFY_TOLERANCE g)))
           (filter (\<lambda>g. real_of_int min_area_m2 < geom_area be g)
              (concat (map (\<lambda>r. geom_parts be (to_metric_geom be c (geom r))) (rows gdf))))"
    by (auto simp: archive_spec_def sbind_eq_Inr_conv split: option.splits)
  with x gx show ?thesis by auto
qed

text \<open>
  C4. An input directory without \<open>.zip\<close> archives ends the run at once: it prints
  that no zip files were found, writes nothing and leaves the file system unchanged.
\<close>

theorem process_files_no_zip:
  assumes "glob_zip INPUT_DIR listing = []"
  shows "process_files be listing fs = ([Msg_Processing, Msg_No_Zip_Files], No_Zip_Files, fs)"
  using assms by (simp add: process_files_def)

text \<open>
  C5. If archives are found but none of them is processed without an exception, the run
  prints \<open>No features extracted.\<close> and writes nothing: the file system is unchanged.
\<close>

theorem process_files_no_features:
  assumes "glob_zip INPUT_DIR listing \<noteq> []"
    and "\<forall>p \<in> set (glob_zip INPUT_DIR listing). \<not> is_Inr (snd (process_archive be p))"
  shows "fst (snd (process_files be listing fs)) = No_Features \<and> snd (snd (process_files be listing fs)) = fs
         \<and> last (fst (process_files be listing fs)) = Msg_No_Features"
proof -
  have "archive_frames be (glob_zip INPUT_DIR listing) = []"
    using assms(2) by (simp add: archive_frames_def is_Inr_def split: sum.splits)
  with assms(1) show ?thesis by (simp add: process_files_cases Let_def)
qed

text \<open>
  C13. The run writes its output whenever at least one archive goes through the chain
  and the output path is free: no file where the directories \<open>public\<close> and
  \<open>public/data\<close> go, no directory at \<open>OUTPUT_FILE\<close>. Merging never fails, since all
  frames are in EPSG:4326 with the same columns.
\<close>

theorem process_files_writes:
  assumes wf: "\<forall>p \<in> set (glob_zip INPUT_DIR listing). reads_wf be p"
    and ok: "\<exists>p \<in> set (glob_zip INPUT_DIR listing). is_Inr (snd (process_archive be p))"
    and free: "\<forall>q \<in> set [''public'', ''public/data'']. fs_files fs q = None"
    and nodir: "OUTPUT_FILE \<notin> fs_dirs fs"
  shows "fst (snd (process_files be listing fs)) = Written"
proof -
  let ?zs = "glob_zip INPUT_DIR listing"
  have ne: "?zs \<noteq> []" using ok by auto
  have feats: "archive_frames be ?zs \<noteq> []"
    using ok by (auto simp: archive_frames_def is_Inr_def split: sum.splits)
  have inv: "\<forall>f \<in> set (archive_frames be ?zs). columns f = OUTPUT_COLUMNS \<and> fcrs f = Some TARGET_CRS"
    using archive_frames_views [OF wf] by simp
  obtain ms oc fs' where so: "save_output (archive_frames be ?zs) fs = (ms, oc, fs')"
    by (cases "save_output (archive_frames be ?zs) fs") auto
  have "oc = Written"
    using save_output_written_iff [OF feats inv free nodir] so by simp
  with ne feats so show ?thesis
    by (simp add: process_files_cases Let_def)
qed

text \<open>
  C14. A file where the directory \<open>public\<close> should be makes \<open>os.makedirs\<close> raise; the
  exception is not caught, the run ends with it, and no file is written or changed.
\<close>

theorem process_files_fatal_blocked:
  assumes ok: "\<exists>p \<in> set (glob_zip INPUT_DIR listing). is_Inr (snd (process_archive be p))"
    and wf: "\<forall>p \<in> set (glob_zip INPUT_DIR listing). reads_wf be p"
    and blocked: "fs_files fs ''public'' \<noteq> None" "''public'' \<notin> fs_dirs fs"
  shows "fst (snd (process_files be listing fs)) = Fatal (OSError ''public'') \<and>
         fs_files (snd (snd (process_files be listing fs))) = fs_files fs"
proof -
  let ?zs = "glob_zip INPUT_DIR listing"
  have ne: "?zs \<noteq> []" using ok by auto
  have feats: "archive_frames be ?zs \<noteq> []"
    using ok by (auto simp: archive_frames_def is_Inr_def split: sum.splits)
  have inv: "\<forall>f \<in> set (archive_frames be ?zs). columns f = OUTPUT_COLUMNS \<and> fcrs f = Some TARGET_CRS"
    using archive_frames_views [OF wf] by simp
  have "makedirs (dirname OUTPUT_FILE) fs = (fs, Inl (OSError ''public''))"
    using blocked by (simp add: makedirs_def output_dir)
  with ne feats concat_frames_merged [OF feats inv] show ?thesis
    by (simp add: process_files_cases Let_def save_output_def)
qed

text \<open>
  C15. An archive that fails anywhere in its chain (a malformed name, an unreadable
  archive, a missing CRS, ...) has no effect on what the run leaves on disk: the file
  system after the run is the one the run without that archive leaves.
\<close>

theorem failed_archive_isolated:
  assumes "\<not> is_Inr (snd (process_archive be (path_join INPUT_DIR n)))"
  shows "snd (snd (process_files be (l1 @ n # l2) fs)) = snd (snd (process_files be (l1 @ l2) fs))"
proof -
  have "archive_frames be (glob_zip INPUT_DIR (n # l2)) = archive_frames be (glob_zip INPUT_DIR l2)"
    using assms by (auto simp: glob_zip_def archive_frames_def is_Inr_def split: sum.splits)
  then have feats: "archive_frames be (glob_zip INPUT_DIR (l1 @ n # l2)) =
                    archive_frames be (glob_zip INPUT_DIR (l1 @ l2))"
    by simp
  then show ?thesis
    by (auto simp: process_files_fs)
qed

text \<open>
  C16. Every archive that raises is reported: the printed log of the run contains
  \<open>Error processing\<close> with that archive's path and exception.
\<close>

theorem process_files_logs_errors:
  assumes "p \<in> set (glob_zip INPUT_DIR listing)" and "snd (process_archive be p) = Inl e"
  shows "Msg_Error p e \<in> set (fst (process_files be listing fs))"
proof -
  have "Msg_Error p e \<in> set (concat (map (\<lambda>p. fst (process_archive be p)) (glob_zip INPUT_DIR listing)))"
    using assms process_archive_error_logged [OF assms(2)] by auto
  with assms(1) show ?thesis
    by (auto simp: process_files_cases Let_def split: prod.splits)
qed



text \<open>
  C28. The written file has the schema of the specification (section 6): every feature
  carries exactly the properties year and month, integers, and season, one of the
  strings winter and summer, in this order; the index of the merged frame is not
  written.
\<close>

theorem output_feature_schema:
  assumes wf: "\<forall>p \<in> set (glob_zip INPUT_DIR listing). reads_wf be p"
    and run: "process_files be listing fs = (ms, Written, fs')"
  shows "\<exists>feats. fs_files fs' OUTPUT_FILE = Some (GeoJSON feats) \<and>
           (\<forall>f \<in> set feats. \<exists>y m s. s \<in> {''winter'', ''summer''} \<and>
              properties f = [(''year'', Some (VInt y)), (''month'', Some (VInt m)), (''season'', Some (VStr s))])"
proof -
  have "\<exists>y m s. s \<in> {''winter'', ''summer''} \<and>
          properties (spec_feature x) = [(''year'', Some (VInt y)), (''month'', Some (VInt m)), (''season'', Some (VStr s))]"
    for x :: "'a out_record"
  proof (cases x rule: prod_cases4)
    case (fields y m s g)
    then show ?thesis
      by (cases s) (auto simp: spec_feature_def spec_view_def view_feature_def)
  qed
  then show ?thesis using written_output [OF wf run] by auto
qed

end
