(* ===== verification/Test_Backend.thy ===== *)
theory Test_Backend
  imports Pipeline
begin

text \<open>
  A concrete instance of the geometry interface \<open>geo_backend\<close>, used to evaluate the
  theorems on concrete archives. Geometries are planar polygons (one ring of integer
  vertices) and multi-polygons; the area is the shoelace formula, as shapely computes a
  planar area; a multi-polygon explodes into its polygons, as
  \<open>shapely.get_parts\<close> does. Reprojection and simplification are the identity here:
  the scenarios below are stated in the projected CRS of the archives (EPSG:3411, the
  NSIDC polar stereographic grid, which is not geographic), so no reprojection to the
  metric CRS happens, and the test polygons are rectangles, which simplification keeps.
  The archives are a table from paths to frames; a path not in the table cannot be read.
\<close>

datatype cgeom = Poly "(int \<times> int) list" | Multi "(int \<times> int) list list"

definition shoelace :: "(int \<times> int) list \<Rightarrow> int" where
  "shoelace ps = sum_list (map (\<lambda>((x1, y1), (x2, y2)). x1 * y2 - x2 * y1) (zip ps (tl ps @ take 1 ps)))"

definition ring_area :: "(int \<times> int) list \<Rightarrow> real" where
  "ring_area ps = real_of_int \<bar>shoelace ps\<bar> / 2"

fun carea :: "cgeom \<Rightarrow> real" where
  "carea (Poly r) = ring_area r"
| "carea (Multi rs) = sum_list (map ring_area rs)"

fun cparts :: "cgeom \<Rightarrow> cgeom list" where
  "cparts (Poly r) = [Poly r]"
| "cparts (Multi rs) = map Poly rs"

definition rect :: "int \<Rightarrow> int \<Rightarrow> int \<Rightarrow> int \<Rightarrow> (int \<times> int) list" where
  "rect x y w h = [(x, y), (x + w, y), (x + w, y + h), (x, y + h)]"

definition table_read :: "(string \<times> cgeom frame) list \<Rightarrow> string \<Rightarrow> cgeom frame result" where
  "table_read tbl p = (case map_of tbl p of None \<Rightarrow> Inl (ReadError p) | Some f \<Rightarrow> Inr f)"

definition test_backend :: "(string \<times> cgeom frame) list \<Rightarrow> cgeom geo_backend" where
  "test_backend tbl =
     \<lparr>read_file = table_read tbl,
      crs_is_geographic = (\<lambda>c. c = EPSG 4326),
      transform = (\<lambda>src dst g. g),
      geom_parts = cparts,
      geom_area = carea,
      geom_simplify = (\<lambda>tol g. g)\<rparr>"

text \<open>A shapefile as \<open>gpd.read_file\<close> returns it: one attribute column and the geometry.\<close>

definition shapefile :: "cgeom list \<Rightarrow> cgeom frame" where
  "shapefile gs =
     \<lparr>fcrs = Some (EPSG 3411), columns = [''FID'', ''geometry''],
      rows = map (\<lambda>(i, g). \<lparr>ridx = [i], geom = g, attrs = [''FID'' \<mapsto> VInt (int i)]\<rparr>) (enumerate 0 gs)\<rparr>"

lemma rect_area [simp]: "ring_area (rect x y w h) = real_of_int \<bar>w * h\<bar>"
  by (simp add: ring_area_def shoelace_def rect_def algebra_simps)

section \<open>A Douglas-Peucker simplifier\<close>

text \<open>
  The simplifier of shapely (GEOS) keeps the end points of a line, finds the vertex
  farthest from the chord between them, and either drops every inner vertex (all within
  the tolerance) or splits there and recurses. Distances are compared exactly on
  integers: for the chord from \<open>a\<close> to \<open>b\<close> the squared distance of \<open>p\<close> is
  \<open>cross^2 / len^2\<close>, so \<open>p\<close> is farther than \<open>tol\<close> iff \<open>cross^2 > tol^2 * len^2\<close>;
  a degenerate chord (a closed ring) measures the distance to \<open>a\<close>. A ring is
  simplified as the closed line through its vertices; a result of fewer than three
  vertices is degenerate and the ring is kept, as the specification's fallback asks.
\<close>

definition chord_key :: "int \<times> int \<Rightarrow> int \<times> int \<Rightarrow> int \<times> int \<Rightarrow> int" where
  "chord_key a b p =
     (let (ax, ay) = a; (bx, by) = b; (px, py) = p in
      if a = b then (px - ax) * (px - ax) + (py - ay) * (py - ay)
      else ((bx - ax) * (py - ay) - (by - ay) * (px - ax)) * ((bx - ax) * (py - ay) - (by - ay) * (px - ax)))"

definition chord_bound :: "int \<Rightarrow> int \<times> int \<Rightarrow> int \<times> int \<Rightarrow> int" where
  "chord_bound tol a b =
     (let (ax, ay) = a; (bx, by) = b in
      tol * tol * (if a = b then 1 else (bx - ax) * (bx - ax) + (by - ay) * (by - ay)))"

text \<open>Index and value of the first maximum of a non-empty list.\<close>

fun amax :: "int list \<Rightarrow> nat \<times> int" where
  "amax [] = (0, 0)"
| "amax [x] = (0, x)"
| "amax (x # xs) = (let (i, v) = amax xs in if v \<le> x then (0, x) else (Suc i, v))"

lemma amax_less: "xs \<noteq> [] \<Longrightarrow> fst (amax xs) < length xs"
  by (induction xs rule: amax.induct) (auto split: prod.split)

lemma amax_inner:
  assumes "\<not> length ps \<le> 2" and "(i, v) = amax (map f (butlast (tl ps)))"
  shows "i < length ps - 2"
proof -
  have "butlast (tl ps) \<noteq> []" using assms(1) by (cases ps) (auto simp flip: length_0_conv)
  moreover have "i = fst (amax (map f (butlast (tl ps))))" using assms(2) by (metis fst_conv)
  ultimately show ?thesis using amax_less [of "map f (butlast (tl ps))"] by simp
qed

function dp :: "int \<Rightarrow> (int \<times> int) list \<Rightarrow> (int \<times> int) list" where
  "dp tol ps =
     (if length ps \<le> 2 then ps
      else (let a = hd ps; b = last ps; (i, v) = amax (map (chord_key a b) (butlast (tl ps)))
            in if chord_bound tol a b < v then dp tol (take (Suc (Suc i)) ps) @ tl (dp tol (drop (Suc i) ps))
               else [a, b]))"
  by pat_completeness auto
termination
  by (relation "measure (\<lambda>(tol, ps). length ps)") (auto dest: amax_inner)

declare dp.simps [simp del]

definition simplify_ring :: "int \<Rightarrow> (int \<times> int) list \<Rightarrow> (int \<times> int) list" where
  "simplify_ring tol r =
     (let r' = butlast (dp tol (r @ take 1 r)) in if length r' < 3 then r else r')"

fun csimplify :: "int \<Rightarrow> cgeom \<Rightarrow> cgeom" where
  "csimplify tol (Poly r) = Poly (simplify_ring tol r)"
| "csimplify tol (Multi rs) = Multi (map (simplify_ring tol) rs)"

definition dp_backend :: "(string \<times> cgeom frame) list \<Rightarrow> cgeom geo_backend" where
  "dp_backend tbl = (test_backend tbl)\<lparr>geom_simplify := (\<lambda>tol g. csimplify (floor tol) g)\<rparr>"

section \<open>The scenario of the specification\<close>

text \<open>
  Two archives: March 2023 with two disjoint polygons of 5,000 and 1,000 square
  kilometres (one multi-polygon feature), September 2023 with one polygon of 3,000.
\<close>

definition scn_march :: string where
  "scn_march = ''extent_N_202303_polygon_v4.0.zip''"

definition scn_september :: string where
  "scn_september = ''extent_N_202309_polygon_v4.0.zip''"

definition scn_backend :: "cgeom geo_backend" where
  "scn_backend = test_backend
     [(''data/sea_ice/raw/extent_N_202303_polygon_v4.0.zip'',
        shapefile [Multi [rect 0 0 100000 50000, rect 200000 0 50000 20000]]),
      (''data/sea_ice/raw/extent_N_202309_polygon_v4.0.zip'',
        shapefile [Poly (rect 0 0 60000 50000)])]"

definition empty_fs :: "cgeom fs" where
  "empty_fs = \<lparr>fs_dirs = {}, fs_files = Map.empty\<rparr>"

lemmas test_eval = test_backend_def table_read_def shapefile_def scn_backend_def
  scn_march_def scn_september_def empty_fs_def

end
