(* ===== verification/Download.thy ===== *)
theory Download
  imports File_System Descriptor
begin

text \<open>
  \<open>src/scripts/download_sea_ice.py\<close>: for every year from 1979 to the current one and
  for March and September, build the archive's file name and URL and fetch it into
  \<open>OUTPUT_DIR\<close> unless a path of that name exists. The network is a function from URLs
  to responses: a status, the chunks the body streams, and whether the stream breaks
  after them; a connection failure is \<open>ConnError\<close>. A download writes into the file
  system state of \<open>File_System\<close>; \<open>download_file\<close> catches every exception (line 40)
  and reports \<open>False\<close>, \<open>ensure_dir\<close> does not. The \<open>time.sleep\<close> of line 35 has
  no effect on the state and is not modelled; the printed lines are the datatype
  \<open>dmsg\<close>.
\<close>

section \<open>Configuration and names\<close>

definition BASE_URL :: string where
  "BASE_URL = ''https://noaadata.apps.nsidc.org/NOAA/G02135/north/monthly/shapefiles/shp_extent''"

definition OUTPUT_DIR :: string where
  "OUTPUT_DIR = path_join (path_join ''data'' ''sea_ice'') ''raw''"

definition YEAR_START :: int where
  "YEAR_START = 1979"

record month_entry =
  num :: string
  mname :: string

definition MONTHS :: "month_entry list" where
  "MONTHS = [\<lparr>num = ''03'', mname = ''Mar''\<rparr>, \<lparr>num = ''09'', mname = ''Sep''\<rparr>]"

text \<open>Lines 55--56 and 65--66: \<open>f"extent_N_{year}{month_num}_polygon_v4.0.zip"\<close> and its URL.\<close>

definition archive_filename :: "int \<Rightarrow> string \<Rightarrow> string \<Rightarrow> string" where
  "archive_filename y mnum ver = ''extent_N_'' @ py_str_int y @ mnum @ ''_polygon_v'' @ ver @ ''.zip''"

definition archive_url :: "int \<Rightarrow> month_entry \<Rightarrow> string \<Rightarrow> string" where
  "archive_url y m ver =
     BASE_URL @ ''/'' @ num m @ ''_'' @ mname m @ ''/'' @ archive_filename y (num m) ver"

section \<open>Downloading one file\<close>

datatype http = Http nat "string list" bool | ConnError

datatype dmsg =
    D_Skipping string
  | D_Downloading string
  | D_Done
  | D_Failed nat
  | D_Error string
  | D_Might_Try string

text \<open>
  Lines 22--42. An existing path (file or directory) counts as downloaded. With status
  200 the file is opened for writing (which fails if its directory is missing) and the
  chunks are written as they arrive; a stream that breaks raises inside the \<open>with\<close>
  block, after the file was created, and the exception is caught: the partial file stays.
\<close>

definition download_file :: "(string \<Rightarrow> http) \<Rightarrow> string \<Rightarrow> string \<Rightarrow> 'g fs \<Rightarrow> dmsg list \<times> bool \<times> 'g fs" where
  "download_file net url filepath fs =
     (if path_exists fs filepath then ([D_Skipping filepath], True, fs)
      else (case net url of
              ConnError \<Rightarrow> ([D_Downloading url, D_Error url], False, fs)
            | Http status chunks broken \<Rightarrow>
                (if status = 200 then
                   (if \<not> parent_ok fs filepath
                    then ([D_Downloading url, D_Error url], False, fs)
                    else
                      (let fs' = fs\<lparr>fs_files := (fs_files fs)(filepath \<mapsto> Blob (concat chunks))\<rparr>
                       in if broken then ([D_Downloading url, D_Error url], False, fs')
                          else ([D_Downloading url, D_Done], True, fs')))
                 else ([D_Downloading url, D_Failed status], False, fs))))"

text \<open>
  Lines 18--20: \<open>os.makedirs(directory)\<close> runs only when nothing exists at the path;
  its exception is not caught.
\<close>

definition ensure_dir :: "string \<Rightarrow> 'g fs \<Rightarrow> 'g fs \<times> unit result" where
  "ensure_dir d fs = (if path_exists fs d then (fs, Inr ()) else makedirs d fs)"

section \<open>The loops of \<open>main\<close>\<close>

text \<open>Lines 51--68, the body for one year and one month: the v4.0 download, and on failure
  the printed hint for the v3.0 URL.\<close>

definition fetch_one :: "(string \<Rightarrow> http) \<Rightarrow> int \<Rightarrow> month_entry \<Rightarrow> 'g fs \<Rightarrow> dmsg list \<times> 'g fs" where
  "fetch_one net y m fs =
     (let filepath = path_join OUTPUT_DIR (archive_filename y (num m) ''4.0'') in
      case download_file net (archive_url y m ''4.0'') filepath fs of
        (ms, True, fs') \<Rightarrow> (ms, fs')
      | (ms, False, fs') \<Rightarrow> (ms @ [D_Might_Try (archive_url y m ''3.0'')], fs'))"

text \<open>Lines 47--48: years in the outer loop, the two months in the inner one.\<close>

definition year_month_pairs :: "int \<Rightarrow> (int \<times> month_entry) list" where
  "year_month_pairs year_end =
     concat (map (\<lambda>y. map (\<lambda>m. (y, m)) MONTHS) [YEAR_START..year_end])"

fun fetch_all :: "(string \<Rightarrow> http) \<Rightarrow> (int \<times> month_entry) list \<Rightarrow> 'g fs \<Rightarrow> dmsg list \<times> 'g fs" where
  "fetch_all net [] fs = ([], fs)"
| "fetch_all net ((y, m) # ps) fs =
     (case fetch_one net y m fs of
        (ms, fs') \<Rightarrow> (case fetch_all net ps fs' of (ms', fs'') \<Rightarrow> (ms @ ms', fs'')))"

text \<open>
  \<open>main()\<close>; \<open>year_end\<close> is \<open>datetime.now().year\<close>. An exception of
  \<open>ensure_dir\<close> ends the script.
\<close>

definition download_main :: "(string \<Rightarrow> http) \<Rightarrow> int \<Rightarrow> 'g fs \<Rightarrow> dmsg list \<times> unit result \<times> 'g fs" where
  "download_main net year_end fs =
     (case ensure_dir OUTPUT_DIR fs of
        (fs1, Inl e) \<Rightarrow> ([], Inl e, fs1)
      | (fs1, Inr _) \<Rightarrow>
          (case fetch_all net (year_month_pairs year_end) fs1 of (ms, fs2) \<Rightarrow> (ms, Inr (), fs2)))"

section \<open>Lemmas\<close>

definition target_path :: "int \<Rightarrow> month_entry \<Rightarrow> string" where
  "target_path y m = path_join OUTPUT_DIR (archive_filename y (num m) ''4.0'')"

lemma download_file_dirs: "download_file net url p fs = (ms, ok, fs') \<Longrightarrow> fs_dirs fs' = fs_dirs fs"
  by (auto simp: download_file_def Let_def split: if_splits http.splits)

lemma download_file_files:
  "download_file net url p fs = (ms, ok, fs') \<Longrightarrow>
   fs_files fs' = fs_files fs \<or> (fs_files fs p = None \<and> (\<exists>b. fs_files fs' = (fs_files fs)(p \<mapsto> Blob b)))"
  by (auto simp: download_file_def Let_def path_exists_def split: if_splits http.splits)

lemma download_file_exists:
  "download_file net url p fs = (ms, True, fs') \<Longrightarrow> path_exists fs' p"
  by (auto simp: download_file_def Let_def path_exists_def split: if_splits http.splits)

lemma download_file_mono:
  "download_file net url p fs = (ms, ok, fs') \<Longrightarrow> path_exists fs q \<Longrightarrow> path_exists fs' q"
  by (auto simp: download_file_def Let_def path_exists_def split: if_splits http.splits)

lemma fetch_one_cases:
  "fetch_one net y m fs = (ms, fs') \<Longrightarrow>
   \<exists>ms0 ok. download_file net (archive_url y m ''4.0'') (target_path y m) fs = (ms0, ok, fs') \<and>
     (ok \<longrightarrow> ms = ms0) \<and> (\<not> ok \<longrightarrow> ms = ms0 @ [D_Might_Try (archive_url y m ''3.0'')])"
  by (auto simp: fetch_one_def target_path_def split: prod.splits bool.splits)

lemma fetch_all_mono: "fetch_all net ps fs = (ms, fs') \<Longrightarrow> path_exists fs q \<Longrightarrow> path_exists fs' q"
proof (induction net ps fs arbitrary: ms rule: fetch_all.induct)
  case (2 net y m ps fs)
  then show ?case
    by (auto dest!: fetch_one_cases dest: download_file_mono split: prod.splits)
qed simp

lemma fetch_one_files:
  "fetch_one net y m fs = (ms, fs') \<Longrightarrow>
   fs_dirs fs' = fs_dirs fs \<and>
   (\<forall>p. fs_files fs' p \<noteq> fs_files fs p \<longrightarrow> fs_files fs p = None \<and> p = target_path y m)"
proof -
  assume "fetch_one net y m fs = (ms, fs')"
  then obtain ms0 ok where dl: "download_file net (archive_url y m ''4.0'') (target_path y m) fs = (ms0, ok, fs')"
    using fetch_one_cases by blast
  show ?thesis
    using download_file_dirs [OF dl] download_file_files [OF dl] by (auto split: if_splits)
qed

text \<open>
  C7. The download loop only adds files: directories are unchanged, and a file whose
  content differs afterwards did not exist before and is the v4.0 archive path of one of
  the years and months the loop visited. No existing file is overwritten.
\<close>

theorem fetch_all_frame:
  assumes "fetch_all net ps fs = (ms, fs')"
  shows "fs_dirs fs' = fs_dirs fs \<and>
    (\<forall>p. fs_files fs' p \<noteq> fs_files fs p \<longrightarrow>
       fs_files fs p = None \<and> (\<exists>y m. (y, m) \<in> set ps \<and> p = target_path y m))"
  using assms
proof (induction net ps fs arbitrary: ms rule: fetch_all.induct)
  case (1 net fs)
  then show ?case by simp
next
  case (2 net y m ps fs)
  obtain ms1 fs1 where one: "fetch_one net y m fs = (ms1, fs1)" by fastforce
  obtain ms2 where rest: "fetch_all net ps fs1 = (ms2, fs')"
    using "2.prems" one by (auto split: prod.splits)
  have step: "fs_dirs fs1 = fs_dirs fs \<and>
     (\<forall>p. fs_files fs1 p \<noteq> fs_files fs p \<longrightarrow> fs_files fs p = None \<and> p = target_path y m)"
    using fetch_one_files [OF one] .
  have IH: "fs_dirs fs' = fs_dirs fs1 \<and>
     (\<forall>p. fs_files fs' p \<noteq> fs_files fs1 p \<longrightarrow>
        fs_files fs1 p = None \<and> (\<exists>y m. (y, m) \<in> set ps \<and> p = target_path y m))"
    using "2.IH" [OF one [symmetric] rest] .
  have "\<forall>p. fs_files fs' p \<noteq> fs_files fs p \<longrightarrow>
     fs_files fs p = None \<and> (\<exists>y' m'. (y', m') \<in> set ((y, m) # ps) \<and> p = target_path y' m')"
  proof (intro allI impI)
    fix p assume ch: "fs_files fs' p \<noteq> fs_files fs p"
    show "fs_files fs p = None \<and> (\<exists>y' m'. (y', m') \<in> set ((y, m) # ps) \<and> p = target_path y' m')"
    proof (cases "fs_files fs1 p = fs_files fs p")
      case True
      with ch have "fs_files fs' p \<noteq> fs_files fs1 p" by simp
      with IH have "fs_files fs1 p = None \<and> (\<exists>y m. (y, m) \<in> set ps \<and> p = target_path y m)"
        by blast
      with True show ?thesis by auto
    next
      case False
      with step show ?thesis by auto
    qed
  qed
  with step IH show ?case by simp
qed

text \<open>
  C8. Every year and month the loop visits ends either with a path at its v4.0 target
  (downloaded now, or already there) or with the printed hint to try the v3.0 URL.
\<close>

theorem fetch_all_covers:
  assumes "fetch_all net ps fs = (ms, fs')" and "(y, m) \<in> set ps"
  shows "path_exists fs' (target_path y m) \<or> D_Might_Try (archive_url y m ''3.0'') \<in> set ms"
  using assms
proof (induction net ps fs arbitrary: ms rule: fetch_all.induct)
  case (1 net fs)
  then show ?case by simp
next
  case (2 net y' m' ps fs)
  obtain ms1 fs1 where one: "fetch_one net y' m' fs = (ms1, fs1)" by fastforce
  obtain ms2 where rest: "fetch_all net ps fs1 = (ms2, fs')" and ms: "ms = ms1 @ ms2"
    using "2.prems"(1) one by (auto split: prod.splits)
  show ?case
  proof (cases "(y, m) = (y', m')")
    case True
    obtain ms0 ok where dl: "download_file net (archive_url y' m' ''4.0'') (target_path y' m') fs = (ms0, ok, fs1)"
      and oks: "ok \<longrightarrow> ms1 = ms0" "\<not> ok \<longrightarrow> ms1 = ms0 @ [D_Might_Try (archive_url y' m' ''3.0'')]"
      using fetch_one_cases [OF one] by blast
    show ?thesis
    proof (cases ok)
      case True
      with dl have "path_exists fs1 (target_path y' m')" by (simp add: download_file_exists)
      with rest \<open>(y, m) = (y', m')\<close> show ?thesis by (auto dest: fetch_all_mono)
    next
      case False
      with oks ms \<open>(y, m) = (y', m')\<close> show ?thesis by auto
    qed
  next
    case False
    with "2.prems"(2) have "(y, m) \<in> set ps" by auto
    with "2.IH" [OF one [symmetric] rest] ms show ?thesis by auto
  qed
qed

text \<open>
  C9. A download whose stream breaks after the file was opened reports failure but leaves
  the partial file at the target path; every later call for that path, with any network,
  skips it as already downloaded and reports success.
\<close>

theorem partial_download_kept:
  assumes "\<not> path_exists fs p" and "parent_ok fs p" and "net url = Http 200 chunks True"
  shows "download_file net url p fs =
           ([D_Downloading url, D_Error url], False, fs\<lparr>fs_files := (fs_files fs)(p \<mapsto> Blob (concat chunks))\<rparr>) \<and>
         (\<forall>net' url'. download_file net' url' p (fs\<lparr>fs_files := (fs_files fs)(p \<mapsto> Blob (concat chunks))\<rparr>) =
            ([D_Skipping p], True, fs\<lparr>fs_files := (fs_files fs)(p \<mapsto> Blob (concat chunks))\<rparr>))"
  using assms by (simp add: download_file_def path_exists_def)

declare archive_filename_def [model_simps] archive_url_def [model_simps] download_file_def [model_simps]
  ensure_dir_def [model_simps] fetch_one_def [model_simps] year_month_pairs_def [model_simps]
  download_main_def [model_simps] MONTHS_def [model_simps] OUTPUT_DIR_def [model_simps]
  YEAR_START_def [model_simps] BASE_URL_def [model_simps]

end
