(* ===== verification/Check_Url.thy ===== *)
theory Check_Url
  imports Download
begin

text \<open>
  \<open>src/scripts/check_nsidc_url.py\<close>: \<open>check_url(year, month, month_name)\<close> sends a
  HEAD request for the v4.0 archive URL and, when the server answers with another
  status, one for the v3.0 URL; any exception of \<open>requests\<close> is caught and reported.
  The server is a function from URLs to responses of type \<open>http\<close> (theory
  \<open>Download\<close>); it is a separate parameter from the one the downloader's GET requests
  see, since \<open>requests.head\<close> does not follow redirects and \<open>requests.get\<close> does. Only
  the status of a HEAD response is read. The printed lines are the datatype \<open>cmsg\<close>.
  The lemmas relate the probed URLs to the downloader's \<open>archive_url\<close>.
\<close>

datatype cmsg =
    C_Checking string
  | C_Found string
  | C_Not_Found nat
  | C_Error

text \<open>Lines 3--30; the parameters \<open>year\<close> and \<open>month\<close> are \<open>yr\<close> and \<open>mon\<close> here.\<close>

definition check_url :: "(string \<Rightarrow> http) \<Rightarrow> int \<Rightarrow> string \<Rightarrow> string \<Rightarrow> cmsg list \<times> bool" where
  "check_url head yr mon month_name =
     (let base_url = ''https://noaadata.apps.nsidc.org/NOAA/G02135/north/monthly/shapefiles/shp_extent'';
          filename = ''extent_N_'' @ py_str_int yr @ mon @ ''_polygon_v4.0.zip'';
          url = base_url @ ''/'' @ mon @ ''_'' @ month_name @ ''/'' @ filename
      in case head url of
           ConnError \<Rightarrow> ([C_Checking url, C_Error], False)
         | Http st _ _ \<Rightarrow>
             (if st = 200 then ([C_Checking url, C_Found ''v4.0''], True)
              else
                (let filename_v3 = ''extent_N_'' @ py_str_int yr @ mon @ ''_polygon_v3.0.zip'';
                     url_v3 = base_url @ ''/'' @ mon @ ''_'' @ month_name @ ''/'' @ filename_v3
                 in case head url_v3 of
                      ConnError \<Rightarrow> ([C_Checking url, C_Not_Found st, C_Checking url_v3, C_Error], False)
                    | Http st3 _ _ \<Rightarrow>
                        (if st3 = 200
                         then ([C_Checking url, C_Not_Found st, C_Checking url_v3, C_Found ''v3.0''], True)
                         else ([C_Checking url, C_Not_Found st, C_Checking url_v3, C_Not_Found st3], False)))))"

text \<open>Lines 32--35: the module-level calls.\<close>

definition check_main :: "(string \<Rightarrow> http) \<Rightarrow> cmsg list" where
  "check_main head = fst (check_url head 2023 ''09'' ''Sep'') @ fst (check_url head 1980 ''03'' ''Mar'')"

definition head_ok :: "http \<Rightarrow> bool" where
  "head_ok r = (case r of Http st _ _ \<Rightarrow> st = 200 | ConnError \<Rightarrow> False)"

fun checked_urls :: "cmsg list \<Rightarrow> string list" where
  "checked_urls [] = []"
| "checked_urls (C_Checking u # ms) = u # checked_urls ms"
| "checked_urls (_ # ms) = checked_urls ms"

section \<open>The probed URLs are the downloader's\<close>

lemma check_url_url:
  "''https://noaadata.apps.nsidc.org/NOAA/G02135/north/monthly/shapefiles/shp_extent'' @ ''/'' @ num m @ ''_''
     @ mname m @ ''/'' @ (''extent_N_'' @ py_str_int y @ num m @ ''_polygon_v4.0.zip'') =
   archive_url y m ''4.0''"
  "''https://noaadata.apps.nsidc.org/NOAA/G02135/north/monthly/shapefiles/shp_extent'' @ ''/'' @ num m @ ''_''
     @ mname m @ ''/'' @ (''extent_N_'' @ py_str_int y @ num m @ ''_polygon_v3.0.zip'') =
   archive_url y m ''3.0''"
  by (simp_all add: archive_url_def archive_filename_def BASE_URL_def)

lemma check_url_cases:
  "check_url head y (num m) (mname m) =
     (case head (archive_url y m ''4.0'') of
        ConnError \<Rightarrow> ([C_Checking (archive_url y m ''4.0''), C_Error], False)
      | Http st _ _ \<Rightarrow>
          (if st = 200 then ([C_Checking (archive_url y m ''4.0''), C_Found ''v4.0''], True)
           else (case head (archive_url y m ''3.0'') of
                   ConnError \<Rightarrow> ([C_Checking (archive_url y m ''4.0''), C_Not_Found st,
                                  C_Checking (archive_url y m ''3.0''), C_Error], False)
                 | Http st3 _ _ \<Rightarrow>
                     (if st3 = 200
                      then ([C_Checking (archive_url y m ''4.0''), C_Not_Found st,
                             C_Checking (archive_url y m ''3.0''), C_Found ''v3.0''], True)
                      else ([C_Checking (archive_url y m ''4.0''), C_Not_Found st,
                             C_Checking (archive_url y m ''3.0''), C_Not_Found st3], False)))))"
  unfolding check_url_def Let_def check_url_url by (rule refl)

declare check_url_def [model_simps] check_main_def [model_simps] head_ok_def [model_simps]

text \<open>
  C20. For a month of the downloader's table, \<open>check_url\<close> probes exactly the URLs the
  downloader fetches (v4.0) and hints at (v3.0), the v3.0 one only after the server
  answered the v4.0 probe with another status than 200 (not after a connection error),
  and it reports \<open>True\<close> exactly when one of the probes it made answered 200.
\<close>

theorem check_url_result:
  "checked_urls (fst (check_url head y (num m) (mname m))) =
     archive_url y m ''4.0'' #
       (case head (archive_url y m ''4.0'') of ConnError \<Rightarrow> []
        | Http st _ _ \<Rightarrow> if st = 200 then [] else [archive_url y m ''3.0'']) \<and>
   snd (check_url head y (num m) (mname m)) =
     (head_ok (head (archive_url y m ''4.0'')) \<or>
      (head (archive_url y m ''4.0'') \<noteq> ConnError \<and> head_ok (head (archive_url y m ''3.0''))))"
  by (simp add: check_url_cases head_ok_def split: http.split)

end
