(* ===== verification/Wms.thy ===== *)
theory Wms
  imports Download "HOL-Library.Sublist" "HOL-Library.List_Lexorder" "HOL-Library.Char_ord"
begin

text \<open>
  \<open>src/scripts/check_wms.py\<close>: fetch the NSIDC WMS capabilities, list the SRS
  identifiers of interest, and look for the sea-ice layer. The XML document is the
  nested datatype \<open>xml\<close> (tag, text, children; attributes are not read by the script);
  \<open>ElementTree.fromstring\<close> is a parameter \<open>parse\<close> of the script (\<open>None\<close> for a
  \<open>ParseError\<close>), the server a function from URLs to \<open>http\<close> responses (theory
  \<open>Download\<close>), a response whose stream breaks raising inside \<open>requests.get\<close>. The
  ElementPath queries the script uses are definitions: \<open>.//tag\<close> (all proper
  descendants in document order), \<open>tag\<close> (direct children) and \<open>find\<close> (the first
  such child). Python's string order is the lexicographic order of
  \<open>HOL-Library.List_Lexorder\<close> over code points (\<open>Char_ord\<close>). An element's truth
  value is \<open>len(element) != 0\<close>, the number of its children.
\<close>

datatype xml = Elem (xtag: string) (xtext: "string option") (xchildren: "xml list")

fun descendants :: "xml \<Rightarrow> xml list" where
  "descendants (Elem t x cs) = concat (map (\<lambda>c. c # descendants c) cs)"

definition findall_desc :: "string \<Rightarrow> xml \<Rightarrow> xml list" where
  "findall_desc t e = filter (\<lambda>d. xtag d = t) (descendants e)"

definition findall_child :: "string \<Rightarrow> xml \<Rightarrow> xml list" where
  "findall_child t e = filter (\<lambda>d. xtag d = t) (xchildren e)"

definition find_child :: "string \<Rightarrow> xml \<Rightarrow> xml option" where
  "find_child t e = find (\<lambda>d. xtag d = t) (xchildren e)"

definition el_truthy :: "xml \<Rightarrow> bool" where
  "el_truthy e \<longleftrightarrow> xchildren e \<noteq> []"

text \<open>\<open>sorted(list(set(xs)))\<close> on strings, and on texts that may be \<open>None\<close>: \<open>None\<close>
  and a string cannot be compared, so a set holding both raises \<open>TypeError\<close>.\<close>

definition py_sorted_set :: "string list \<Rightarrow> string list" where
  "py_sorted_set xs = sorted_list_of_set (set xs)"

definition py_sorted_set_opt :: "string option list \<Rightarrow> string option list result" where
  "py_sorted_set_opt xs =
     (if None \<in> set xs \<and> (\<exists>x \<in> set xs. x \<noteq> None) then Inl TypeError
      else if None \<in> set xs then Inr [None]
      else Inr (map Some (py_sorted_set (map the xs))))"

section \<open>The script\<close>

definition WMS_URL :: string where
  "WMS_URL = ''https://nsidc.org/api/mapservices/NSIDC/wms?service=WMS&version=1.1.1&request=GetCapabilities''"

definition ICE_LAYER :: string where
  "ICE_LAYER = ''NSIDC:nsidc_0051_raster_n''"

text \<open>Lines 18--21: \<open>if s and ("3857" in s or ...)\<close>.\<close>

definition srs_of_interest :: "string option \<Rightarrow> bool" where
  "srs_of_interest s =
     (case s of None \<Rightarrow> False
      | Some v \<Rightarrow> v \<noteq> [] \<and> (sublist ''3857'' v \<or> sublist ''900913'' v \<or> sublist ''4326'' v \<or> sublist ''3413'' v))"

text \<open>Lines 26--31: the loop that stops at the first layer whose \<open>Name\<close> child reads
  \<open>ICE_LAYER\<close>.\<close>

definition is_ice_layer_elem :: "xml \<Rightarrow> bool" where
  "is_ice_layer_elem l = (case find_child ''Name'' l of None \<Rightarrow> False | Some n \<Rightarrow> xtext n = Some ICE_LAYER)"

datatype wmsg =
    W_Fetching string
  | W_Status nat
  | W_Total_SRS nat
  | W_Supported "string list"
  | W_Found_Layer
  | W_Layer_SRS "string option list"
  | W_Not_Found
  | W_Error

text \<open>Lines 10--39, after \<open>fromstring\<close> succeeded.\<close>

definition report_root :: "xml \<Rightarrow> wmsg list" where
  "report_root doc_root =
     (let srs_list = map xtext (findall_desc ''SRS'' doc_root);
          supported = [the s. s \<leftarrow> srs_list, srs_of_interest s]
      in [W_Total_SRS (length srs_list), W_Supported (py_sorted_set supported)] @
         (case find is_ice_layer_elem (findall_desc ''Layer'' doc_root) of
            None \<Rightarrow> [W_Not_Found]
          | Some l \<Rightarrow>
              (if el_truthy l then
                 W_Found_Layer #
                   (case py_sorted_set_opt (map xtext (findall_child ''SRS'' l)) of
                      Inl _ \<Rightarrow> [W_Error]
                    | Inr v \<Rightarrow> [W_Layer_SRS v])
               else [W_Not_Found])))"

text \<open>The whole script, lines 4--43; every exception ends in \<open>print(f"Error: {e}")\<close>.\<close>

definition check_wms :: "(string \<Rightarrow> http) \<Rightarrow> (string \<Rightarrow> xml option) \<Rightarrow> wmsg list" where
  "check_wms net parse =
     W_Fetching WMS_URL #
       (case net WMS_URL of
          ConnError \<Rightarrow> [W_Error]
        | Http st chunks broken \<Rightarrow>
            (if broken then [W_Error]
             else W_Status st #
               (if st = 200 then
                  (case parse (concat chunks) of None \<Rightarrow> [W_Error] | Some doc_root \<Rightarrow> report_root doc_root)
                else [])))"

section \<open>Lemmas\<close>

lemma find_Some_mem: "find P xs = Some x \<Longrightarrow> x \<in> set xs \<and> P x"
  by (induction xs) (auto split: if_splits)

lemma ice_layer_truthy: "is_ice_layer_elem l \<Longrightarrow> el_truthy l"
  by (auto simp: is_ice_layer_elem_def find_child_def el_truthy_def split: option.splits)

lemma check_wms_root:
  "net WMS_URL = Http 200 chunks False \<Longrightarrow> parse (concat chunks) = Some d \<Longrightarrow>
   check_wms net parse = W_Fetching WMS_URL # W_Status 200 # report_root d"
  by (simp add: check_wms_def)

lemma py_sorted_set_opt_Inl:
  "(\<exists>e. py_sorted_set_opt xs = Inl e) \<longleftrightarrow> None \<in> set xs \<and> (\<exists>v. Some v \<in> set xs)"
proof -
  have "(\<exists>x\<in>set xs. x \<noteq> None) \<longleftrightarrow> (\<exists>v. Some v \<in> set xs)" by (metis not_None_eq)
  then show ?thesis by (simp add: py_sorted_set_opt_def)
qed

lemma set_supported:
  "set [the s. s \<leftarrow> xs, srs_of_interest s] = {v. Some v \<in> set xs \<and> srs_of_interest (Some v)}"
  by (induction xs) (auto simp: srs_of_interest_def split: option.splits)

text \<open>
  C25. The truth test \<open>if ice_layer:\<close> never hides the layer the loop found: a
  layer is found by its \<open>Name\<close> child, so it has a child and is true. After a
  successful fetch and parse, the script reports the sea-ice layer exactly when some
  \<open>Layer\<close> of the document has a first \<open>Name\<close> child reading
  \<open>NSIDC:nsidc_0051_raster_n\<close>.
\<close>

theorem check_wms_found_layer:
  assumes "net WMS_URL = Http 200 chunks False" and "parse (concat chunks) = Some d"
  shows "W_Found_Layer \<in> set (check_wms net parse) \<longleftrightarrow>
         (\<exists>l \<in> set (findall_desc ''Layer'' d). is_ice_layer_elem l)"
proof (cases "find is_ice_layer_elem (findall_desc ''Layer'' d)")
  case None
  moreover have "\<not> (\<exists>l \<in> set (findall_desc ''Layer'' d). is_ice_layer_elem l)"
    using None by (simp add: find_None_iff)
  ultimately show ?thesis
    by (simp add: check_wms_root [where net = net and parse = parse and chunks = chunks and d = d, OF assms]
        report_root_def Let_def)
next
  case (Some l)
  then have "is_ice_layer_elem l" and "l \<in> set (findall_desc ''Layer'' d)"
    by (auto simp: find_Some_iff)
  with Some show ?thesis
    by (auto simp: check_wms_root [where net = net and parse = parse and chunks = chunks and d = d, OF assms] report_root_def Let_def ice_layer_truthy
        split: sum.split)
qed

text \<open>
  C26. Listing the found layer's SRS fails when one of its \<open>SRS\<close> children is empty
  and another is not: \<open>sorted(list(set(layer_srs)))\<close> then compares \<open>None\<close> with a
  string and raises \<open>TypeError\<close>, which the script reports as an error instead of the
  list. This is the only way the report of a parsed document ends in an error.
\<close>

theorem check_wms_layer_srs_error:
  assumes "net WMS_URL = Http 200 chunks False" and "parse (concat chunks) = Some d"
    and "find is_ice_layer_elem (findall_desc ''Layer'' d) = Some l"
  shows "W_Error \<in> set (check_wms net parse) \<longleftrightarrow>
         None \<in> xtext ` set (findall_child ''SRS'' l) \<and> (\<exists>v. Some v \<in> xtext ` set (findall_child ''SRS'' l))"
proof -
  let ?xs = "map xtext (findall_child ''SRS'' l)"
  have "el_truthy l" using assms(3) ice_layer_truthy by (auto simp: find_Some_iff)
  then have "W_Error \<in> set (check_wms net parse) \<longleftrightarrow> (\<exists>e. py_sorted_set_opt ?xs = Inl e)"
    by (cases "py_sorted_set_opt ?xs")
      (simp_all add: check_wms_root [where net = net and parse = parse and chunks = chunks and d = d, OF assms(1,2)]
        report_root_def Let_def assms(3))
  then show ?thesis by (simp add: py_sorted_set_opt_Inl)
qed

text \<open>
  C27. The SRS list of interest is printed sorted, without duplicates, and holds exactly
  the non-empty SRS texts of the document (at any depth) that contain 3857, 900913,
  4326 or 3413.
\<close>

theorem check_wms_supported:
  assumes "net WMS_URL = Http 200 chunks False" and "parse (concat chunks) = Some d"
  shows "\<exists>xs. W_Supported xs \<in> set (check_wms net parse) \<and> sorted xs \<and> distinct xs \<and>
           set xs = {v. Some v \<in> xtext ` set (findall_desc ''SRS'' d) \<and> srs_of_interest (Some v)}"
proof -
  let ?sup = "[the s. s \<leftarrow> map xtext (findall_desc ''SRS'' d), srs_of_interest s]"
  have m: "W_Supported (py_sorted_set ?sup) \<in> set (check_wms net parse)"
    by (simp add: check_wms_root [where net = net and parse = parse and chunks = chunks and d = d, OF assms]
        report_root_def Let_def)
  have s: "sorted (py_sorted_set ?sup) \<and> distinct (py_sorted_set ?sup)"
    by (simp add: py_sorted_set_def)
  have e1: "set (py_sorted_set ?sup) = set ?sup" by (simp add: py_sorted_set_def)
  have e2: "set ?sup = {v. Some v \<in> xtext ` set (findall_desc ''SRS'' d) \<and> srs_of_interest (Some v)}"
    by (simp only: set_supported set_map)
  have "set (py_sorted_set ?sup) = {v. Some v \<in> xtext ` set (findall_desc ''SRS'' d) \<and> srs_of_interest (Some v)}"
    by (simp only: e1 e2)
  with m s show ?thesis by blast
qed
end
