(* ===== verification/Py_Re.thy ===== *)
theory Py_Re
  imports Main "HOL-Library.Sublist"
begin

text \<open>
  A reference model of Python's \<open>re\<close> module for the patterns the scripts pass to
  \<open>re.findall\<close>: a sequence of literals, negated character classes under \<open>*\<close> or
  \<open>+\<close>, and group brackets. The matcher follows the backtracking engine of \<open>sre\<close>:
  \<open>re_match p s c\<close> lists every way \<open>p\<close> matches a prefix of \<open>s\<close>, in the order the
  engine tries them (a greedy repeat tries its longest run first and gives back one
  character at a time), each with the remaining text and the capture state (the text
  at the open bracket, the captured group).
\<close>

datatype re_item =
    RLit string
  | RStar "char list"
  | RPlus "char list"
  | ROpen
  | RClose

type_synonym re_cap = "string option \<times> string option"

definition class_run :: "char list \<Rightarrow> string \<Rightarrow> nat" where
  "class_run cs s = length (takeWhile (\<lambda>ch. ch \<notin> set cs) s)"

fun re_match :: "re_item list \<Rightarrow> string \<Rightarrow> re_cap \<Rightarrow> (string \<times> re_cap) list" where
  "re_match [] s c = [(s, c)]"
| "re_match (RLit w # p) s c = (if prefix w s then re_match p (drop (length w) s) c else [])"
| "re_match (RStar cs # p) s c =
     concat (map (\<lambda>k. re_match p (drop k s) c) (rev [0..<Suc (class_run cs s)]))"
| "re_match (RPlus cs # p) s c =
     concat (map (\<lambda>k. re_match p (drop k s) c) (rev [1..<Suc (class_run cs s)]))"
| "re_match (ROpen # p) s c = re_match p s (Some s, snd c)"
| "re_match (RClose # p) s c =
     re_match p s (None, case fst c of None \<Rightarrow> snd c | Some s0 \<Rightarrow> Some (take (length s0 - length s) s0))"

text \<open>A match attempt at the start of \<open>s\<close>, as \<open>re.match\<close>: the first way the engine finds.\<close>

definition re_first :: "re_item list \<Rightarrow> string \<Rightarrow> (string \<times> re_cap) option" where
  "re_first p s = (case re_match p s (None, None) of [] \<Rightarrow> None | m # _ \<Rightarrow> Some m)"

text \<open>
  \<open>re.findall\<close> for a pattern with one group: scan from the left, take the first match
  at the leftmost position, return its group (\<open>''''\<close> when the group did not
  take part), and go on after the match; after an empty match the scan moves on by one
  character.
\<close>

function re_findall :: "re_item list \<Rightarrow> string \<Rightarrow> string list" where
  "re_findall p s =
     (case re_first p s of
        None \<Rightarrow> (case s of [] \<Rightarrow> [] | _ # s' \<Rightarrow> re_findall p s')
      | Some (r, c) \<Rightarrow>
          (case snd c of None \<Rightarrow> [] | Some g \<Rightarrow> g) #
            (if length r < length s then re_findall p r
             else (case s of [] \<Rightarrow> [] | _ # s' \<Rightarrow> re_findall p s')))"
  by pat_completeness auto
termination
  by (relation "measure (\<lambda>(p, s). length s)") auto

declare re_findall.simps [simp del]

section \<open>Lemmas\<close>

lemma re_findall_None:
  "re_first p (x # xs) = None \<Longrightarrow> re_findall p (x # xs) = re_findall p xs"
  by (subst re_findall.simps) simp

lemma re_findall_Nil_None: "re_first p [] = None \<Longrightarrow> re_findall p [] = []"
  by (subst re_findall.simps) simp

lemma re_findall_Some:
  "re_first p s = Some (r, c) \<Longrightarrow> length r < length s \<Longrightarrow>
   re_findall p s = (case snd c of None \<Rightarrow> [] | Some g \<Rightarrow> g) # re_findall p r"
  by (subst re_findall.simps) simp

text \<open>Giving back characters of a run is futile when the next literal starts with a
  character of the class: the characters of the run are outside the class.\<close>

lemma re_match_lit_in_run:
  assumes "c \<in> set cs" and "k < class_run cs s"
  shows "re_match (RLit (c # w) # p) (drop k s) cap = []"
proof -
  have "k < length s" using assms(2) length_takeWhile_le [of _ s] unfolding class_run_def
    by (meson less_le_trans)
  have "takeWhile (\<lambda>ch. ch \<notin> set cs) s ! k \<notin> set cs"
  proof -
    have "takeWhile (\<lambda>ch. ch \<notin> set cs) s ! k \<in> set (takeWhile (\<lambda>ch. ch \<notin> set cs) s)"
      using assms(2) unfolding class_run_def by (rule nth_mem)
    then show ?thesis by (rule set_takeWhileD [THEN conjunct2])
  qed
  then have "s ! k \<noteq> c" using assms(1) assms(2) unfolding class_run_def
    by (metis takeWhile_nth)
  then have "\<not> prefix (c # w) (drop k s)"
    using \<open>k < length s\<close> by (simp add: Cons_nth_drop_Suc [symmetric])
  then show ?thesis by simp
qed

lemma concat_map_rev_upt_last:
  assumes "a \<le> n" and "\<And>k. k < n \<Longrightarrow> f k = []"
  shows "concat (map f (rev [a..<Suc n])) = f n"
proof -
  have "concat (map f (rev [a..<n])) = []" using assms(2) by simp
  then show ?thesis using assms(1) by simp
qed

end
