(* ===== verification/Wmts.thy ===== *)
theory Wmts
  imports File_System Py_Re
begin

text \<open>
  \<open>src/scripts/parse_wmts.py\<close>: read a saved WMTS capabilities document, extract with
  three regular expressions the layer identifiers, the tile matrix sets and the
  resource URL templates, and write a short report. Each \<open>re.findall\<close> is a scanner
  over the text that follows the regex engine: try a match at every position from the
  left, continue after a match, one position further after a failed attempt; greedy
  character classes are resolved by the same backtracking order. Python's \<open>in\<close> on
  strings is \<open>sublist\<close> of \<open>HOL-Library.Sublist\<close>. The scanners are proved equal to
  \<open>re_findall\<close> of \<open>Py_Re\<close>, the reference engine, on the patterns of the script
  (\<open>tag_pat\<close>, \<open>template_pat\<close>). \<open>str.lower\<close> is modelled on ASCII
  letters. The iteration order of \<open>set(tile_matrix_sets)\<close> depends on string hashing,
  which Python randomises per process; it is a parameter \<open>order\<close> of the script,
  constrained by \<open>set_order\<close>.
\<close>

section \<open>Regular expressions\<close>

text \<open>
  \<^verbatim>\<open>re.findall(r'<ows:Identifier>([^<]+)</ows:Identifier>', content)\<close> and the
  same for \<open>TileMatrixSet\<close>: an open tag, a non-empty run of characters other than
  \<open><\<close>, the close tag. As the close tag starts with \<open><\<close>, backtracking into the run
  never helps: the group is the maximal run.
\<close>

function findall_tag :: "string \<Rightarrow> string \<Rightarrow> string \<Rightarrow> string list" where
  "findall_tag otag ctag [] = []"
| "findall_tag otag ctag (x # xs) =
     (if prefix otag (x # xs) then
        (let rest = drop (length otag) (x # xs);
             body = takeWhile (\<lambda>ch. ch \<noteq> CHR ''<'') rest;
             after = drop (length body) rest
         in if body \<noteq> [] \<and> prefix ctag after then body # findall_tag otag ctag (drop (length ctag) after)
            else findall_tag otag ctag xs)
      else findall_tag otag ctag xs)"
  by pat_completeness auto
termination
  by (relation "measure (\<lambda>(a, b, s). length s)")
    (auto simp: Let_def dest!: length_pos_if_in_set [where xs = "takeWhile _ _"]
      intro: le_less_trans [OF length_takeWhile_le])

text \<open>
  \<^verbatim>\<open>re.findall(r'<ResourceURL[^>]*template="([^"]+)"', content)\<close>. After
  \<open><ResourceURL\<close> the greedy \<open>[^>]*\<close> first takes the whole run up to the next
  \<open>>\<close> and gives characters back one at a time: the match uses the last
  \<open>template="\<close> of the run that is followed by a non-empty value and a closing quote.
  \<open>attr_at rest j\<close> tries the attribute after \<open>j\<close> characters and returns the value
  and the length consumed.
\<close>

definition attr_at :: "string \<Rightarrow> nat \<Rightarrow> (string \<times> nat) option" where
  "attr_at rest j =
     (let t = drop j rest in
      if prefix ''template=\"'' t then
        (let v = takeWhile (\<lambda>ch. ch \<noteq> CHR ''\"'') (drop 10 t) in
         if v \<noteq> [] \<and> length v < length (drop 10 t) then Some (v, j + 10 + length v + 1) else None)
      else None)"

fun find_attr :: "string \<Rightarrow> nat \<Rightarrow> (string \<times> nat) option" where
  "find_attr rest 0 = attr_at rest 0"
| "find_attr rest (Suc j) = (case attr_at rest (Suc j) of Some r \<Rightarrow> Some r | None \<Rightarrow> find_attr rest j)"

function findall_template :: "string \<Rightarrow> string list" where
  "findall_template [] = []"
| "findall_template (x # xs) =
     (if prefix ''<ResourceURL'' (x # xs) then
        (let rest = drop 12 (x # xs) in
         case find_attr rest (length (takeWhile (\<lambda>ch. ch \<noteq> CHR ''>'') rest)) of
           Some (v, k) \<Rightarrow> v # findall_template (drop k rest)
         | None \<Rightarrow> findall_template xs)
      else findall_template xs)"
  by pat_completeness auto
termination
  by (relation "measure length") auto

text \<open>The two patterns in the syntax of \<open>Py_Re\<close>: \<open>otag([^<]+)ctag\<close> and
  \<open><ResourceURL[^>]*template="([^"]+)"\<close>.\<close>

definition tag_pat :: "string \<Rightarrow> string \<Rightarrow> re_item list" where
  "tag_pat otag ctag = [RLit otag, ROpen, RPlus ''<'', RClose, RLit ctag]"

definition template_pat :: "re_item list" where
  "template_pat = [RLit ''<ResourceURL'', RStar ''>'', RLit ''template=\"'', ROpen, RPlus ''\"'', RClose, RLit ''\"'']"

section \<open>Classification and report\<close>

text \<open>\<open>str.lower\<close> on ASCII: the letters \<open>A\<close>--\<open>Z\<close> become \<open>a\<close>--\<open>z\<close>.\<close>

definition py_lower_char :: "char \<Rightarrow> char" where
  "py_lower_char c = (let n = (of_char c :: nat) in if 65 \<le> n \<and> n \<le> 90 then char_of (n + 32) else c)"

definition py_lower :: "string \<Rightarrow> string" where
  "py_lower s = map py_lower_char s"

text \<open>Line 13.\<close>

definition is_ice_layer :: "string \<Rightarrow> bool" where
  "is_ice_layer layer \<longleftrightarrow>
     sublist ''sic'' (py_lower layer) \<or> sublist ''ice'' (py_lower layer) \<or> sublist ''SEAICE'' layer"

definition layer_line :: "string \<Rightarrow> string" where
  "layer_line layer = (if is_ice_layer layer then ''  ** '' @ layer else ''     '' @ layer)"

definition NL :: char where
  "NL = CHR 0x0A"

text \<open>
  Lines 7--28: the report's lines. \<open>order\<close> is the iteration order of a Python set
  built from the given list.
\<close>

definition set_order :: "(string list \<Rightarrow> string list) \<Rightarrow> bool" where
  "set_order order \<longleftrightarrow> (\<forall>xs. distinct (order xs) \<and> set (order xs) = set xs)"

definition wmts_output :: "(string list \<Rightarrow> string list) \<Rightarrow> string \<Rightarrow> string list" where
  "wmts_output order content =
     (let layers = findall_tag ''<ows:Identifier>'' ''</ows:Identifier>'' content;
          tile_matrix_sets = findall_tag ''<TileMatrixSet>'' ''</TileMatrixSet>'' content;
          templates = findall_template content
      in [''=== Layers/Identifiers Found ===''] @ map layer_line (take 50 layers) @
         [NL # ''=== TileMatrixSets ===''] @ map (\<lambda>tms. ''  '' @ tms) (order tile_matrix_sets) @
         [NL # ''=== ResourceURL Templates (first 5) ===''] @ map (\<lambda>t. ''  '' @ t) (take 5 templates))"

text \<open>
  \<open>open(p, 'r').read()\<close> and \<open>open(p, 'w').write(s)\<close> on the file system state: a
  missing file or a directory raises \<open>OSError\<close>; the text of a file holding a GeoJSON
  value is not modelled (\<open>ReadError\<close>).
\<close>

definition read_text :: "'g fs \<Rightarrow> string \<Rightarrow> string result" where
  "read_text fs p =
     (case fs_files fs p of Some (Blob s) \<Rightarrow> Inr s | Some (GeoJSON _) \<Rightarrow> Inl (ReadError p) | None \<Rightarrow> Inl (OSError p))"

definition write_text :: "string \<Rightarrow> string \<Rightarrow> 'g fs \<Rightarrow> 'g fs result" where
  "write_text p s fs =
     (if p \<in> fs_dirs fs \<or> \<not> parent_ok fs p then Inl (OSError p)
      else Inr (fs\<lparr>fs_files := (fs_files fs)(p \<mapsto> Blob s)\<rparr>))"

text \<open>The whole script, lines 3--34; an exception ends it.\<close>

definition parse_wmts_main :: "(string list \<Rightarrow> string list) \<Rightarrow> 'g fs \<Rightarrow> string list \<times> unit result \<times> 'g fs" where
  "parse_wmts_main order fs =
     (case read_text fs ''test_response_1.xml'' of
        Inl e \<Rightarrow> ([], Inl e, fs)
      | Inr content \<Rightarrow>
          (case write_text ''wmts_analysis.txt'' (py_join [NL] (wmts_output order content)) fs of
             Inl e \<Rightarrow> ([], Inl e, fs)
           | Inr fs' \<Rightarrow> ([''Saved to wmts_analysis.txt''], Inr (), fs')))"

text \<open>A capabilities document with two tile matrix sets.\<close>

definition wmts_sample_fs :: "'g fs" where
  "wmts_sample_fs = \<lparr>fs_dirs = {}, fs_files = [''test_response_1.xml'' \<mapsto>
     Blob ''<TileMatrixSet>EPSG3413</TileMatrixSet><TileMatrixSet>EPSG4326</TileMatrixSet>'']\<rparr>"

section \<open>Lemmas\<close>

lemma sublist_Cons_tail: "sublist w ys \<Longrightarrow> sublist w (y # ys)"
  by (simp add: sublist_Cons_right)

lemma findall_tag_skip:
  assumes "otag = CHR ''<'' # os" and "CHR ''<'' \<notin> set sep"
  shows "findall_tag otag ctag (sep @ r) = findall_tag otag ctag r"
  using assms(2) by (induction sep) (simp_all add: assms(1))

lemma py_lower_SEAICE: "py_lower ''SEAICE'' = ''seaice''"
  by (simp add: py_lower_def py_lower_char_def Let_def char_of_def bit_0)


lemma findall_tag_match:
  assumes "otag \<noteq> []" and "ctag = CHR ''<'' # cs" and "x \<noteq> []" and "CHR ''<'' \<notin> set x"
  shows "findall_tag otag ctag (otag @ x @ ctag @ r) = x # findall_tag otag ctag r"
proof -
  obtain a as where o: "otag = a # as" using assms(1) by (cases otag) auto
  have "takeWhile (\<lambda>ch. ch \<noteq> CHR ''<'') (x @ ctag @ r) = x"
    using assms(2,4) by (simp add: takeWhile_not_sep_append)
  with assms(2,3) show ?thesis by (simp add: o Let_def)
qed

lemma attr_at_Some:
  assumes "attr_at rest j = Some (v, k)"
  shows "v \<noteq> [] \<and> CHR ''\"'' \<notin> set v \<and> k = j + 10 + length v + 1 \<and>
         rest = take j rest @ ''template=\"'' @ v @ ''\"'' @ drop k rest"
proof -
  define t where "t = drop j rest"
  have pre: "prefix ''template=\"'' t" and
    v: "v = takeWhile (\<lambda>ch. ch \<noteq> CHR ''\"'') (drop 10 t)" and
    ne: "v \<noteq> []" and lt: "length v < length (drop 10 t)" and k: "k = j + 10 + length v + 1"
    using assms by (auto simp: attr_at_def t_def Let_def split: if_splits)
  obtain u where u: "t = ''template=\"'' @ u" using pre prefixE by blast
  have "drop 10 t = u" using u by simp
  then have vu: "v = takeWhile (\<lambda>ch. ch \<noteq> CHR ''\"'') u" and lu: "length v < length u"
    using v lt by simp_all
  have nq: "CHR ''\"'' \<notin> set v" using vu by (auto dest: set_takeWhileD)
  define d where "d = dropWhile (\<lambda>ch. ch \<noteq> CHR ''\"'') u"
  have ud: "u = v @ d" using vu by (simp add: d_def)
  have "d \<noteq> []" using lu ud by auto
  then obtain c w where cw: "d = c # w" by (cases d) auto
  have "c = CHR ''\"''" using cw hd_dropWhile [of "\<lambda>ch. ch \<noteq> CHR ''\"''" u] by (simp add: d_def)
  then have uw: "u = v @ CHR ''\"'' # w" using ud cw by simp
  have r0: "rest = take j rest @ t" by (simp add: t_def)
  have r: "rest = take j rest @ ''template=\"'' @ v @ ''\"'' @ w"
    using r0 u uw by simp
  have "t \<noteq> []" using u by simp
  then have "j < length rest" by (simp add: t_def)
  then have lj: "length (take j rest) = j" by simp
  define p where "p = take j rest @ ''template=\"'' @ v @ ''\"''"
  have rp: "rest = p @ w" using r by (simp add: p_def)
  have "k = length p" using lj k by (simp add: p_def)
  then have "drop k rest = w" using rp by simp
  with r ne nq k show ?thesis by simp
qed

lemma find_attr_Some: "find_attr rest n = Some r \<Longrightarrow> \<exists>j \<le> n. attr_at rest j = Some r"
  by (induction n) (auto split: option.splits simp: le_Suc_eq)

lemma take_in_takeWhile:
  assumes "j \<le> length (takeWhile P xs)"
  shows "x \<in> set (take j xs) \<Longrightarrow> P x"
proof -
  have "take j xs = take j (takeWhile P xs)"
    using assms by (metis takeWhile_dropWhile_id take_append diff_is_0_eq append_Nil2 take0)
  then show "x \<in> set (take j xs) \<Longrightarrow> P x" by (metis in_set_takeD set_takeWhileD)
qed

lemma class_run_lt: "class_run ''<'' s = length (takeWhile (\<lambda>ch. ch \<noteq> CHR ''<'') s)"
  by (simp add: class_run_def)

lemma take_takeWhile_length: "take (length (takeWhile P xs)) xs = takeWhile P xs"
  by (simp flip: takeWhile_eq_take)

lemma tag_first:
  assumes "ctag = CHR ''<'' # cs"
  shows "re_first (tag_pat otag ctag) s =
    (let rest = drop (length otag) s;
         body = takeWhile (\<lambda>ch. ch \<noteq> CHR ''<'') rest;
         after = drop (length body) rest
     in if prefix otag s \<and> body \<noteq> [] \<and> prefix ctag after
        then Some (drop (length ctag) after, (None, Some body)) else None)"
proof -
  define rest where "rest = drop (length otag) s"
  define body where "body = takeWhile (\<lambda>ch. ch \<noteq> CHR ''<'') rest"
  define after where "after = drop (length body) rest"
  define f where "f k = re_match [RClose, RLit ctag] (drop k rest) (Some rest, None)" for k
  have plus: "re_match [RPlus ''<'', RClose, RLit ctag] rest (Some rest, None) =
              concat (map f (rev [1..<Suc (length body)]))"
    unfolding f_def body_def class_run_lt [symmetric] by (rule re_match.simps(4))
  have futile: "f k = []" if "k < length body" for k
    using re_match_lit_in_run [of "CHR ''<''" "''<''" k rest cs "[]"] that assms
    by (simp add: f_def body_def class_run_lt)
  have lb: "length body \<le> length rest" by (simp add: body_def length_takeWhile_le)
  have fn: "f (length body) = (if prefix ctag after then [(drop (length ctag) after, (None, Some body))] else [])"
    using lb by (simp add: f_def after_def body_def take_takeWhile_length)
  show ?thesis
  proof (cases "prefix otag s \<and> body \<noteq> []")
    case True
    have "re_match (tag_pat otag ctag) s (None, None) =
          re_match [RPlus ''<'', RClose, RLit ctag] rest (Some rest, None)"
      using True unfolding tag_pat_def rest_def by simp
    also have "\<dots> = concat (map f (rev [1..<Suc (length body)]))" by (rule plus)
    also have "\<dots> = f (length body)"
      using True futile by (intro concat_map_rev_upt_last) (auto simp: Suc_le_eq)
    finally have "re_match (tag_pat otag ctag) s (None, None) = f (length body)" .
    then show ?thesis using True fn
      by (simp add: re_first_def Let_def rest_def [symmetric] body_def [symmetric] after_def [symmetric])
  next
    case False
    have "re_match (tag_pat otag ctag) s (None, None) = []"
    proof (cases "prefix otag s")
      case True
      with False have "body = []" by simp
      have "re_match (tag_pat otag ctag) s (None, None) =
            re_match [RPlus ''<'', RClose, RLit ctag] rest (Some rest, None)"
        using True unfolding tag_pat_def rest_def by simp
      also have "\<dots> = []" using plus \<open>body = []\<close> by simp
      finally show ?thesis .
    qed (simp add: tag_pat_def)
    then show ?thesis using False
      by (simp add: re_first_def Let_def rest_def [symmetric] body_def [symmetric])
  qed
qed

lemma prefix_after_run:
  "prefix [c] (drop (length (takeWhile (\<lambda>ch. ch \<noteq> c) u)) u) \<longleftrightarrow>
   length (takeWhile (\<lambda>ch. ch \<noteq> c) u) < length u"
proof (cases "dropWhile (\<lambda>ch. ch \<noteq> c) u")
  case Nil
  then have "length (takeWhile (\<lambda>ch. ch \<noteq> c) u) = length u"
    by (metis append_Nil2 takeWhile_dropWhile_id)
  then show ?thesis by simp
next
  case (Cons d w)
  then have "d = c" using hd_dropWhile [of "\<lambda>ch. ch \<noteq> c" u] by simp
  moreover have "length (takeWhile (\<lambda>ch. ch \<noteq> c) u) < length u"
    using Cons by (metis length_append length_greater_0_conv less_add_same_cancel1 list.distinct(1) takeWhile_dropWhile_id)
  ultimately show ?thesis using Cons by (simp flip: dropWhile_eq_drop)
qed

lemma attr_match:
  "re_match [RLit ''template=\"'', ROpen, RPlus ''\"'', RClose, RLit ''\"''] (drop k rest) (None, None) =
   (case attr_at rest k of None \<Rightarrow> [] | Some (v, k') \<Rightarrow> [(drop k' rest, (None, Some v))])"
proof (cases "prefix ''template=\"'' (drop k rest)")
  case True
  define u where "u = drop 10 (drop k rest)"
  define v where "v = takeWhile (\<lambda>ch. ch \<noteq> CHR ''\"'') u"
  define f where "f j = re_match [RClose, RLit ''\"''] (drop j u) (Some u, None)" for j
  have cr: "class_run ''\"'' u = length v" by (simp add: class_run_def v_def)
  have "re_match [RLit ''template=\"'', ROpen, RPlus ''\"'', RClose, RLit ''\"''] (drop k rest) (None, None) =
        re_match [RPlus ''\"'', RClose, RLit ''\"''] u (Some u, None)"
    using True unfolding u_def by (simp del: re_match.simps(4) add: numeral_eq_Suc)
  also have "\<dots> = concat (map f (rev [1..<Suc (length v)]))"
    unfolding f_def cr [symmetric] by (rule re_match.simps(4))
  finally have m: "re_match [RLit ''template=\"'', ROpen, RPlus ''\"'', RClose, RLit ''\"''] (drop k rest) (None, None) =
        concat (map f (rev [1..<Suc (length v)]))" .
  have futile: "f j = []" if "j < length v" for j
    using re_match_lit_in_run [of "CHR ''\"''" "''\"''" j u "[]" "[]"] that cr by (simp add: f_def)
  have lv: "length v \<le> length u" by (simp add: v_def length_takeWhile_le)
  have fv: "f (length v) = (if length v < length u then [(drop (Suc (length v)) u, (None, Some v))] else [])"
    using lv prefix_after_run [of "CHR ''\"''" u]
    by (simp add: f_def v_def take_takeWhile_length)
  have at: "attr_at rest k = (if v \<noteq> [] \<and> length v < length u then Some (v, k + 10 + length v + 1) else None)"
    using True by (simp add: attr_at_def Let_def u_def v_def)
  show ?thesis
  proof (cases "v = []")
    case True
    then show ?thesis using m at by simp
  next
    case False
    then have "concat (map f (rev [1..<Suc (length v)])) = f (length v)"
      using futile by (intro concat_map_rev_upt_last) (auto simp: Suc_le_eq)
    moreover have "drop (Suc (length v)) u = drop (k + 10 + length v + 1) rest"
      by (simp add: u_def add.commute add.left_commute)
    ultimately show ?thesis using m at fv False by simp
  qed
next
  case False
  then show ?thesis by (simp add: attr_at_def Let_def)
qed


lemma first_of_attr_matches:
  "(case concat (map (\<lambda>k. case attr_at rest k of None \<Rightarrow> [] | Some (v, k') \<Rightarrow> [(drop k' rest, (None, Some v))])
           (rev [0..<Suc n])) of [] \<Rightarrow> None | m # _ \<Rightarrow> Some m) =
   (case find_attr rest n of None \<Rightarrow> None | Some (v, k') \<Rightarrow> Some (drop k' rest, (None, Some v)))"
  by (induction n) (auto split: option.splits)

lemma template_first:
  "re_first template_pat s =
     (if prefix ''<ResourceURL'' s then
        (let rest = drop 12 s in
         case find_attr rest (length (takeWhile (\<lambda>ch. ch \<noteq> CHR ''>'') rest)) of
           None \<Rightarrow> None
         | Some (v, k) \<Rightarrow> Some (drop k rest, (None, Some v)))
      else None)"
proof (cases "prefix ''<ResourceURL'' s")
  case True
  define rest where "rest = drop 12 s"
  have "re_match template_pat s (None, None) =
        re_match (RStar ''>'' # [RLit ''template=\"'', ROpen, RPlus ''\"'', RClose, RLit ''\"'']) rest (None, None)"
    using True unfolding template_pat_def rest_def by (simp del: re_match.simps(3) add: numeral_eq_Suc)
  also have "\<dots> = concat (map (\<lambda>k. case attr_at rest k of None \<Rightarrow> [] | Some (v, k') \<Rightarrow> [(drop k' rest, (None, Some v))])
           (rev [0..<Suc (length (takeWhile (\<lambda>ch. ch \<noteq> CHR ''>'') rest))]))"
    by (simp only: re_match.simps(3) attr_match) (simp add: class_run_def)
  finally show ?thesis
    using True first_of_attr_matches by (simp add: re_first_def rest_def [symmetric])
next
  case False
  then show ?thesis by (simp add: re_first_def template_pat_def)
qed

lemma findall_template_Cons:
  "findall_template (x # xs) =
     (if prefix ''<ResourceURL'' (x # xs) then
        (case find_attr (drop 12 (x # xs)) (length (takeWhile (\<lambda>ch. ch \<noteq> CHR ''>'') (drop 12 (x # xs)))) of
           Some (v, k) \<Rightarrow> v # findall_template (drop k (drop 12 (x # xs)))
         | None \<Rightarrow> findall_template xs)
      else findall_template xs)"
  by (simp only: findall_template.simps(2) Let_def)

text \<open>
  What the identifier scanner extracts is there: every string
  \<open>re.findall(r'<ows:Identifier>([^<]+)</ows:Identifier>', content)\<close> returns (and the
  same for the tile matrix sets) is non-empty, holds no \<open><\<close>, and occurs in the
  document between the two tags.
\<close>

theorem findall_tag_sound:
  "x \<in> set (findall_tag otag ctag s) \<Longrightarrow> x \<noteq> [] \<and> CHR ''<'' \<notin> set x \<and> sublist (otag @ x @ ctag) s"
proof (induction s rule: length_induct)
  case (1 s)
  show ?case
  proof (cases s)
    case Nil
    with "1.prems" show ?thesis by simp
  next
    case (Cons y ys)
    define rest where "rest = drop (length otag) s"
    define body where "body = takeWhile (\<lambda>ch. ch \<noteq> CHR ''<'') rest"
    define after where "after = drop (length body) rest"
    have eq: "findall_tag otag ctag s =
      (if prefix otag s then
         (if body \<noteq> [] \<and> prefix ctag after
          then body # findall_tag otag ctag (drop (length ctag) after) else findall_tag otag ctag ys)
       else findall_tag otag ctag ys)"
      unfolding Cons rest_def body_def after_def by (simp only: findall_tag.simps(2) Let_def)
    show ?thesis
    proof (cases "prefix otag s \<and> body \<noteq> [] \<and> prefix ctag after")
      case True
      have split: "s = otag @ body @ ctag @ drop (length ctag) after"
      proof -
        obtain zs where zs: "s = otag @ zs" using True prefixE by blast
        obtain r where r: "after = ctag @ r" using True prefixE by blast
        have "rest = zs" using zs by (simp add: rest_def)
        moreover have "rest = body @ after" unfolding after_def body_def by (simp flip: dropWhile_eq_drop)
        ultimately show ?thesis using zs r by simp
      qed
      have less: "length (drop (length ctag) after) < length s"
        using split True by (simp only: length_append) simp
      from "1.prems" True have "x = body \<or> x \<in> set (findall_tag otag ctag (drop (length ctag) after))"
        by (simp add: eq)
      then show ?thesis
      proof
        assume "x = body"
        moreover have "sublist (otag @ body @ ctag) s" unfolding sublist_def
          by (rule exI [of _ "[]"], rule exI [of _ "drop (length ctag) after"]) (use split in simp)
        ultimately show ?thesis using True by (auto simp: body_def dest: set_takeWhileD)
      next
        assume "x \<in> set (findall_tag otag ctag (drop (length ctag) after))"
        then have "x \<noteq> [] \<and> CHR ''<'' \<notin> set x \<and> sublist (otag @ x @ ctag) (drop (length ctag) after)"
          using "1.IH" less by blast
        moreover have "sublist (drop (length ctag) after) s" unfolding sublist_def
          by (rule exI [of _ "otag @ body @ ctag"], rule exI [of _ "[]"]) (use split in simp)
        ultimately show ?thesis by (meson sublist_order.order.trans)
      qed
    next
      case False
      have "findall_tag otag ctag s = findall_tag otag ctag ys"
        using False by (simp only: eq) (auto split: if_splits)
      with "1.prems" have "x \<in> set (findall_tag otag ctag ys)" by simp
      moreover have "length ys < length s" using Cons by simp
      ultimately have "x \<noteq> [] \<and> CHR ''<'' \<notin> set x \<and> sublist (otag @ x @ ctag) ys"
        using "1.IH" by blast
      then show ?thesis using Cons sublist_Cons_tail [of "otag @ x @ ctag" ys y] by simp
    qed
  qed
qed

text \<open>
  C22. Printing and scanning agree: for tags starting with \<open><\<close>, a document that lists
  non-empty values without \<open><\<close>, each between the tags and after indentation without
  \<open><\<close>, is scanned back to exactly that list of values, in order.
\<close>

theorem findall_tag_roundtrip:
  assumes "otag = CHR ''<'' # os" and "ctag = CHR ''<'' # cs" and "CHR ''<'' \<notin> set ind"
    and "\<forall>x \<in> set xs. x \<noteq> [] \<and> CHR ''<'' \<notin> set x"
  shows "findall_tag otag ctag (concat (map (\<lambda>x. ind @ otag @ x @ ctag) xs)) = xs"
  using assms(4)
proof (induction xs)
  case Nil
  then show ?case by simp
next
  case (Cons x xs)
  let ?r = "concat (map (\<lambda>x. ind @ otag @ x @ ctag) xs)"
  have ne: "otag \<noteq> []" using assms(1) by simp
  have "findall_tag otag ctag (ind @ otag @ x @ ctag @ ?r) = findall_tag otag ctag (otag @ x @ ctag @ ?r)"
    by (rule findall_tag_skip [OF assms(1,3)])
  also have "\<dots> = x # findall_tag otag ctag ?r"
    using Cons.prems by (intro findall_tag_match [OF ne assms(2)]) simp_all
  finally show ?case using Cons by simp
qed

text \<open>
  C23. The third test of line 13 is redundant: a layer name containing \<open>SEAICE\<close>
  contains \<open>ice\<close> once lower-cased, so a layer is marked exactly when its lower-cased
  name contains \<open>sic\<close> or \<open>ice\<close>.
\<close>

theorem is_ice_layer_redundant:
  "is_ice_layer layer \<longleftrightarrow> sublist ''sic'' (py_lower layer) \<or> sublist ''ice'' (py_lower layer)"
proof -
  have "sublist ''ice'' (py_lower layer)" if "sublist ''SEAICE'' layer"
  proof -
    have b: "sublist ''seaice'' (py_lower layer)"
      using map_mono_sublist [OF that, of py_lower_char] py_lower_SEAICE by (simp add: py_lower_def)
    have a: "sublist ''ice'' ''seaice''" using sublist_appendI [of "''ice''" "''sea''" "[]"] by simp
    show ?thesis using sublist_order.order.trans [OF a b] .
  qed
  then show ?thesis by (auto simp: is_ice_layer_def)
qed

text \<open>
  What the template scanner extracts is a match of its pattern: every string
  \<open>re.findall(r'<ResourceURL[^>]*template="([^"]+)"', content)\<close> returns is non-empty,
  holds no double quote, and occurs in the document as
  \<open><ResourceURL\<close>, a run without \<open>>\<close>, \<open>template="\<close>, the value, \<open>"\<close>.
\<close>

theorem findall_template_sound:
  "v \<in> set (findall_template s) \<Longrightarrow>
   v \<noteq> [] \<and> CHR ''\"'' \<notin> set v \<and>
   (\<exists>a. CHR ''>'' \<notin> set a \<and> sublist (''<ResourceURL'' @ a @ ''template=\"'' @ v @ ''\"'') s)"
proof (induction s rule: length_induct)
  case (1 s)
  show ?case
  proof (cases s)
    case Nil
    with "1.prems" show ?thesis by simp
  next
    case (Cons y ys)
    define rest where "rest = drop 12 s"
    define n where "n = length (takeWhile (\<lambda>ch. ch \<noteq> CHR ''>'') rest)"
    have eq: "findall_template s =
      (if prefix ''<ResourceURL'' s then
         (case find_attr rest n of Some (v, k) \<Rightarrow> v # findall_template (drop k rest)
          | None \<Rightarrow> findall_template ys)
       else findall_template ys)"
      unfolding Cons rest_def n_def by (rule findall_template_Cons)
    show ?thesis
    proof (cases "prefix ''<ResourceURL'' s \<and> find_attr rest n \<noteq> None")
      case True
      then obtain w k where fa: "find_attr rest n = Some (w, k)" by auto
      then obtain j where jn: "j \<le> n" and at: "attr_at rest j = Some (w, k)"
        using find_attr_Some by blast
      define J where "J = take j rest"
      define R where "R = drop k rest"
      have wq: "w \<noteq> [] \<and> CHR ''\"'' \<notin> set w" using attr_at_Some [OF at] by blast
      have rs: "rest = J @ ''template=\"'' @ w @ ''\"'' @ R"
        using attr_at_Some [OF at] unfolding J_def [symmetric] R_def [symmetric] by blast
      have noclose: "CHR ''>'' \<notin> set J"
        using take_in_takeWhile [of j "\<lambda>ch. ch \<noteq> CHR ''>''" rest] jn n_def J_def by blast
      obtain z where sz: "s = ''<ResourceURL'' @ z" using True prefixE by blast
      have "rest = z" using sz by (simp add: rest_def)
      then have split: "s = (''<ResourceURL'' @ J @ ''template=\"'' @ w @ ''\"'') @ R"
        using sz rs by (simp only: append.assoc)
      have less: "length R < length s"
        using split by (simp only: length_append) simp
      have suf: "sublist R s" unfolding sublist_def
        by (rule exI [of _ "''<ResourceURL'' @ J @ ''template=\"'' @ w @ ''\"''"], rule exI [of _ "[]"]) (use split in simp)
      from "1.prems" True fa have "v = w \<or> v \<in> set (findall_template R)"
        by (simp add: eq R_def)
      then show ?thesis
      proof
        assume "v = w"
        moreover have "sublist (''<ResourceURL'' @ J @ ''template=\"'' @ w @ ''\"'') s"
          unfolding sublist_def by (rule exI [of _ "[]"], rule exI [of _ R]) (use split in simp)
        ultimately show ?thesis using wq noclose by blast
      next
        assume "v \<in> set (findall_template R)"
        then have "v \<noteq> [] \<and> CHR ''\"'' \<notin> set v \<and>
          (\<exists>a. CHR ''>'' \<notin> set a \<and> sublist (''<ResourceURL'' @ a @ ''template=\"'' @ v @ ''\"'') R)"
          using "1.IH" less by blast
        then show ?thesis using suf by (meson sublist_order.order.trans)
      qed
    next
      case False
      have "findall_template s = findall_template ys"
        using False by (cases "find_attr rest n") (simp_all only: eq option.case if_True if_False simp_thms, auto)
      with "1.prems" have "v \<in> set (findall_template ys)" by simp
      moreover have "length ys < length s" using Cons by simp
      ultimately have "v \<noteq> [] \<and> CHR ''\"'' \<notin> set v \<and>
          (\<exists>a. CHR ''>'' \<notin> set a \<and> sublist (''<ResourceURL'' @ a @ ''template=\"'' @ v @ ''\"'') ys)"
        using "1.IH" by blast
      moreover have "sublist ys s" using Cons by (simp add: sublist_Cons_right)
      ultimately show ?thesis by (meson sublist_order.order.trans)
    qed
  qed
qed




end
