(* ===== verification/Debug_Probes.thy ===== *)
theory Debug_Probes
  imports Prelude "HOL-Library.Sublist"
begin

text \<open>
  \<open>src/debug_wms_request.py\<close> and \<open>src/debug_metno.py\<close>: one HTTP request each,
  whose answer is printed. A response of \<open>requests\<close> is the record \<open>response\<close>:
  status, the headers as a map from canonical header names (the header dictionary of
  \<open>requests\<close> is case-insensitive), the body as bytes (\<open>content\<close>, one character per
  byte) and as decoded text (\<open>text\<close>). The server is a function from URLs to
  responses, \<open>None\<close> standing for any exception of \<open>requests.get\<close>. The printed lines
  are the datatypes \<open>dwmsg\<close> and \<open>metmsg\<close>.
\<close>

record response =
  rstatus :: nat
  rheaders :: "string \<rightharpoonup> string"
  rcontent :: string
  rtext :: string

section \<open>\<open>debug_wms_request.py\<close>\<close>

definition DEBUG_URL :: string where
  "DEBUG_URL = ''https://nsidc.org/api/mapservices/NSIDC/wms?bbox=-5009377.085697311,5009377.085697311,0,10018754.171394622&format=image/png&service=WMS&version=1.1.1&request=GetMap&srs=EPSG:3857&transparent=true&width=256&height=256&layers=NSIDC:nsidc_0051_raster_n&styles=&time=2020-09-15''"

text \<open>\<open>b'\x89PNG'\<close>: the first four of the eight bytes of the PNG signature.\<close>

definition PNG_PREFIX :: string where
  "PNG_PREFIX = [CHR 0x89, CHR ''P'', CHR ''N'', CHR ''G'']"

definition PNG_SIGNATURE :: string where
  "PNG_SIGNATURE = PNG_PREFIX @ [CHR 0x0D, CHR 0x0A, CHR 0x1A, CHR 0x0A]"

datatype dwmsg =
    DW_Attempt string
  | DW_Status nat
  | DW_Content_Type "string option"
  | DW_Content_Length "string option"
  | DW_Success
  | DW_Valid_PNG
  | DW_Not_PNG
  | DW_First_Bytes string
  | DW_Text_Response
  | DW_Body string
  | DW_Failed
  | DW_Exception

text \<open>Line 19: \<open>response.headers.get('Content-Type', '')\<close>.\<close>

definition content_type :: "response \<Rightarrow> string" where
  "content_type r = (case rheaders r ''Content-Type'' of None \<Rightarrow> [] | Some v \<Rightarrow> v)"

text \<open>Lines 18--32, on a response.\<close>

definition wms_response_report :: "response \<Rightarrow> dwmsg list" where
  "wms_response_report r =
     (if rstatus r = 200 then
        (if sublist ''image'' (content_type r) then
           DW_Success #
             (if prefix PNG_PREFIX (rcontent r) then [DW_Valid_PNG]
              else [DW_Not_PNG, DW_First_Bytes (take 50 (rcontent r))])
         else [DW_Text_Response, DW_Body (take 500 (rtext r))])
      else [DW_Failed, DW_Body (take 500 (rtext r))])"

text \<open>The whole script, lines 5--35.\<close>

definition debug_wms_request :: "(string \<Rightarrow> response option) \<Rightarrow> dwmsg list" where
  "debug_wms_request net =
     DW_Attempt DEBUG_URL #
       (case net DEBUG_URL of
          None \<Rightarrow> [DW_Exception]
        | Some r \<Rightarrow>
            [DW_Status (rstatus r), DW_Content_Type (rheaders r ''Content-Type''),
             DW_Content_Length (rheaders r ''Content-Length'')] @ wms_response_report r)"

section \<open>\<open>debug_metno.py\<close>\<close>

definition METNO_URL :: string where
  "METNO_URL = ''https://thredds.met.no/thredds/wms/osisaf/met.no/ice/conc_nh_polstere-100_multi_latest.nc?service=WMS&version=1.3.0&request=GetCapabilities''"

datatype metmsg =
    M_Fetching string
  | M_Status nat
  | M_Success
  | M_Body string
  | M_Failed
  | M_Error

text \<open>The whole script, lines 4--17.\<close>

definition debug_metno :: "(string \<Rightarrow> response option) \<Rightarrow> metmsg list" where
  "debug_metno net =
     M_Fetching METNO_URL #
       (case net METNO_URL of
          None \<Rightarrow> [M_Error]
        | Some r \<Rightarrow>
            M_Status (rstatus r) #
              (if rstatus r = 200 then [M_Success, M_Body (take 2000 (rtext r))] else [M_Failed]))"

text \<open>A response that starts like a PNG file but is not one.\<close>

definition fake_png :: response where
  "fake_png = \<lparr>rstatus = 200, rheaders = [''Content-Type'' \<mapsto> ''image/png''],
     rcontent = PNG_PREFIX @ ''<ServiceExceptionReport>'', rtext = []\<rparr>"

section \<open>Properties\<close>

text \<open>
  C29. The image probe reports a valid PNG exactly when the request returned, with
  status 200, a content type containing \<open>image\<close>, and a body starting with the four
  bytes \<open>\x89PNG\<close>.
\<close>

theorem debug_wms_valid_png:
  "DW_Valid_PNG \<in> set (debug_wms_request net) \<longleftrightarrow>
   (\<exists>r. net DEBUG_URL = Some r \<and> rstatus r = 200 \<and> sublist ''image'' (content_type r) \<and>
        prefix PNG_PREFIX (rcontent r))"
  by (auto simp: debug_wms_request_def wms_response_report_def split: option.splits)


text \<open>
  C31. The probes print bounded excerpts: at most 50 bytes of a non-PNG image body, at
  most 500 characters of a text answer, at most 2,000 characters of the Met.no
  capabilities.
\<close>

theorem debug_excerpts_bounded:
  "(DW_First_Bytes b \<in> set (debug_wms_request net) \<longrightarrow> length b \<le> 50) \<and>
   (DW_Body b \<in> set (debug_wms_request net) \<longrightarrow> length b \<le> 500) \<and>
   (M_Body b \<in> set (debug_metno net2) \<longrightarrow> length b \<le> 2000)"
  by (auto simp: debug_wms_request_def wms_response_report_def debug_metno_def split: option.splits if_splits)

end
