(* ===== verification/Copernicus.thy ===== *)
theory Copernicus
  imports Wmts Debug_Probes
begin

text \<open>
  \<open>src/test_copernicus.py\<close>: request three Copernicus Marine capability endpoints and
  save every answer that looks like WMS or WMTS capabilities as
  \<open>test_response_<i>.xml\<close>, \<open>i\<close> the endpoint's position in the list. This is the file
  \<open>parse_wmts.py\<close> (theory \<open>Wmts\<close>) reads: the two scripts communicate through the
  file system state of \<open>File_System\<close>, with the reading and writing of \<open>Wmts\<close>.
  Requests are as in \<open>Debug_Probes\<close>; an exception inside the loop body (of the
  request or of the write) is caught and the loop goes on.
\<close>

definition ENDPOINTS :: "string list" where
  "ENDPOINTS =
     [''https://wmts.marine.copernicus.eu/teroWmts?SERVICE=WMTS&version=1.0.0&request=GetCapabilities'',
      ''https://wmts.marine.copernicus.eu/teroWmts/SEAICE_GLO_SEAICE_L4_NRT_OBSERVATIONS_011_001?SERVICE=WMTS&version=1.0.0&request=GetCapabilities'',
      ''https://nrt.cmems-du.eu/thredds/wms/SEAICE_GLO_SEAICE_L4_NRT_OBSERVATIONS_011_001?service=WMS&version=1.1.1&request=GetCapabilities'']"

text \<open>\<open>list.index(x)\<close>: the first position of \<open>x\<close>, \<open>ValueError\<close> when absent.\<close>

fun py_list_index :: "'a list \<Rightarrow> 'a \<Rightarrow> nat result" where
  "py_list_index [] x = Inl ValueError"
| "py_list_index (y # ys) x = (if y = x then Inr 0 else sbind (py_list_index ys x) (\<lambda>i. Inr (Suc i)))"

definition test_file :: "nat \<Rightarrow> string" where
  "test_file i = ''test_response_'' @ py_str_int (int i) @ ''.xml''"

datatype cpmsg =
    CP_Testing string
  | CP_Status nat
  | CP_Valid
  | CP_Saved string
  | CP_Error_Response string
  | CP_Exception

definition looks_valid :: "response \<Rightarrow> bool" where
  "looks_valid r \<longleftrightarrow> sublist ''Layer'' (rtext r) \<or> sublist ''TileMatrixSet'' (rtext r)"

text \<open>Lines 14--29, the body of the loop for one URL.\<close>

definition cop_one :: "(string \<Rightarrow> response option) \<Rightarrow> string \<Rightarrow> 'g fs \<Rightarrow> cpmsg list \<times> 'g fs" where
  "cop_one net url fs =
     (let hdr = CP_Testing (take 80 url) in
      case net url of
        None \<Rightarrow> ([hdr, CP_Exception], fs)
      | Some r \<Rightarrow>
          (if rstatus r = 200 then
             (if looks_valid r then
                (case py_list_index ENDPOINTS url of
                   Inl e \<Rightarrow> ([hdr, CP_Status 200, CP_Valid, CP_Exception], fs)
                 | Inr i \<Rightarrow>
                     (case write_text (test_file i) (rtext r) fs of
                        Inl e \<Rightarrow> ([hdr, CP_Status 200, CP_Valid, CP_Exception], fs)
                      | Inr fs' \<Rightarrow> ([hdr, CP_Status 200, CP_Valid, CP_Saved (test_file i)], fs')))
              else ([hdr, CP_Status 200], fs))
           else ([hdr, CP_Status (rstatus r), CP_Error_Response (take 200 (rtext r))], fs)))"

fun cop_loop :: "(string \<Rightarrow> response option) \<Rightarrow> string list \<Rightarrow> 'g fs \<Rightarrow> cpmsg list \<times> 'g fs" where
  "cop_loop net [] fs = ([], fs)"
| "cop_loop net (u # us) fs =
     (case cop_one net u fs of (ms, fs') \<Rightarrow> (case cop_loop net us fs' of (ms', fs'') \<Rightarrow> (ms @ ms', fs'')))"

text \<open>The whole script, lines 13--29.\<close>

definition test_copernicus :: "(string \<Rightarrow> response option) \<Rightarrow> 'g fs \<Rightarrow> cpmsg list \<times> 'g fs" where
  "test_copernicus net fs = cop_loop net ENDPOINTS fs"

section \<open>Lemmas\<close>

lemma test_file_inj: "test_file i = test_file j \<Longrightarrow> i = j"
proof -
  assume "test_file i = test_file j"
  then have "py_str_int (int i) = py_str_int (int j)" by (simp add: test_file_def)
  then have "py_int (py_str_int (int i)) = py_int (py_str_int (int j))" by simp
  then show "i = j" by simp
qed

lemma py_str_int_no_slash: "CHR ''/'' \<notin> set (py_str_int i)"
  by (simp add: py_str_int_def show_nat_no_sep is_digit_def)

lemma test_file_parent: "dirname (test_file i) = []"
  by (rule dirname_no_sep) (simp add: test_file_def py_str_int_no_slash)

lemma endpoints_index:
  "py_list_index ENDPOINTS (ENDPOINTS ! 0) = Inr 0"
  "py_list_index ENDPOINTS (ENDPOINTS ! 1) = Inr 1"
  "py_list_index ENDPOINTS (ENDPOINTS ! 2) = Inr 2"
  by (simp_all add: ENDPOINTS_def)

lemma cop_one_dirs: "fs_dirs (snd (cop_one net u fs)) = fs_dirs fs"
  by (auto simp: cop_one_def write_text_def Let_def split: option.splits sum.splits)

lemma cop_one_other:
  "py_list_index ENDPOINTS u = Inr i \<Longrightarrow> p \<noteq> test_file i \<Longrightarrow>
   fs_files (snd (cop_one net u fs)) p = fs_files fs p"
  by (auto simp: cop_one_def write_text_def Let_def split: option.splits sum.splits if_splits)

lemma cop_one_saves:
  assumes "net u = Some r" "rstatus r = 200" "looks_valid r" "py_list_index ENDPOINTS u = Inr i"
    "test_file i \<notin> fs_dirs fs"
  shows "fs_files (snd (cop_one net u fs)) (test_file i) = Some (Blob (rtext r))"
  using assms by (simp add: cop_one_def write_text_def parent_ok_def test_file_parent)

lemma cop_loop_snd:
  "snd (cop_loop net (u # us) fs) = snd (cop_loop net us (snd (cop_one net u fs)))"
  by (simp split: prod.split)

lemma test_copernicus_fs:
  "snd (test_copernicus net fs) =
     snd (cop_one net (ENDPOINTS ! 2) (snd (cop_one net (ENDPOINTS ! 1) (snd (cop_one net (ENDPOINTS ! 0) fs)))))"
  by (simp add: test_copernicus_def ENDPOINTS_def cop_loop_snd del: cop_loop.simps(2))


text \<open>
  C33. The endpoint probe writes nothing but its three response files: every other path
  and every directory is as before.
\<close>

theorem test_copernicus_frame:
  assumes "p \<notin> set (map test_file [0, 1, 2])"
  shows "fs_files (snd (test_copernicus net fs)) p = fs_files fs p \<and>
         fs_dirs (snd (test_copernicus net fs)) = fs_dirs fs"
proof -
  define fs1 where "fs1 = snd (cop_one net (ENDPOINTS ! 0) fs)"
  define fs2 where "fs2 = snd (cop_one net (ENDPOINTS ! 1) fs1)"
  have ne: "p \<noteq> test_file 0" "p \<noteq> test_file 1" "p \<noteq> test_file 2" using assms by simp_all
  have "fs_files fs1 p = fs_files fs p"
    unfolding fs1_def by (rule cop_one_other [OF endpoints_index(1) ne(1)])
  moreover have "fs_files fs2 p = fs_files fs1 p"
    unfolding fs2_def by (rule cop_one_other [OF endpoints_index(2) ne(2)])
  moreover have "fs_files (snd (cop_one net (ENDPOINTS ! 2) fs2)) p = fs_files fs2 p"
    by (rule cop_one_other [OF endpoints_index(3) ne(3)])
  ultimately show ?thesis
    by (simp add: test_copernicus_fs fs1_def fs2_def cop_one_dirs)
qed

end
