(* ===== verification/Pool.thy ===== *)
theory Pool
  imports Pipeline
begin

text \<open>
  Section 5 of the specification allows a conforming implementation to process the
  archives concurrently, in any order, with the Aggregator as the only synchronisation
  point: it waits for all per-archive results and concatenates them in discovery
  order. \<open>process_sea_ice.py\<close> runs the archives sequentially; this theory models the
  allowed concurrent execution and relates it to the sequential loop. A worker pool
  state holds the indices of the archives not yet processed and one result slot per
  archive; \<open>pool_step\<close> lets any worker finish any pending archive, \<open>collect\<close> is the
  Aggregator. The per-archive chain is \<open>process_archive\<close> of \<open>Pipeline\<close>: it reads
  nothing but its archive, so the order of the steps cannot matter, and the lemmas
  show that it does not.
\<close>

record 'g pool =
  pending :: "nat set"
  results :: "nat \<Rightarrow> 'g frame result option"

definition pool_init :: "nat \<Rightarrow> 'g pool" where
  "pool_init n = \<lparr>pending = {..<n}, results = (\<lambda>i. None)\<rparr>"

text \<open>A worker finishes archive \<open>i\<close>: it runs the per-archive chain and fills the slot.\<close>

definition finish :: "'g geo_backend \<Rightarrow> string list \<Rightarrow> nat \<Rightarrow> 'g pool \<Rightarrow> 'g pool" where
  "finish be zs i s =
     \<lparr>pending = pending s - {i}, results = (results s)(i := Some (snd (process_archive be (zs ! i))))\<rparr>"

inductive pool_step :: "'g geo_backend \<Rightarrow> string list \<Rightarrow> 'g pool \<Rightarrow> 'g pool \<Rightarrow> bool"
  for be :: "'g geo_backend" and zs :: "string list" where
  work: "i \<in> pending s \<Longrightarrow> i < length zs \<Longrightarrow> pool_step be zs s (finish be zs i s)"

inductive_cases pool_stepE: "pool_step be zs s t"

inductive pool_reach :: "'g geo_backend \<Rightarrow> string list \<Rightarrow> 'g pool \<Rightarrow> bool"
  for be :: "'g geo_backend" and zs :: "string list" where
  init: "pool_reach be zs (pool_init (length zs))"
| step: "pool_reach be zs s \<Longrightarrow> pool_step be zs s t \<Longrightarrow> pool_reach be zs t"

definition collect :: "string list \<Rightarrow> 'g pool \<Rightarrow> 'g frame list" where
  "collect zs s =
     concat (map (\<lambda>i. case results s i of Some (Inr f) \<Rightarrow> [f] | _ \<Rightarrow> []) [0..<length zs])"

definition pool_inv :: "'g geo_backend \<Rightarrow> string list \<Rightarrow> 'g pool \<Rightarrow> bool" where
  "pool_inv be zs s \<longleftrightarrow> pending s \<subseteq> {..<length zs} \<and>
     (\<forall>i < length zs. results s i = (if i \<in> pending s then None else Some (snd (process_archive be (zs ! i)))))"

text \<open>
  The end of a concurrent run: the Aggregator's frames go through the same saving as
  in \<open>process_files\<close> (lines 19--21 and 70--81): nothing to write without archives or without
  features, \<open>save_output\<close> otherwise. The result is the outcome and the file system
  (the workers' printed lines interleave in any order and are not compared).
\<close>

definition pool_save :: "string list \<Rightarrow> 'g pool \<Rightarrow> 'g fs \<Rightarrow> outcome \<times> 'g fs" where
  "pool_save zs s fs =
     (if zs = [] then (No_Zip_Files, fs)
      else if collect zs s = [] then (No_Features, fs)
      else snd (save_output (collect zs s) fs))"

section \<open>Lemmas\<close>

lemma pool_step_card:
  "pool_step be zs s t \<Longrightarrow> card (pending t \<inter> {..<length zs}) < card (pending s \<inter> {..<length zs})"
  by (erule pool_stepE) (auto simp: finish_def intro!: psubset_card_mono)

lemma map_eq_map_nth: "map f xs = map (\<lambda>i. f (xs ! i)) [0..<length xs]"
proof -
  have "map f xs = map f (map (\<lambda>i. xs ! i) [0..<length xs])" by (simp only: map_nth)
  then show ?thesis by (simp only: map_map comp_def)
qed

lemma archive_frames_nth:
  "archive_frames be zs =
     concat (map (\<lambda>i. case snd (process_archive be (zs ! i)) of Inl _ \<Rightarrow> [] | Inr f \<Rightarrow> [f]) [0..<length zs])"
  unfolding archive_frames_def by (rule arg_cong [where f = concat], rule map_eq_map_nth)

lemma pool_can_finish:
  assumes "pending s \<subseteq> {..<length zs}"
  shows "\<exists>t. rtranclp (pool_step be zs) s t \<and> pending t = {}"
  using assms
proof (induction "card (pending s)" arbitrary: s rule: less_induct)
  case less
  show ?case
  proof (cases "pending s = {}")
    case True
    then show ?thesis by blast
  next
    case False
    then obtain i where i: "i \<in> pending s" by blast
    with less.prems have lt: "i < length zs" by auto
    define s' where "s' = finish be zs i s"
    have st: "pool_step be zs s s'" unfolding s'_def using i lt by (rule pool_step.work)
    have fin: "finite (pending s)" using less.prems finite_subset by blast
    have "0 < card (pending s)" using i fin card_gt_0_iff by blast
    then have "card (pending s') < card (pending s)"
      using i fin by (simp add: s'_def finish_def)
    moreover have "pending s' \<subseteq> {..<length zs}" using less.prems by (auto simp: s'_def finish_def)
    ultimately obtain t where "rtranclp (pool_step be zs) s' t" and "pending t = {}"
      using less.hyps by blast
    with st show ?thesis by (blast intro: converse_rtranclp_into_rtranclp)
  qed
qed

lemma pool_inv_init: "pool_inv be zs (pool_init (length zs))"
  by (simp add: pool_inv_def pool_init_def)

lemma pool_inv_step: "pool_step be zs s t \<Longrightarrow> pool_inv be zs s \<Longrightarrow> pool_inv be zs t"
proof (induction rule: pool_step.induct)
  case (work i s)
  have sub: "pending s \<subseteq> {..<length zs}"
    and r: "\<And>k. k < length zs \<Longrightarrow>
              results s k = (if k \<in> pending s then None else Some (snd (process_archive be (zs ! k))))"
    using work.prems by (simp_all add: pool_inv_def)
  let ?t = "finish be zs i s"
  have "results ?t k = (if k \<in> pending ?t then None else Some (snd (process_archive be (zs ! k))))"
    if "k < length zs" for k
    using r [OF that] by (cases "k = i") (simp_all add: finish_def)
  moreover have "pending ?t \<subseteq> {..<length zs}" using sub by (auto simp: finish_def)
  ultimately show ?case by (simp add: pool_inv_def)
qed

lemma reach_inv: "pool_reach be zs s \<Longrightarrow> pool_inv be zs s"
  by (induction rule: pool_reach.induct) (auto intro: pool_inv_init pool_inv_step)

lemma reach_rtranclp: "rtranclp (pool_step be zs) s t \<Longrightarrow> pool_reach be zs s \<Longrightarrow> pool_reach be zs t"
  by (induction rule: rtranclp_induct) (auto intro: pool_reach.step)

lemma collect_final:
  assumes "pool_inv be zs s" and "pending s = {}"
  shows "collect zs s = all_features (process_loop be zs \<lparr>log = [Msg_Processing], all_features = []\<rparr>)"
proof -
  have "results s i = Some (snd (process_archive be (zs ! i)))" if "i < length zs" for i
    using assms that by (simp add: pool_inv_def)
  then have eq: "map (\<lambda>i. case results s i of Some (Inr f) \<Rightarrow> [f] | _ \<Rightarrow> []) [0..<length zs] =
             map (\<lambda>i. case snd (process_archive be (zs ! i)) of Inl _ \<Rightarrow> [] | Inr f \<Rightarrow> [f]) [0..<length zs]"
    by (intro map_cong) (auto split: sum.split)
  have "collect zs s = archive_frames be zs"
    by (simp only: collect_def archive_frames_nth eq)
  then show ?thesis by (simp add: process_loop_fold)
qed



text \<open>
  C36. Refinement of the sequential loop: every completed concurrent execution makes
  the Aggregator collect exactly the frames \<open>process_loop\<close> of \<open>process_sea_ice.py\<close>
  accumulates, in discovery order, whatever the order of completion was.
\<close>

theorem pool_refines_loop:
  assumes "pool_reach be zs s" and "pending s = {}"
  shows "collect zs s = all_features (process_loop be zs \<lparr>log = [Msg_Processing], all_features = []\<rparr>)"
  using collect_final [OF reach_inv [OF assms(1)] assms(2)] .



end
