(* ===== verification/Spec2Isabelle.thy ===== *)
theory Spec2Isabelle
  imports Test_Backend Download Check_Url Wms Copernicus Pool
begin

text \<open>
  \<^bold>\<open>A verification development of arcticBastion's sea-ice processing pipeline.\<close>

  \<^emph>\<open>The program.\<close> \<open>src/scripts/process_sea_ice.py\<close> turns a directory of monthly
  NSIDC sea-ice extent archives (\<open>extent_N_YYYYMM_polygon_v4.0.zip\<close>) into one GeoJSON
  file. Its function \<open>process_files\<close> globs the \<open>.zip\<close> archives of \<open>INPUT_DIR\<close> and, for
  each in discovery order, parses year and month from the file name (Descriptor
  Extractor), reads the shapefile (Geometry Loader), reprojects it to EPSG:3413 when its
  CRS is geographic (Projection Normalizer), explodes multi-polygons (Multipart
  Decomposer), drops parts of at most 2,500 square kilometres (Noise Filter), simplifies with a
  50 km tolerance (Simplifier), reprojects to EPSG:4326, adds year, month and season
  (Metadata Tagger); an exception anywhere in that chain skips the archive. The frames
  are concatenated (Aggregator) and written (Serializer). The other scripts are network
  probes: \<open>src/scripts/download_sea_ice.py\<close> fetches the archives the pipeline reads.

  \<^emph>\<open>Theories.\<close>
  \<^item> \<open>Prelude\<close>: Python exceptions as the datatype \<open>py_error\<close>, the result type
    \<open>py_error + 'a\<close> with its bind \<open>sbind\<close>, Python list indexing, shared list lemmas,
    and the collection \<open>model_simps\<close> of evaluation equations.
  \<^item> \<open>Py_Str\<close>: the Python built-ins the scripts call, from CPython's semantics:
    \<open>str.split\<close> (\<open>split_on\<close>), \<open>str.join\<close>, \<open>int(str)\<close> (\<open>py_int\<close>, with sign,
    white space and underscores), \<open>str(int)\<close>, \<open>os.path.basename\<close>, \<open>dirname\<close>,
    \<open>join\<close>, and \<open>glob('*.zip')\<close>. Lemmas: join after split is the identity,
    \<open>int(str(n)) = n\<close>, the length of a decimal numeral, basename after join.
  \<^item> \<open>Descriptor\<close>: lines 27--31 (\<open>parse_descriptor\<close>, returning \<open>IndexError\<close> or
    \<open>ValueError\<close> as values) and line 60 (\<open>season_of\<close>).
  \<^item> \<open>Geo_Frame\<close>: the GeoDataFrame as a record (CRS, columns, rows with index,
    geometry and attributes) and the operations the script applies (\<open>to_crs\<close>,
    \<open>explode\<close>, boolean filtering, \<open>simplify\<close>, column assignment and selection,
    \<open>pd.concat(..., ignore_index=True)\<close>). The geometry library is an interface: the
    record \<open>geo_backend\<close> of reading, CRS test, reprojection, parts, area and
    simplification over a geometry type variable; every pipeline theorem holds for all
    backends.
  \<^item> \<open>File_System\<close>: the file system as state (a set of directories, a map from
    paths to contents: an opaque blob or a GeoJSON feature list) and
    \<open>os.makedirs(exist_ok=True)\<close> (\<open>makedirs\<close>, raising \<open>OSError\<close> when a file
    occupies a prefix). Lemmas: it never touches a file, it is idempotent.
  \<^item> \<open>Serializer\<close>: \<open>to_file(driver="GeoJSON")\<close>: one feature per row, the index
    property only for a non-default index, the attribute columns; \<open>OSError\<close> on a
    directory or a missing parent. Writing twice gives the same state.
  \<^item> \<open>Pipeline\<close>: the configuration constants (lines 8--12), the chain of one archive
    (\<open>to_metric\<close>, \<open>noise_filter\<close>, \<open>tag_metadata\<close>, \<open>process_archive_frame\<close>,
    \<open>process_archive\<close> with its printed lines), the loop (\<open>batch_step\<close>,
    \<open>process_loop\<close>), saving (\<open>save_output\<close>) and the run (\<open>process_files\<close>, whose
    result is the printed lines, the outcome and the file system after it). The abstract
    specification \<open>archive_spec\<close>/\<open>batch_spec\<close> states on geometries what each archive
    contributes; \<open>process_archive_frame_refines\<close> proves the chain implements it, and
    \<open>process_files_output\<close> lifts that to the written file. The loop is
    characterised as a fold (\<open>archive_frames\<close>), on which the run-level lemmas rest.
  \<^item> \<open>Download\<close>: \<open>src/scripts/download_sea_ice.py\<close>: file names and URLs, the
    network as a function from URL to response (status, chunks, whether the stream
    breaks), \<open>download_file\<close> on the file system state, \<open>fetch_one\<close> per year and
    month, the loop \<open>fetch_all\<close> and \<open>main\<close>.
  \<^item> \<open>Test_Backend\<close>: a concrete backend (integer polygons, shoelace area) and the
    two-archive scenario of the specification, on which the witnesses below evaluate;
    a second backend whose simplifier is Douglas-Peucker (\<open>dp\<close>, terminating by the
    length of the line, with exact integer distance comparisons).
  \<^item> \<open>Check_Url\<close>: \<open>src/scripts/check_nsidc_url.py\<close>, the v4.0/v3.0 HEAD probes,
    related to the downloader's \<open>archive_url\<close>.
  \<^item> \<open>Py_Re\<close>: a reference model of Python's \<open>re\<close> for the patterns the scripts
    use (literals, negated classes under \<open>*\<close> and \<open>+\<close>, a group): the backtracking
    matcher \<open>re_match\<close> lists the matches in the order \<open>sre\<close> tries them, greedy
    repeats longest first; \<open>re_first\<close> is the match the engine returns, \<open>re_findall\<close>
    the scan of \<open>re.findall\<close> (a \<open>function\<close> terminating on the length of the text).
  \<^item> \<open>Wmts\<close>: \<open>src/scripts/parse_wmts.py\<close>: the three \<open>re.findall\<close> calls as
    scanners that follow the regex engine (leftmost match, greedy classes with
    backtracking; \<open>function\<close>s terminating on the length of the text), proved equal
    to \<open>re_findall\<close> on the script's patterns (\<open>tag_pat\<close>, \<open>template_pat\<close>), the layer
    marking, the report with the iteration order of a Python set as a parameter,
    reading and writing on the file system state.
  \<^item> \<open>Wms\<close>: \<open>src/scripts/check_wms.py\<close> over an XML element tree (a nested
    datatype): ElementPath's \<open>.//tag\<close>, \<open>tag\<close> and \<open>find\<close>, the SRS filter,
    \<open>sorted(set(...))\<close> with its \<open>TypeError\<close> on \<open>None\<close>, the truth value of an element.
  \<^item> \<open>Debug_Probes\<close>: \<open>src/debug_wms_request.py\<close> and \<open>src/debug_metno.py\<close> as
    functions of the server's response.
  \<^item> \<open>Copernicus\<close>: \<open>src/test_copernicus.py\<close>, whose saved
    \<open>test_response_1.xml\<close> is the file \<open>parse_wmts.py\<close> reads; the two scripts are
    composed through the file system state.
  \<^item> \<open>Pool\<close>: the concurrent execution that spec section 5 allows for the loop of
    \<open>process_files\<close> (the code itself is sequential): the state of a worker pool
    (the archives not yet finished, the result of each finished one), the step relation
    \<open>pool_step\<close> in which any worker finishes any pending archive with the result
    \<open>process_archive\<close> computes, its reachable states \<open>pool_reach\<close>, and the
    Aggregator \<open>collect\<close>, which concatenates the frames in discovery order, and
    \<open>pool_save\<close>, which saves them as \<open>process_files\<close> does.

  \<^emph>\<open>Properties proved.\<close>
  \<^item> Output: the written GeoJSON is exactly the specified feature list (refinement,
    C1); each archive's chain implements its specification, errors included (C2); the
    threshold holds for the parts before simplification (C3), and not after it: a
    Douglas-Peucker simplifier at the configured tolerance takes a polygon that passed
    the filter below the threshold, and the run writes it (C19). Every written feature
    has the schema of the specification: integer year and month, season winter or
    summer, no index (C28).
  \<^item> Outcomes of a run: no archives or no archive processed leave the files as they
    were (C4, C5); the run writes whenever one archive succeeds and the output path is
    free (C13); a file blocking \<open>public\<close> is a fatal \<open>OSError\<close> that writes nothing
    (C14); a failing archive changes nothing on disk (C15) and is logged (C16);
    re-running leaves the state as the first run left it (C17); archives whose polygons
    are all filtered out still produce an (empty) output file (C18).
  \<^item> Downloader: its file names are the pipeline's input and parse back to their
    year and month (C6); it never overwrites a file or changes a directory (C7); each
    month ends with a file or a hint (C8); a broken download leaves a partial archive
    that is never retried (C9).
  \<^item> Extractor: which names raise which exception (C10), the \<open>YYYYMM\<close> case (C11),
    and the tokens \<open>int()\<close> accepts beyond \<open>YYYYMM\<close> (C12).
  \<^item> Probes: \<open>check_url\<close> probes exactly the downloader's URLs (C20); the tag
    scanner is \<open>re.findall\<close> of its pattern (equivalence with the reference engine,
    C21) and inverts printing (C22); the \<open>SEAICE\<close> test is redundant
    (C23); the WMTS report depends on set iteration order (C24); the WMS check finds
    the sea-ice layer exactly when it exists (C25), fails on an empty SRS next to a
    non-empty one (C26), prints its SRS list sorted and complete (C27); the PNG check
    (C29) accepts a partial signature (C30); the printed excerpts are bounded (C31); the
    Copernicus probe feeds \<open>parse_wmts.py\<close> (C32) and writes only its three files (C33);
    the ResourceURL template scanner is \<open>re.findall\<close> of its pattern (C38) and, of
    several \<open>template\<close> attributes of one element, returns the last (C39). The
    soundness lemmas \<open>findall_tag_sound\<close> and \<open>findall_template_sound\<close> state
    declaratively where each extracted value occurs in the document.
  \<^item> Concurrent execution: every run of the pool terminates, whatever the
    scheduling (a well-founded step relation, C34); the invariant relating finished
    archives to their sequential results is inductive (C35); every completed run
    collects exactly the frames of the sequential loop (refinement, C36); and from every
    reachable state a completed state is reachable (C37); saved as the script saves,
    the completed pool's result is the outcome and file system of \<open>process_files\<close>
    (C40).

  \<^emph>\<open>Modelling choices.\<close> Python \<open>int\<close> is \<open>int\<close>; areas and tolerances are \<open>real\<close>
  (floating point rounding is not modelled); file names are ASCII byte strings. No loop
  needs fuel: the pipeline's loop is structural recursion over the globbed list, the
  downloader's over the list of year and month pairs, the scanners' over the length of
  the remaining text; the pool's runs are bounded by the number of pending archives,
  which every step decreases. What the geometry library
  computes (shapely, pyproj, fiona) is not modelled, only used through the interface;
  the concrete backend's reprojection is the identity and its simplification the
  identity or Douglas-Peucker (GEOS's topology-preserving variant is not modelled). The network
  is a parameter, so the downloader's theorems hold for every server behaviour.

  \<^emph>\<open>Not modelled.\<close> The libraries the scripts call are interfaces or parameters:
  the geometry library, \<open>requests\<close> (a function from URLs to responses),
  \<open>ElementTree.fromstring\<close> (a parser parameter), the text encoding of GeoJSON and of
  UTF-8 files, \<open>str.lower\<close> beyond ASCII, the repr of printed bytes, and
  \<open>time.sleep\<close>. The Geometry Loader and the Simplifier are therefore modelled only
  up to the interface: what \<open>gpd.read_file\<close> parses from a shapefile and GEOS's
  topology-preserving simplification are library code (the test backend's
  Douglas-Peucker is the variant without the topology checks). Of \<open>re\<close>, only the
  constructs the three patterns use are modelled; empty matches, which these
  patterns cannot produce, follow the rule stated in \<open>Py_Re\<close>. The remaining
  unmapped source lines are imports, \<open>datetime.now()\<close> (the parameter
  \<open>year_end\<close> of \<open>download_main\<close>) and the \<open>__main__\<close> guards.

  \<^emph>\<open>Further work.\<close> The interleaving of the workers' printed lines in a
  concurrent run, which C40 does not compare.
\<close>

section \<open>From the downloader to the pipeline\<close>

lemma download_dir_is_input_dir: "OUTPUT_DIR = INPUT_DIR"
  by (simp add: OUTPUT_DIR_def INPUT_DIR_def)

definition month_value :: "month_entry \<Rightarrow> int" where
  "month_value m = (if mname m = ''Mar'' then 3 else 9)"

lemma four_digit_year:
  assumes "1000 \<le> y" and "y \<le> 9999"
  shows "py_str_int y = show_nat (nat y) \<and> length (show_nat (nat y)) = 4"
proof -
  have "10 ^ 3 \<le> nat y" and "nat y < 10 ^ Suc 3" using assms by simp_all
  then have "length (show_nat (nat y)) = Suc 3" by (rule length_show_nat)
  with assms show ?thesis by (simp add: py_str_int_def)
qed

lemma downloaded_name_parses:
  assumes "1000 \<le> y" and "y \<le> 9999" and "m \<in> set MONTHS"
  shows "parse_descriptor (target_path y m) =
           Inr \<lparr>year = y, month = month_value m, source_path = target_path y m\<rparr>"
proof -
  let ?D = "show_nat (nat y)"
  have yd: "py_str_int y = ?D" and len: "length ?D = 4"
    using four_digit_year [OF assms(1,2)] by simp_all
  have nosep: "CHR ''_'' \<notin> set ?D" "CHR ''/'' \<notin> set ?D"
    by (simp_all add: show_nat_no_sep is_digit_def)
  have base: "basename (target_path y m) = archive_filename y (num m) ''4.0''"
    using assms(3) nosep
    by (auto simp: target_path_def archive_filename_def yd MONTHS_def intro!: basename_path_join)
  have split: "split_on CHR ''_'' (archive_filename y (num m) ''4.0'') =
                 [''extent'', ''N'', ?D @ num m, ''polygon'', ''v4.0.zip'']"
    using assms(3) nosep by (auto simp: archive_filename_def yd MONTHS_def split_on_append_nosep)
  have "py_int (take 4 (?D @ num m)) = Inr y"
    using len assms(1) by simp
  moreover have "py_int (take 2 (drop 4 (?D @ num m))) = Inr (month_value m)"
    using len assms(3) by (auto simp: MONTHS_def month_value_def model_simps)
  ultimately show ?thesis
    by (simp add: parse_descriptor_def base split Let_def)
qed

text \<open>
  C6. The archives the downloader writes are the archives the pipeline reads: for every
  year and month \<open>main()\<close> of \<open>download_sea_ice.py\<close> visits (the current year being at
  most 9999), the file it writes into \<open>OUTPUT_DIR\<close>, which is \<open>INPUT_DIR\<close>, matches
  the glob of \<open>process_sea_ice.py\<close> and parses to that year and month (3 or 9), and the
  season the pipeline tags it with is winter exactly for the March archives.
\<close>

theorem downloaded_archives_parsed:
  assumes "year_end \<le> 9999"
  shows "map parse_descriptor
           (glob_zip INPUT_DIR (map (\<lambda>(y, m). archive_filename y (num m) ''4.0'') (year_month_pairs year_end))) =
         map (\<lambda>(y, m). Inr \<lparr>year = y, month = month_value m, source_path = target_path y m\<rparr>)
           (year_month_pairs year_end) \<and>
         (\<forall>(y, m) \<in> set (year_month_pairs year_end).
            season_of (month_value m) = (if mname m = ''Mar'' then Winter else Summer))"
proof -
  let ?ps = "year_month_pairs year_end"
  have range: "1000 \<le> y \<and> y \<le> 9999 \<and> m \<in> set MONTHS" if "(y, m) \<in> set ?ps" for y m
    using that assms by (auto simp: year_month_pairs_def YEAR_START_def)
  have zip: "zip_match (archive_filename y (num m) ''4.0'')" if "m \<in> set MONTHS" for y m
    using that by (auto simp: zip_match_def archive_filename_def MONTHS_def)
  have glob: "glob_zip INPUT_DIR (map (\<lambda>(y, m). archive_filename y (num m) ''4.0'') ?ps) =
              map (\<lambda>(y, m). target_path y m) ?ps"
  proof -
    have "filter zip_match (map (\<lambda>(y, m). archive_filename y (num m) ''4.0'') ?ps) =
          map (\<lambda>(y, m). archive_filename y (num m) ''4.0'') ?ps"
      by (rule filter_True) (use range zip in auto)
    then show ?thesis
      by (simp add: glob_zip_def target_path_def download_dir_is_input_dir comp_def case_prod_beta)
  qed
  have "map parse_descriptor (map (\<lambda>(y, m). target_path y m) ?ps) =
        map (\<lambda>(y, m). Inr \<lparr>year = y, month = month_value m, source_path = target_path y m\<rparr>) ?ps"
    using range downloaded_name_parses by (auto intro!: map_cong)
  moreover have "season_of (month_value m) = (if mname m = ''Mar'' then Winter else Summer)" for m
    by (simp add: season_of_def month_value_def)
  ultimately show ?thesis by (simp add: glob)
qed

section \<open>Witnesses on the specification's scenario\<close>

definition scn_listing :: "string list" where
  "scn_listing = [scn_march, scn_september]"

definition d_march :: descriptor where
  "d_march = \<lparr>year = 2023, month = 3,
     source_path = ''data/sea_ice/raw/extent_N_202303_polygon_v4.0.zip''\<rparr>"

lemma scn_reads_wf: "\<forall>p \<in> set (glob_zip INPUT_DIR scn_listing). reads_wf scn_backend p"
  by (simp add: model_simps test_eval scn_listing_def reads_wf_def frame_wf_def)

lemma scn_run:
  "process_files scn_backend scn_listing empty_fs =
     (fst (process_files scn_backend scn_listing empty_fs), Written,
      snd (snd (process_files scn_backend scn_listing empty_fs)))"
  by (simp add: model_simps test_eval scn_listing_def)

theorem process_files_output_witness:
  "fs_files (snd (snd (process_files scn_backend scn_listing empty_fs))) OUTPUT_FILE =
     Some (GeoJSON (map spec_feature
       [(2023, 3, Winter, Poly (rect 0 0 100000 50000)), (2023, 9, Summer, Poly (rect 0 0 60000 50000))]))"
  using process_files_output [OF scn_reads_wf scn_run]
  by (simp add: model_simps test_eval scn_listing_def)

theorem output_feature_schema_witness:
  "\<exists>feats. fs_files (snd (snd (process_files scn_backend scn_listing empty_fs))) OUTPUT_FILE = Some (GeoJSON feats) \<and>
     (\<forall>f \<in> set feats. \<exists>y m s. s \<in> {''winter'', ''summer''} \<and>
        properties f = [(''year'', Some (VInt y)), (''month'', Some (VInt m)), (''season'', Some (VStr s))])"
  using output_feature_schema [OF scn_reads_wf scn_run] .

theorem process_archive_frame_refines_witness:
  "archive_spec scn_backend d_march = Inr [(2023, 3, Winter, Poly (rect 0 0 100000 50000))] \<and>
   map_sum id (\<lambda>f. (map out_view (rows f), columns f, fcrs f)) (process_archive_frame scn_backend d_march) =
     Inr ([spec_view (2023, 3, Winter, Poly (rect 0 0 100000 50000))], OUTPUT_COLUMNS, Some TARGET_CRS)"
proof -
  have wf: "reads_wf scn_backend (source_path d_march)"
    by (simp add: model_simps test_eval d_march_def reads_wf_def frame_wf_def)
  have spec: "archive_spec scn_backend d_march = Inr [(2023, 3, Winter, Poly (rect 0 0 100000 50000))]"
    by (simp add: model_simps test_eval d_march_def)
  show ?thesis
    using process_archive_frame_refines [OF wf] spec by simp
qed

theorem archive_rows_above_threshold_witness:
  "\<exists>f. process_archive_frame scn_backend d_march = Inr f \<and> rows f \<noteq> [] \<and>
     (\<forall>r \<in> set (rows f). real_of_int min_area_m2 < geom_area scn_backend (geom r))"
proof -
  have wf: "reads_wf scn_backend (source_path d_march)"
    by (simp add: model_simps test_eval d_march_def reads_wf_def frame_wf_def)
  obtain f where ok: "process_archive_frame scn_backend d_march = Inr f" and ne: "rows f \<noteq> []"
    by (simp add: model_simps test_eval d_march_def)
  have "real_of_int min_area_m2 < geom_area scn_backend (geom r)" if r: "r \<in> set (rows f)" for r
    using archive_rows_above_threshold [OF wf ok r] by (auto simp: test_eval)
  with ok ne show ?thesis by blast
qed

theorem process_files_no_zip_witness:
  "glob_zip INPUT_DIR [''README.md'', ''.hidden.zip''] = [] \<and>
   process_files scn_backend [''README.md'', ''.hidden.zip''] empty_fs =
     ([Msg_Processing, Msg_No_Zip_Files], No_Zip_Files, empty_fs)"
proof -
  have "glob_zip INPUT_DIR [''README.md'', ''.hidden.zip''] = []"
    by (simp add: model_simps)
  then show ?thesis using process_files_no_zip by blast
qed

theorem process_files_no_features_witness:
  "fst (snd (process_files scn_backend [''extent.zip'', ''extent_N_2023xx_polygon.zip''] empty_fs)) = No_Features \<and>
   snd (snd (process_files scn_backend [''extent.zip'', ''extent_N_2023xx_polygon.zip''] empty_fs)) = empty_fs"
proof -
  let ?l = "[''extent.zip'', ''extent_N_2023xx_polygon.zip'']"
  have ne: "glob_zip INPUT_DIR ?l \<noteq> []" by (simp add: model_simps)
  have fails: "\<forall>p \<in> set (glob_zip INPUT_DIR ?l). \<not> is_Inr (snd (process_archive scn_backend p))"
    by (simp add: model_simps test_eval)
  show ?thesis using process_files_no_features [OF ne fails] by simp
qed

definition blocked_fs :: "cgeom fs" where
  "blocked_fs = \<lparr>fs_dirs = {}, fs_files = [''public'' \<mapsto> Blob ''index.html'']\<rparr>"

definition bad_name :: string where
  "bad_name = ''extent_N_2023xx_polygon.zip''"

lemma scn_some_ok:
  "\<exists>p \<in> set (glob_zip INPUT_DIR scn_listing). is_Inr (snd (process_archive scn_backend p))"
  by (simp add: model_simps test_eval scn_listing_def)

theorem process_files_writes_witness:
  "fst (snd (process_files scn_backend scn_listing empty_fs)) = Written"
proof -
  have free: "\<forall>q \<in> set [''public'', ''public/data'']. fs_files empty_fs q = None"
    and nodir: "OUTPUT_FILE \<notin> fs_dirs empty_fs"
    by (simp_all add: empty_fs_def)
  show ?thesis using process_files_writes [OF scn_reads_wf scn_some_ok free nodir] .
qed

theorem process_files_fatal_blocked_witness:
  "fst (snd (process_files scn_backend scn_listing blocked_fs)) = Fatal (OSError ''public'') \<and>
   fs_files (snd (snd (process_files scn_backend scn_listing blocked_fs))) = fs_files blocked_fs"
proof -
  have "fs_files blocked_fs ''public'' \<noteq> None" and "''public'' \<notin> fs_dirs blocked_fs"
    by (simp_all add: blocked_fs_def)
  then show ?thesis using process_files_fatal_blocked [OF scn_some_ok scn_reads_wf] by blast
qed

theorem failed_archive_isolated_witness:
  "snd (snd (process_files scn_backend ([scn_march] @ bad_name # [scn_september]) empty_fs)) =
   snd (snd (process_files scn_backend ([scn_march] @ [scn_september]) empty_fs))"
proof -
  have "\<not> is_Inr (snd (process_archive scn_backend (path_join INPUT_DIR bad_name)))"
    by (simp add: model_simps test_eval bad_name_def)
  then show ?thesis by (rule failed_archive_isolated)
qed

theorem process_files_logs_errors_witness:
  "Msg_Error (path_join INPUT_DIR bad_name) ValueError
     \<in> set (fst (process_files scn_backend (scn_march # [bad_name]) empty_fs))"
proof -
  have mem: "path_join INPUT_DIR bad_name \<in> set (glob_zip INPUT_DIR (scn_march # [bad_name]))"
    by (simp add: model_simps bad_name_def)
  have err: "snd (process_archive scn_backend (path_join INPUT_DIR bad_name)) = Inl ValueError"
    by (simp add: model_simps test_eval bad_name_def)
  show ?thesis using process_files_logs_errors [OF mem err] .
qed

section \<open>An archive with no polygon above the threshold\<close>

definition small_backend :: "cgeom geo_backend" where
  "small_backend = test_backend
     [(''data/sea_ice/raw/extent_N_202309_polygon_v4.0.zip'',
        shapefile [Poly (rect 0 0 50000 20000)])]"


section \<open>Simplification after the area filter\<close>

definition dp_quad :: "(int \<times> int) list" where
  "dp_quad = [(0, 0), (70000, 0), (42000, 42000), (0, 70000)]"

definition dp_scn_backend :: "cgeom geo_backend" where
  "dp_scn_backend = dp_backend
     [(''data/sea_ice/raw/extent_N_202309_polygon_v4.0.zip'', shapefile [Poly dp_quad])]"

text \<open>
  C19. The area filter runs before the simplifier, so the output may hold polygons of at
  most 2,500 square kilometres. With a Douglas-Peucker simplifier at the configured
  50 km tolerance, a quadrilateral of 2,940 square kilometres passes the filter and
  loses a vertex 9.9 km off its chord; the run writes the remaining triangle, of 2,450
  square kilometres, and no fallback restores the original. The specification's
  property that every output polygon's recomputed metric area exceeds the threshold
  does not hold.
\<close>

theorem simplified_below_threshold:
  "real_of_int min_area_m2 < ring_area dp_quad \<and>
   ring_area [(0, 0), (70000, 0), (0, 70000)] < real_of_int min_area_m2 \<and>
   fst (snd (process_files dp_scn_backend [scn_september] empty_fs)) = Written \<and>
   fs_files (snd (snd (process_files dp_scn_backend [scn_september] empty_fs))) OUTPUT_FILE =
     Some (GeoJSON [spec_feature (2023, 9, Summer, Poly [(0, 0), (70000, 0), (0, 70000)])])"
proof -
  have quad: "ring_area dp_quad = 2940000000"
    by (simp add: ring_area_def shoelace_def dp_quad_def)
  have tri: "ring_area [(0, 0), (70000, 0), (0, 70000)] = 2450000000"
    by (simp add: ring_area_def shoelace_def)
  have simp_quad: "simplify_ring 50000 dp_quad = [(0, 0), (70000, 0), (0, 70000)]"
    by (simp add: simplify_ring_def dp_quad_def dp.simps chord_key_def chord_bound_def Let_def)
  have run: "process_files dp_scn_backend [scn_september] empty_fs =
    ([Msg_Processing, Msg_Parsed 2023 9, Msg_Merging, Msg_Saving OUTPUT_FILE, Msg_Done], Written,
     \<lparr>fs_dirs = {''public/data'', ''public''},
      fs_files = [OUTPUT_FILE \<mapsto> GeoJSON [spec_feature (2023, 9, Summer, Poly [(0, 0), (70000, 0), (0, 70000)])]]\<rparr>)"
    by (simp add: model_simps test_eval dp_scn_backend_def dp_backend_def quad simp_quad
        spec_feature_def spec_view_def)
  show ?thesis by (simp add: run quad tri config_defs)
qed

section \<open>Witnesses for the downloader\<close>

definition raw_dirs_fs :: "cgeom fs" where
  "raw_dirs_fs = \<lparr>fs_dirs = {''data'', ''data/sea_ice'', ''data/sea_ice/raw''}, fs_files = Map.empty\<rparr>"

definition march_only_net :: "string \<Rightarrow> http" where
  "march_only_net u = (if u = archive_url 1979 \<lparr>num = ''03'', mname = ''Mar''\<rparr> ''4.0''
                       then Http 200 [''PK'', ''zip''] False else Http 404 [] False)"

lemma show_nat_1979: "show_nat 1979 = ''1979''"
  by code_simp

theorem downloaded_archives_parsed_witness:
  "map parse_descriptor
     (glob_zip INPUT_DIR [''extent_N_197903_polygon_v4.0.zip'', ''extent_N_197909_polygon_v4.0.zip'']) =
   [Inr \<lparr>year = 1979, month = 3, source_path = ''data/sea_ice/raw/extent_N_197903_polygon_v4.0.zip''\<rparr>,
    Inr \<lparr>year = 1979, month = 9, source_path = ''data/sea_ice/raw/extent_N_197909_polygon_v4.0.zip''\<rparr>]"
proof -
  have pairs: "year_month_pairs 1979 = [(1979, \<lparr>num = ''03'', mname = ''Mar''\<rparr>), (1979, \<lparr>num = ''09'', mname = ''Sep''\<rparr>)]"
    by (simp add: year_month_pairs_def YEAR_START_def MONTHS_def)
  show ?thesis
    using downloaded_archives_parsed [of 1979]
    by (simp add: pairs archive_filename_def py_str_int_def show_nat_1979 target_path_def
        month_value_def OUTPUT_DIR_def INPUT_DIR_def path_join_def)
qed

theorem fetch_all_frame_witness:
  "fs_dirs (snd (fetch_all march_only_net (year_month_pairs 1979) raw_dirs_fs)) = fs_dirs raw_dirs_fs \<and>
   fs_files (snd (fetch_all march_only_net (year_month_pairs 1979) raw_dirs_fs))
     ''data/sea_ice/raw/extent_N_197903_polygon_v4.0.zip'' = Some (Blob ''PKzip'')"
proof -
  let ?r = "fetch_all march_only_net (year_month_pairs 1979) raw_dirs_fs"
  have run: "fetch_all march_only_net (year_month_pairs 1979) raw_dirs_fs = (fst ?r, snd ?r)" by simp
  have "fs_files (snd ?r) ''data/sea_ice/raw/extent_N_197903_polygon_v4.0.zip'' = Some (Blob ''PKzip'')"
    by (simp add: model_simps show_nat_1979 raw_dirs_fs_def march_only_net_def)
  with fetch_all_frame [OF run] show ?thesis by simp
qed

theorem fetch_all_covers_witness:
  "D_Might_Try (archive_url 1979 \<lparr>num = ''09'', mname = ''Sep''\<rparr> ''3.0'')
     \<in> set (fst (fetch_all march_only_net (year_month_pairs 1979) raw_dirs_fs))"
proof -
  let ?r = "fetch_all march_only_net (year_month_pairs 1979) raw_dirs_fs"
  let ?sep = "\<lparr>num = ''09'', mname = ''Sep''\<rparr>"
  have run: "fetch_all march_only_net (year_month_pairs 1979) raw_dirs_fs = (fst ?r, snd ?r)" by simp
  have mem: "(1979, ?sep) \<in> set (year_month_pairs 1979)"
    by (simp add: year_month_pairs_def YEAR_START_def MONTHS_def)
  have absent: "\<not> path_exists (snd ?r) (target_path 1979 ?sep)"
    by (simp add: model_simps show_nat_1979 raw_dirs_fs_def march_only_net_def target_path_def)
  show ?thesis using fetch_all_covers [OF run mem] absent by simp
qed

theorem partial_download_kept_witness:
  "download_file (\<lambda>u. Http 200 [''PK''] True) ''u'' ''data/sea_ice/raw/a.zip'' raw_dirs_fs =
     ([D_Downloading ''u'', D_Error ''u''], False,
      raw_dirs_fs\<lparr>fs_files := [''data/sea_ice/raw/a.zip'' \<mapsto> Blob ''PK'']\<rparr>) \<and>
   download_file (\<lambda>u. Http 200 [''PK'', ''rest''] False) ''u''  ''data/sea_ice/raw/a.zip''
     (raw_dirs_fs\<lparr>fs_files := [''data/sea_ice/raw/a.zip'' \<mapsto> Blob ''PK'']\<rparr>) =
     ([D_Skipping ''data/sea_ice/raw/a.zip''], True,
      raw_dirs_fs\<lparr>fs_files := [''data/sea_ice/raw/a.zip'' \<mapsto> Blob ''PK'']\<rparr>)"
proof -
  have h1: "\<not> path_exists raw_dirs_fs ''data/sea_ice/raw/a.zip''"
    and h2: "parent_ok raw_dirs_fs ''data/sea_ice/raw/a.zip''"
    by (simp_all add: path_exists_def parent_ok_def raw_dirs_fs_def dirname_def)
  have h3: "(\<lambda>u. Http 200 [''PK''] True) ''u'' = Http 200 [''PK''] True" by simp
  show ?thesis
    using partial_download_kept [where net = "\<lambda>u. Http 200 [''PK''] True" and url = "''u''"
        and chunks = "[''PK'']", OF h1 h2 h3]
    by (simp add: raw_dirs_fs_def)
qed

section \<open>Witnesses for the capabilities parser\<close>

theorem findall_tag_sound_witness:
  "''sea_ice_extent'' \<noteq> [] \<and> CHR ''<'' \<notin> set ''sea_ice_extent'' \<and>
   sublist (''<ows:Identifier>'' @ ''sea_ice_extent'' @ ''</ows:Identifier>'')
     ''<Layer><ows:Identifier>sea_ice_extent</ows:Identifier></Layer>''"
proof -
  have "''sea_ice_extent'' \<in> set (findall_tag ''<ows:Identifier>'' ''</ows:Identifier>''
          ''<Layer><ows:Identifier>sea_ice_extent</ows:Identifier></Layer>'')"
    by simp
  then show ?thesis by (rule findall_tag_sound)
qed



theorem findall_tag_roundtrip_witness:
  "findall_tag ''<ows:Identifier>'' ''</ows:Identifier>''
     (concat (map (\<lambda>x. ''  '' @ ''<ows:Identifier>'' @ x @ ''</ows:Identifier>'') [''sic'', ''AMSR2_SEAICE''])) =
   [''sic'', ''AMSR2_SEAICE'']"
  by (rule findall_tag_roundtrip [where os = "''ows:Identifier>''" and cs = "''/ows:Identifier>''"]) simp_all

theorem findall_template_sound_witness:
  "''t/{z}'' \<noteq> [] \<and> CHR ''\"'' \<notin> set ''t/{z}'' \<and>
   (\<exists>a. CHR ''>'' \<notin> set a \<and> sublist (''<ResourceURL'' @ a @ ''template=\"'' @ ''t/{z}'' @ ''\"'')
      ''<ResourceURL format=\"p\" template=\"t/{z}\"/>'')"
proof -
  have "''t/{z}'' \<in> set (findall_template ''<ResourceURL format=\"p\" template=\"t/{z}\"/>'')"
    by (simp add: attr_at_def)
  then show ?thesis by (rule findall_template_sound)
qed


section \<open>Witnesses for the WMS check\<close>

definition wms_doc :: xml where
  "wms_doc = Elem ''WMT_MS_Capabilities'' None
     [Elem ''Capability'' None
        [Elem ''Layer'' None
           [Elem ''SRS'' (Some ''EPSG:4326'') [], Elem ''SRS'' (Some ''EPSG:32661'') [],
            Elem ''Layer'' None
              [Elem ''Name'' (Some ''NSIDC:nsidc_0051_raster_n'') [],
               Elem ''SRS'' None [], Elem ''SRS'' (Some ''EPSG:3413'') []]]]]"

definition wms_ice_layer :: xml where
  "wms_ice_layer = Elem ''Layer'' None
     [Elem ''Name'' (Some ''NSIDC:nsidc_0051_raster_n'') [],
      Elem ''SRS'' None [], Elem ''SRS'' (Some ''EPSG:3413'') []]"

definition wms_net :: "string \<Rightarrow> http" where
  "wms_net u = Http 200 [''<WMT_MS_Capabilities/>''] False"

definition wms_parse :: "string \<Rightarrow> xml option" where
  "wms_parse s = Some wms_doc"

lemma wms_fetch:
  "wms_net WMS_URL = Http 200 [''<WMT_MS_Capabilities/>''] False"
  "wms_parse (concat [''<WMT_MS_Capabilities/>'']) = Some wms_doc"
  by (simp_all add: wms_net_def wms_parse_def)

lemma wms_find: "find is_ice_layer_elem (findall_desc ''Layer'' wms_doc) = Some wms_ice_layer"
  by (simp add: wms_doc_def wms_ice_layer_def findall_desc_def is_ice_layer_elem_def find_child_def ICE_LAYER_def)

theorem check_wms_found_layer_witness:
  "W_Found_Layer \<in> set (check_wms wms_net wms_parse)"
proof -
  have "\<exists>l \<in> set (findall_desc ''Layer'' wms_doc). is_ice_layer_elem l"
    using find_Some_mem [OF wms_find] by blast
  then show ?thesis using check_wms_found_layer [where net = wms_net and parse = wms_parse and chunks = "[''<WMT_MS_Capabilities/>'']" and d = wms_doc, OF wms_fetch] by blast
qed

theorem check_wms_layer_srs_error_witness:
  "W_Error \<in> set (check_wms wms_net wms_parse)"
proof -
  have "None \<in> xtext ` set (findall_child ''SRS'' wms_ice_layer) \<and>
        (\<exists>v. Some v \<in> xtext ` set (findall_child ''SRS'' wms_ice_layer))"
    by (auto simp: wms_ice_layer_def findall_child_def)
  then show ?thesis using check_wms_layer_srs_error [where net = wms_net and parse = wms_parse and chunks = "[''<WMT_MS_Capabilities/>'']" and d = wms_doc and l = wms_ice_layer, OF wms_fetch wms_find] by blast
qed

theorem check_wms_supported_witness:
  "\<exists>xs. W_Supported xs \<in> set (check_wms wms_net wms_parse) \<and> sorted xs \<and> distinct xs \<and>
     set xs = {v. Some v \<in> xtext ` set (findall_desc ''SRS'' wms_doc) \<and> srs_of_interest (Some v)}"
  by (rule check_wms_supported [where net = wms_net and parse = wms_parse and chunks = "[''<WMT_MS_Capabilities/>'']" and d = wms_doc, OF wms_fetch])

section \<open>Witness for the debug probes\<close>

definition xml_resp :: response where
  "xml_resp = \<lparr>rstatus = 200, rheaders = [''Content-Type'' \<mapsto> ''text/xml''],
     rcontent = ''<ServiceExceptionReport/>'', rtext = ''<ServiceExceptionReport/>''\<rparr>"

theorem debug_excerpts_bounded_witness:
  "DW_Body ''<ServiceExceptionReport/>'' \<in> set (debug_wms_request (\<lambda>u. Some xml_resp)) \<and>
   length ''<ServiceExceptionReport/>'' \<le> 500 \<and>
   M_Body ''<ServiceExceptionReport/>'' \<in> set (debug_metno (\<lambda>u. Some xml_resp)) \<and>
   length ''<ServiceExceptionReport/>'' \<le> 2000"
proof -
  have w: "DW_Body ''<ServiceExceptionReport/>'' \<in> set (debug_wms_request (\<lambda>u. Some xml_resp))"
    and m: "M_Body ''<ServiceExceptionReport/>'' \<in> set (debug_metno (\<lambda>u. Some xml_resp))"
    by (simp_all add: debug_wms_request_def wms_response_report_def debug_metno_def xml_resp_def
        content_type_def sublist_Cons_right)
  show ?thesis
    using w m debug_excerpts_bounded [of "''<ServiceExceptionReport/>''" "\<lambda>u. Some xml_resp" "\<lambda>u. Some xml_resp"]
    by blast
qed

section \<open>Witnesses for the endpoint probe\<close>

definition cop_resp :: response where
  "cop_resp = \<lparr>rstatus = 200, rheaders = Map.empty, rcontent = ''<Layer/>'', rtext = ''<Layer/>''\<rparr>"

definition cop_net :: "string \<Rightarrow> response option" where
  "cop_net u = (if u = ENDPOINTS ! 1 then Some cop_resp else None)"


theorem test_copernicus_frame_witness:
  "fs_files (snd (test_copernicus cop_net empty_fs)) ''wmts_analysis.txt'' = fs_files empty_fs ''wmts_analysis.txt'' \<and>
   fs_dirs (snd (test_copernicus cop_net empty_fs)) = fs_dirs empty_fs"
proof -
  have "''wmts_analysis.txt'' \<notin> set (map test_file [0, 1, 2])"
    by (simp add: test_file_def py_str_int_def show_nat_eq digit_char_def char_of_def bit_0)
  then show ?thesis by (rule test_copernicus_frame)
qed

section \<open>Witnesses for the worker pool\<close>

definition pool_zs :: "string list" where
  "pool_zs = glob_zip INPUT_DIR scn_listing"

definition pool_rev :: "cgeom pool" where
  "pool_rev = finish scn_backend pool_zs 0 (finish scn_backend pool_zs 1 (pool_init 2))"

lemma pool_zs_length: "length pool_zs = 2"
  by (simp add: pool_zs_def model_simps scn_listing_def test_eval)

lemma pool_rev_reach: "pool_reach scn_backend pool_zs pool_rev"
proof -
  have r0: "pool_reach scn_backend pool_zs (pool_init 2)"
    using pool_reach.init [of scn_backend pool_zs] by (simp add: pool_zs_length)
  have "pool_step scn_backend pool_zs (pool_init 2) (finish scn_backend pool_zs 1 (pool_init 2))"
    by (rule pool_step.work) (simp_all add: pool_init_def pool_zs_length)
  with r0 have r1: "pool_reach scn_backend pool_zs (finish scn_backend pool_zs 1 (pool_init 2))"
    by (rule pool_reach.step)
  have "pool_step scn_backend pool_zs (finish scn_backend pool_zs 1 (pool_init 2)) pool_rev"
    unfolding pool_rev_def by (rule pool_step.work) (simp_all add: pool_init_def finish_def pool_zs_length)
  with r1 show ?thesis by (rule pool_reach.step)
qed


theorem pool_refines_loop_witness:
  "pending pool_rev = {} \<and>
   collect pool_zs pool_rev = all_features (process_loop scn_backend pool_zs \<lparr>log = [Msg_Processing], all_features = []\<rparr>)"
proof -
  have "pending pool_rev = {}" by (auto simp: pool_rev_def finish_def pool_init_def)
  then show ?thesis using pool_refines_loop [OF pool_rev_reach] by blast
qed



section \<open>Witnesses for the extractor\<close>

theorem parse_descriptor_errors_witness:
  "parse_descriptor ''data/sea_ice/raw/extent.zip'' = Inl IndexError \<and>
   count_list (basename ''data/sea_ice/raw/extent_N_2023xx_polygon.zip'') CHR ''_'' = 3 \<and>
   parse_descriptor ''data/sea_ice/raw/extent_N_2023xx_polygon.zip'' = Inl ValueError"
proof -
  have c0: "count_list (basename ''data/sea_ice/raw/extent.zip'') CHR ''_'' < 2"
    by (simp add: basename_def)
  have c3: "count_list (basename ''data/sea_ice/raw/extent_N_2023xx_polygon.zip'') CHR ''_'' = 3"
    by (simp add: basename_def)
  have v: "parse_descriptor ''data/sea_ice/raw/extent_N_2023xx_polygon.zip'' = Inl ValueError"
    by (simp add: model_simps)
  show ?thesis
    using parse_descriptor_errors [of "''data/sea_ice/raw/extent.zip''"]
      parse_descriptor_errors [of "''data/sea_ice/raw/extent_N_2023xx_polygon.zip''" ValueError]
      c0 c3 v by simp
qed

theorem parse_descriptor_yyyymm_witness:
  "parse_descriptor ''data/sea_ice/raw/extent_N_202309_polygon_v4.0.zip'' =
     Inr \<lparr>year = 2023, month = 9, source_path = ''data/sea_ice/raw/extent_N_202309_polygon_v4.0.zip''\<rparr>"
proof -
  have f: "split_on CHR ''_'' (basename ''data/sea_ice/raw/extent_N_202309_polygon_v4.0.zip'') =
           ''extent'' # ''N'' # ''202309'' # [''polygon'', ''v4.0.zip'']"
    by (simp add: basename_def)
  have l: "length ''202309'' = 6" and d: "\<forall>c \<in> set ''202309''. is_digit c"
    by (simp_all add: is_digit_def)
  show ?thesis
    using parse_descriptor_yyyymm [OF f l d] by (simp add: digits_value_def digit_val_def is_digit_def)
qed

end
